(* ===== verification/Prelude.thy ===== *)
theory Prelude
  imports Main "HOL-Library.Word"
begin

unbundle bit_operations_syntax

text \<open>
  Shared vocabulary of the development: the fixed-width integer types of the C code, the
  UEFI status codes its functions return, the round-robin scan that several allocators
  share, and the generic lemmas on modular indices, words and lists that the component
  theories use.
\<close>

section \<open>Integer types and status codes\<close>

type_synonym u8 = "8 word"
type_synonym u16 = "16 word"
type_synonym u32 = "32 word"
type_synonym u64 = "64 word"

text \<open>
  The status codes the code returns or compares with. A service outside the repository may
  return any other code: \<open>EFI_OTHER_ERROR\<close> and \<open>EFI_OTHER_WARNING\<close> stand for those, with
  the code's number. \<open>EFI_ERROR\<close> is true of the codes whose top bit is set.
\<close>

datatype efi_status =
    EFI_SUCCESS
  | EFI_INVALID_PARAMETER
  | EFI_UNSUPPORTED
  | EFI_BUFFER_TOO_SMALL
  | EFI_NOT_READY
  | EFI_DEVICE_ERROR
  | EFI_OUT_OF_RESOURCES
  | EFI_NO_MEDIA
  | EFI_NOT_FOUND
  | EFI_ACCESS_DENIED
  | EFI_TIMEOUT
  | EFI_WARN_STATUS_NOT_FOUND
  | EFI_OTHER_ERROR u64
  | EFI_OTHER_WARNING u64

fun EFI_ERROR :: "efi_status \<Rightarrow> bool" where
  "EFI_ERROR EFI_SUCCESS = False"
| "EFI_ERROR EFI_WARN_STATUS_NOT_FOUND = False"
| "EFI_ERROR (EFI_OTHER_WARNING _) = False"
| "EFI_ERROR _ = True"

abbreviation (input) BIT0 :: "'a::len word" where "BIT0 \<equiv> 0x1"
abbreviation (input) BIT1 :: "'a::len word" where "BIT1 \<equiv> 0x2"
abbreviation (input) BIT2 :: "'a::len word" where "BIT2 \<equiv> 0x4"
abbreviation (input) BIT3 :: "'a::len word" where "BIT3 \<equiv> 0x8"
abbreviation (input) BIT5 :: "'a::len word" where "BIT5 \<equiv> 0x20"
abbreviation (input) BIT7 :: "'a::len word" where "BIT7 \<equiv> 0x80"
abbreviation (input) BIT8 :: "'a::len word" where "BIT8 \<equiv> 0x100"
abbreviation (input) BIT9 :: "'a::len word" where "BIT9 \<equiv> 0x200"
abbreviation (input) BIT10 :: "'a::len word" where "BIT10 \<equiv> 0x400"
abbreviation (input) BIT11 :: "'a::len word" where "BIT11 \<equiv> 0x800"
abbreviation (input) BIT12 :: "'a::len word" where "BIT12 \<equiv> 0x1000"
abbreviation (input) BIT13 :: "'a::len word" where "BIT13 \<equiv> 0x2000"
abbreviation (input) BIT15 :: "'a::len word" where "BIT15 \<equiv> 0x8000"
abbreviation (input) BIT16 :: "'a::len word" where "BIT16 \<equiv> 0x10000"
abbreviation (input) BIT17 :: "'a::len word" where "BIT17 \<equiv> 0x20000"
abbreviation (input) BIT20 :: "'a::len word" where "BIT20 \<equiv> 0x100000"
abbreviation (input) BIT21 :: "'a::len word" where "BIT21 \<equiv> 0x200000"
abbreviation (input) BIT24 :: "'a::len word" where "BIT24 \<equiv> 0x1000000"
abbreviation (input) BIT28 :: "'a::len word" where "BIT28 \<equiv> 0x10000000"
abbreviation (input) BIT31 :: "'a::len word" where "BIT31 \<equiv> 0x80000000"

section \<open>Outcomes\<close>

text \<open>What a call does that may not come back: it returns, it accesses memory that is not its own
  (or calls a null pointer), or it never returns.\<close>

datatype 'a outcome = Done 'a | Corrupts | Hangs

fun outcome_of_option :: "'a option \<Rightarrow> 'a outcome" where
  "outcome_of_option None = Hangs"
| "outcome_of_option (Some x) = Done x"

lemma outcome_of_option_simps [simp]:
  "outcome_of_option r = Hangs \<longleftrightarrow> r = None"
  "outcome_of_option r = Done x \<longleftrightarrow> r = Some x"
  "outcome_of_option r \<noteq> Corrupts"
  by (cases r; simp)+

section \<open>Shared automation\<close>

named_theorems prelude_simps \<open>equations every component may rewrite with\<close>
named_theorems inv_intros \<open>introduction rules for the invariants of the components\<close>

section \<open>Modular indices\<close>

lemma mod_add_window_inj:
  fixes h c :: nat
  assumes "(h + i) mod c = (h + j) mod c" "i < c" "j < c"
  shows "i = j"
proof -
  obtain p q where "h + i + c * p = h + j + c * q"
    using assms(1) nat_mod_eq_iff by blast
  then have "i + c * p = j + c * q" by simp
  then have "(i + c * p) mod c = (j + c * q) mod c" by simp
  then show ?thesis using assms(2,3) by simp
qed

lemma mod_window_shift:
  fixes h c :: nat
  shows "((h + 1) mod c + k) mod c = (h + Suc k) mod c"
  by (simp add: mod_add_left_eq)

lemma mod_window_tail:
  fixes h c :: nat
  shows "((h + n) mod c + 1) mod c = (h + Suc n) mod c"
  by (simp add: mod_Suc_eq)

section \<open>Round-robin scan\<close>

text \<open>
  The loop \<open>do { if (free(b)) break; b = (b + 1) % n; } while (b != start)\<close> that the
  reorder-buffer allocators run over their banks. \<open>k\<close> is the number of banks not yet
  tried; the loop is entered with \<open>k = n\<close> and \<open>b = start\<close>, and \<open>rr_scan_None_iff\<close> shows
  that this is enough fuel: it gives up only when no bank is free.
\<close>

fun rr_scan :: "nat \<Rightarrow> (nat \<Rightarrow> bool) \<Rightarrow> nat \<Rightarrow> nat \<Rightarrow> nat \<Rightarrow> nat option" where
  "rr_scan n p start b 0 = None"
| "rr_scan n p start b (Suc k) =
     (if p b then Some b
      else (let b' = (b + 1) mod n in
            if b' = start then None else rr_scan n p start b' k))"

lemma rr_scan_Some:
  assumes "rr_scan n p start b k = Some r" and "b < n"
  shows "r < n \<and> p r"
  using assms
  by (induction n p start b k rule: rr_scan.induct)
     (auto simp: Let_def split: if_splits)

lemma rr_scan_from:
  assumes "start < n" and "i < n" and "rr_scan n p start ((start + i) mod n) (n - i) = None"
  shows "\<forall>j. i \<le> j \<and> j < n \<longrightarrow> \<not> p ((start + j) mod n)"
  using assms
proof (induction "n - i" arbitrary: i)
  case 0
  then show ?case by simp
next
  case (Suc k)
  then have step: "n - i = Suc (n - Suc i)" by simp
  from Suc.prems(3) have np: "\<not> p ((start + i) mod n)"
    by (simp add: step split: if_splits)
  show ?case
  proof (cases "Suc i = n")
    case True
    with np show ?thesis by (metis le_less_Suc_eq)
  next
    case False
    with Suc.prems(2) have lt: "Suc i < n" by simp
    have nxt: "((start + i) mod n + 1) mod n = (start + Suc i) mod n"
      by (rule mod_window_tail)
    have ne: "(start + Suc i) mod n \<noteq> start"
      using mod_add_window_inj [of start "Suc i" n 0] lt Suc.prems(1) by auto
    have "rr_scan n p start ((start + Suc i) mod n) (n - Suc i) = None"
      using Suc.prems(3) np ne nxt by (simp add: step Let_def)
    moreover have "k = n - Suc i" using Suc.hyps(2) by simp
    ultimately have "\<forall>j. Suc i \<le> j \<and> j < n \<longrightarrow> \<not> p ((start + j) mod n)"
      using Suc.hyps(1) [of "Suc i"] Suc.prems(1) lt by blast
    with np show ?thesis by (metis Suc_leI le_neq_implies_less)
  qed
qed

lemma rr_scan_None_iff:
  assumes "start < n"
  shows "rr_scan n p start start n = None \<longleftrightarrow> (\<forall>b<n. \<not> p b)"
proof
  assume none: "rr_scan n p start start n = None"
  show "\<forall>b<n. \<not> p b"
  proof (intro allI impI)
    fix b assume b: "b < n"
    let ?j = "(b + n - start) mod n"
    have "(start + ?j) mod n = (start + (b + n - start)) mod n"
      by (simp add: mod_add_right_eq)
    also have "\<dots> = b" using assms b by simp
    finally have "(start + ?j) mod n = b" .
    moreover have "\<not> p ((start + ?j) mod n)"
      using rr_scan_from [of start n 0 p] none assms by simp
    ultimately show "\<not> p b" by simp
  qed
next
  assume "\<forall>b<n. \<not> p b"
  then show "rr_scan n p start start n = None"
    using rr_scan_Some assms by (cases "rr_scan n p start start n") blast+
qed

lemma rr_scan_first: "p start \<Longrightarrow> 0 < n \<Longrightarrow> rr_scan n p start start n = Some start"
  by (cases n) simp_all

section \<open>Words from small numbers\<close>

lemma unat_of_nat_small: "n < 2 ^ LENGTH('a) \<Longrightarrow> unat (of_nat n :: 'a::len word) = n"
  by (simp add: unat_of_nat)

section \<open>Sums over an updated array\<close>

lemma sum_fun_upd:
  fixes f :: "'b \<Rightarrow> nat" and b n :: nat
  assumes "b < n"
  shows "(\<Sum>i<n. f ((g(b := x)) i)) + f (g b) = (\<Sum>i<n. f (g i)) + f x"
proof -
  have split: "(\<Sum>i<n. h i) = h b + (\<Sum>i\<in>{..<n} - {b}. h i)" for h :: "nat \<Rightarrow> nat"
    using assms by (intro sum.remove) auto
  have "(\<Sum>i\<in>{..<n} - {b}. f ((g(b := x)) i)) = (\<Sum>i\<in>{..<n} - {b}. f (g i))"
    by (rule sum.cong) auto
  with split [of "\<lambda>i. f ((g(b := x)) i)"] split [of "\<lambda>i. f (g i)"] show ?thesis by simp
qed

section \<open>Loops with an early exit\<close>

text \<open>\<open>for (i in xs) { body; if (stop) break; }\<close>: the body returns the new state and whether
  it breaks.\<close>

fun for_break :: "('i \<Rightarrow> 's \<Rightarrow> 's \<times> bool) \<Rightarrow> 'i list \<Rightarrow> 's \<Rightarrow> 's" where
  "for_break f [] s = s"
| "for_break f (i # is) s = (let (s', stop) = f i s in if stop then s' else for_break f is s')"

lemma for_break_induct:
  assumes "P s" and "\<And>i s. i \<in> set is \<Longrightarrow> P s \<Longrightarrow> P (fst (f i s))"
  shows "P (for_break f is s)"
  using assms
proof (induction "is" arbitrary: s)
  case (Cons i "is")
  then have "P (fst (f i s))" by simp
  with Cons show ?case by (simp add: Let_def split_def)
qed simp

text \<open>\<open>for (x = a; x <= max; x++)\<close> on a w-bit counter. With \<open>max\<close> the largest word the
  condition never fails; such a loop is the value \<open>None\<close>.\<close>

partial_function (option) word_for ::
  "('a::len word \<Rightarrow> 's \<Rightarrow> 's) \<Rightarrow> 'a word \<Rightarrow> 'a word \<Rightarrow> 's \<Rightarrow> 's option" where
  "word_for f x mx s = (if x \<le> mx then word_for f (x + 1) mx (f x s) else Some s)"

lemma word_for_diverges:
  fixes f :: "'a::len word \<Rightarrow> 'b \<Rightarrow> 'b"
  assumes "word_for f x mx s = Some r"
  shows "mx \<noteq> - 1"
proof -
  have step: "mx \<noteq> - 1"
    if ih: "\<And>f x mx s y. wf f x mx s = Some y \<Longrightarrow> mx \<noteq> - 1"
      and it: "(if x \<le> mx then wf f (x + 1) mx (f x s) else Some s) = Some y"
    for wf :: "('a word \<Rightarrow> 'b \<Rightarrow> 'b) \<Rightarrow> 'a word \<Rightarrow> 'a word \<Rightarrow> 'b \<Rightarrow> 'b option" and f x mx s y
    using it ih [of f "x + 1" mx "f x s"] by (cases "x \<le> mx") auto
  show ?thesis
    by (rule word_for.raw_induct
        [where P = "\<lambda>f x mx s r. mx \<noteq> - 1" and xa = "(((f, x), mx), s)" and y = r,
          unfolded prod.case, OF step assms])
qed

definition word_range :: "'a::len word \<Rightarrow> 'a word \<Rightarrow> 'a word list" where
  "word_range x mx = map of_nat [unat x..<Suc (unat mx)]"

lemma word_for_fold:
  assumes "mx \<noteq> - 1"
  shows "word_for f x mx s = Some (fold f (word_range x mx) s)"
proof (induction "Suc (unat mx) - unat x" arbitrary: x s)
  case 0
  then have "\<not> x \<le> mx" by (simp add: word_le_nat_alt)
  with 0 show ?case by (simp add: word_for.simps [of f x mx s] word_range_def)
next
  case (Suc k)
  then have le: "unat x \<le> unat mx" by simp
  have "unat mx < 2 ^ LENGTH('a) - 1"
  proof -
    have "unat mx \<noteq> 2 ^ LENGTH('a) - 1"
      using assms by (simp add: word_unat_eq_iff unsigned_minus_1_eq_mask mask_eq_exp_minus_1)
    then show ?thesis using unsigned_less [of mx, where ?'a = nat] by linarith
  qed
  with le have x1: "unat (x + 1) = Suc (unat x)"
    by (simp add: unat_plus_if')
  have "word_for f (x + 1) mx (f x s) = Some (fold f (word_range (x + 1) mx) (f x s))"
    using Suc.hyps(2) x1 by (intro Suc.hyps(1)) simp
  moreover have "word_range x mx = x # word_range (x + 1) mx"
    using le x1 by (simp add: word_range_def upt_conv_Cons del: upt_Suc)
  ultimately show ?case
    using le by (simp add: word_for.simps [of f x mx s] word_le_nat_alt)
qed

lemma word_for_None_iff: "word_for f x mx s = None \<longleftrightarrow> mx = - 1"
  using word_for_fold [of mx f x s] word_for_diverges [of f x mx s]
  by (cases "word_for f x mx s") auto

lemma word_for_forever [simp]: "word_for f x (- 1) s = None"
  by (simp add: word_for_None_iff)

lemma set_word_range:
  fixes x mx :: "'a::len word"
  shows "set (word_range x mx) = {y. x \<le> y \<and> y \<le> mx}"
proof -
  have "of_nat ` {unat x..<Suc (unat mx)} = {y :: 'a word. x \<le> y \<and> y \<le> mx}"
  proof (intro set_eqI iffI)
    fix y :: "'a word" assume "y \<in> of_nat ` {unat x..<Suc (unat mx)}"
    then obtain n where n: "y = of_nat n" "unat x \<le> n" "n \<le> unat mx" by auto
    then have "unat y = n"
      using le_less_trans [OF _ unsigned_less [of mx, where ?'a = nat]] by (simp add: unat_of_nat)
    with n show "y \<in> {y. x \<le> y \<and> y \<le> mx}" by (simp add: word_le_nat_alt)
  next
    fix y :: "'a word" assume "y \<in> {y. x \<le> y \<and> y \<le> mx}"
    then show "y \<in> of_nat ` {unat x..<Suc (unat mx)}"
      by (intro image_eqI [where x = "unat y"]) (auto simp: word_le_nat_alt)
  qed
  then show ?thesis by (simp add: word_range_def del: upt_Suc)
qed

section \<open>The first entry that matches\<close>

fun first_index :: "('e \<Rightarrow> bool) \<Rightarrow> 'e list \<Rightarrow> nat option" where
  "first_index p [] = None"
| "first_index p (e # es) = (if p e then Some 0 else map_option Suc (first_index p es))"

lemma first_index_None: "first_index p es = None \<longleftrightarrow> (\<forall>e\<in>set es. \<not> p e)"
  by (induction es) auto

lemma first_index_Some:
  "first_index p es = Some i \<Longrightarrow> i < length es \<and> p (es ! i) \<and> (\<forall>j<i. \<not> p (es ! j))"
proof (induction es arbitrary: i)
  case (Cons e es)
  show ?case
  proof (cases "p e")
    case False
    with Cons.prems obtain k where "first_index p es = Some k" "i = Suc k" by auto
    with Cons.IH [of k] False show ?thesis by (auto simp: less_Suc_eq_0_disj)
  qed (use Cons.prems in auto)
qed simp

lemma first_index_append:
  "first_index p (xs @ ys) = (case first_index p xs of Some i \<Rightarrow> Some i
     | None \<Rightarrow> map_option (\<lambda>i. i + length xs) (first_index p ys))"
  by (induction xs) (auto split: option.splits simp: option.map_comp comp_def option.map_ident)

lemma first_index_map:
  assumes "\<And>e. p (f e) = p e"
  shows "first_index p (map f es) = first_index p es"
  by (induction es) (simp_all add: assms)

lemma first_index_update:
  assumes "\<And>e. p (f e) = p e"
  shows "first_index p (es[i := f (es ! i)]) = first_index p es"
proof (induction es arbitrary: i)
  case (Cons e es)
  then show ?case by (cases i) (simp_all add: assms)
qed simp

end
