(* ===== verification/RobRing.thy ===== *)
theory RobRing
  imports Prelude
begin

text \<open>
  The interface the reorder-buffer rings of \<open>performance/rob/robdistributor.c\<close> share. The
  v7.1 bank, the v7.2 main buffer and the v7.2 extended bank are three different structs
  with the same discipline: an entry is written at \<open>Tail\<close>, marked retired in place, and
  the loop at the end of a retirement frees the retired entries at \<open>Head\<close>. The locale
  \<open>retire_ring\<close> names the operations and the laws they obey; inside it every ring is shown
  to be a queue that leaves in order, whatever order its entries retire in. The component
  theories interpret it on their own definitions.
\<close>

datatype rob_state = ROB_ENTRY_FREE | ROB_ENTRY_ALLOCATED | ROB_ENTRY_RETIRED

section \<open>The abstract view of a ring\<close>

definition ring_view :: "nat \<Rightarrow> nat \<Rightarrow> nat \<Rightarrow> (nat \<Rightarrow> 'e) \<Rightarrow> 'e list" where
  "ring_view cap h n slots = map (\<lambda>k. slots ((h + k) mod cap)) [0..<n]"

definition in_window :: "nat \<Rightarrow> nat \<Rightarrow> nat \<Rightarrow> nat \<Rightarrow> bool" where
  "in_window cap h n i \<longleftrightarrow> (\<exists>k<n. i = (h + k) mod cap)"

definition ring_idx :: "nat \<Rightarrow> nat \<Rightarrow> nat \<Rightarrow> nat \<Rightarrow> bool" where
  "ring_idx cap h t n \<longleftrightarrow> h < cap \<and> n \<le> cap \<and> t = (h + n) mod cap"

lemma length_ring_view [simp]: "length (ring_view cap h n s) = n"
  by (simp add: ring_view_def)

lemma ring_view_nth: "k < n \<Longrightarrow> ring_view cap h n s ! k = s ((h + k) mod cap)"
  by (simp add: ring_view_def)

lemma ring_view_0 [simp]: "ring_view cap h 0 s = []"
  by (simp add: ring_view_def)

lemma set_ring_view: "set (ring_view cap h n s) = {s i |i. in_window cap h n i}"
proof (intro set_eqI iffI)
  fix x assume "x \<in> set (ring_view cap h n s)"
  then obtain k where k: "k < n" "x = s ((h + k) mod cap)" by (auto simp: ring_view_def)
  then have "in_window cap h n ((h + k) mod cap)" by (auto simp: in_window_def)
  with k show "x \<in> {s i |i. in_window cap h n i}" by blast
next
  fix x assume "x \<in> {s i |i. in_window cap h n i}"
  then show "x \<in> set (ring_view cap h n s)" by (auto simp: ring_view_def in_window_def)
qed

lemma ring_view_Suc:
  "ring_view cap h (Suc n) s = ring_view cap h n s @ [s ((h + n) mod cap)]"
  by (simp add: ring_view_def)

lemma ring_view_Cons:
  assumes "h < cap"
  shows "ring_view cap h (Suc n) s = s h # ring_view cap ((h + 1) mod cap) n s"
proof (rule nth_equalityI)
  show "length (ring_view cap h (Suc n) s) = length (s h # ring_view cap ((h + 1) mod cap) n s)"
    by simp
  fix i assume "i < length (ring_view cap h (Suc n) s)"
  then have i: "i < Suc n" by simp
  show "ring_view cap h (Suc n) s ! i = (s h # ring_view cap ((h + 1) mod cap) n s) ! i"
  proof (cases i)
    case 0
    with assms show ?thesis by (simp add: ring_view_nth)
  next
    case (Suc j)
    with i have "j < n" by simp
    then show ?thesis
      using Suc i mod_window_shift [of h cap j] by (simp add: ring_view_nth)
  qed
qed

lemma ring_view_upd:
  assumes "k < n" and "n \<le> cap"
  shows "ring_view cap h n (s((h + k) mod cap := e)) = (ring_view cap h n s)[k := e]"
proof (rule nth_equalityI)
  fix j assume "j < length (ring_view cap h n (s((h + k) mod cap := e)))"
  then have j: "j < n" by simp
  have "(h + j) mod cap = (h + k) mod cap \<longleftrightarrow> j = k"
    using mod_add_window_inj [of h j cap k] j assms by auto
  with j show "ring_view cap h n (s((h + k) mod cap := e)) ! j = (ring_view cap h n s)[k := e] ! j"
    by (auto simp: ring_view_nth nth_list_update)
qed simp

lemma ring_view_upd_out:
  assumes "\<not> in_window cap h n i"
  shows "ring_view cap h n (s(i := e)) = ring_view cap h n s"
  using assms by (auto simp: ring_view_def in_window_def)

lemma in_window_lt: "in_window cap h n i \<Longrightarrow> 0 < cap \<Longrightarrow> i < cap"
  by (auto simp: in_window_def)

lemma in_window_Suc:
  "in_window cap h (Suc n) i \<longleftrightarrow> in_window cap h n i \<or> i = (h + n) mod cap"
  by (auto simp: in_window_def less_Suc_eq)

lemma tail_not_in_window:
  assumes "n < cap"
  shows "\<not> in_window cap h n ((h + n) mod cap)"
  using mod_add_window_inj [of h n cap] assms by (fastforce simp: in_window_def)

lemma in_window_pop:
  assumes "h < cap"
  shows "in_window cap h (Suc n) i \<longleftrightarrow> i = h \<or> in_window cap ((h + 1) mod cap) n i"
proof -
  have "in_window cap h (Suc n) i \<longleftrightarrow> i = h mod cap \<or> (\<exists>k<n. i = (h + Suc k) mod cap)"
    unfolding in_window_def by (metis add_0_right gr0_implies_Suc less_Suc_eq_0_disj)
  then show ?thesis
    using assms by (simp add: in_window_def mod_add_left_eq)
qed

lemma head_not_in_rest:
  assumes "h < cap" "n < cap"
  shows "\<not> in_window cap ((h + 1) mod cap) n h"
proof
  assume "in_window cap ((h + 1) mod cap) n h"
  then obtain k where k: "k < n" "h = (h + Suc k) mod cap"
    by (auto simp: in_window_def mod_add_left_eq)
  then show False
    using mod_add_window_inj [of h "Suc k" cap 0] assms by auto
qed

section \<open>The interface\<close>

locale retire_ring =
  fixes cap :: nat
    and rhead :: "'r \<Rightarrow> nat" and rtail :: "'r \<Rightarrow> nat" and rcount :: "'r \<Rightarrow> nat"
    and rslot :: "'r \<Rightarrow> nat \<Rightarrow> 'e"
    and est :: "'e \<Rightarrow> rob_state"
    and push :: "'e \<Rightarrow> 'r \<Rightarrow> 'r"
    and mark :: "'t \<Rightarrow> nat \<Rightarrow> 'r \<Rightarrow> 'r"
    and mk :: "'t \<Rightarrow> 'e \<Rightarrow> 'e"
    and clr :: "'e \<Rightarrow> 'e"
    and pop :: "'r \<Rightarrow> 'r"
    and drain :: "'r \<Rightarrow> 'r"
  assumes cap_pos: "0 < cap"
    and push_head: "rhead (push e r) = rhead r"
    and push_tail: "rtail (push e r) = (rtail r + 1) mod cap"
    and push_count: "rcount (push e r) = Suc (rcount r)"
    and push_slot: "rslot (push e r) = (rslot r)(rtail r := e)"
    and mark_head: "rhead (mark t i r) = rhead r"
    and mark_tail: "rtail (mark t i r) = rtail r"
    and mark_count: "rcount (mark t i r) = rcount r"
    and mark_slot: "rslot (mark t i r) = (rslot r)(i := mk t (rslot r i))"
    and mk_state: "est (mk t e) = ROB_ENTRY_RETIRED"
    and pop_head: "rhead (pop r) = (rhead r + 1) mod cap"
    and pop_tail: "rtail (pop r) = rtail r"
    and pop_count: "rcount (pop r) = rcount r - 1"
    and pop_slot: "rslot (pop r) = (rslot r)(rhead r := clr (rslot r (rhead r)))"
    and clr_state: "est (clr e) = ROB_ENTRY_FREE"
    and drain_unfold: "drain r =
      (if 0 < rcount r \<and> est (rslot r (rhead r)) = ROB_ENTRY_RETIRED then drain (pop r) else r)"
begin

lemmas ring_laws = push_head push_tail push_count push_slot mark_head mark_tail mark_count
  mark_slot pop_head pop_tail pop_count pop_slot

definition idx_ok :: "'r \<Rightarrow> bool" where
  "idx_ok r \<longleftrightarrow> ring_idx cap (rhead r) (rtail r) (rcount r)"

definition view :: "'r \<Rightarrow> 'e list" where
  "view r = ring_view cap (rhead r) (rcount r) (rslot r)"

definition live :: "'r \<Rightarrow> nat \<Rightarrow> bool" where
  "live r i \<longleftrightarrow> in_window cap (rhead r) (rcount r) i"

text \<open>Slots outside the window are free: what a new entry overwrites is never live.\<close>

definition clean :: "'r \<Rightarrow> bool" where
  "clean r \<longleftrightarrow> (\<forall>i<cap. \<not> live r i \<longrightarrow> est (rslot r i) = ROB_ENTRY_FREE)"

text \<open>Slots inside the window are taken.\<close>

definition busy :: "'r \<Rightarrow> bool" where
  "busy r \<longleftrightarrow> (\<forall>e\<in>set (view r). est e \<noteq> ROB_ENTRY_FREE)"

definition pending :: "'r \<Rightarrow> nat" where
  "pending r = length (filter (\<lambda>e. est e = ROB_ENTRY_ALLOCATED) (view r))"

lemma length_view [simp]: "length (view r) = rcount r"
  by (simp add: view_def)

lemma drain_induct [case_names pop stop]:
  assumes "\<And>r. 0 < rcount r \<Longrightarrow> est (rslot r (rhead r)) = ROB_ENTRY_RETIRED \<Longrightarrow>
      P (pop r) \<Longrightarrow> P r"
    and "\<And>r. \<not> (0 < rcount r \<and> est (rslot r (rhead r)) = ROB_ENTRY_RETIRED) \<Longrightarrow> P r"
  shows "P r"
proof (induction "rcount r" arbitrary: r rule: less_induct)
  case less
  show ?case
  proof (cases "0 < rcount r \<and> est (rslot r (rhead r)) = ROB_ENTRY_RETIRED")
    case True
    then have "rcount (pop r) < rcount r" by (simp add: pop_count)
    with less have "P (pop r)" by blast
    with True show ?thesis using assms(1) by blast
  next
    case False
    then show ?thesis using assms(2) by blast
  qed
qed

lemma drain_pop:
  "0 < rcount r \<Longrightarrow> est (rslot r (rhead r)) = ROB_ENTRY_RETIRED \<Longrightarrow> drain r = drain (pop r)"
  using drain_unfold [of r] by simp

lemma drain_stop:
  "\<not> (0 < rcount r \<and> est (rslot r (rhead r)) = ROB_ENTRY_RETIRED) \<Longrightarrow> drain r = r"
  by (subst drain_unfold) (simp only: if_False)

text \<open>Index bounds: every slot the operations touch is inside the array.\<close>

lemma idx_bounds: "idx_ok r \<Longrightarrow> rhead r < cap \<and> rtail r < cap \<and> rcount r \<le> cap"
  using cap_pos by (auto simp: idx_ok_def ring_idx_def)

lemma idx_push: "idx_ok r \<Longrightarrow> rcount r < cap \<Longrightarrow> idx_ok (push e r)"
  by (auto simp: idx_ok_def ring_idx_def ring_laws mod_Suc_eq)

lemma idx_mark: "idx_ok r \<Longrightarrow> idx_ok (mark t i r)"
  by (simp add: idx_ok_def ring_laws)

lemma idx_pop:
  assumes "idx_ok r" "0 < rcount r"
  shows "idx_ok (pop r)"
proof -
  obtain n where n: "rcount r = Suc n" using assms(2) gr0_implies_Suc by blast
  have "((rhead r + 1) mod cap + n) mod cap = (rhead r + Suc n) mod cap"
    by (rule mod_window_shift)
  with assms n cap_pos show ?thesis
    by (auto simp: idx_ok_def ring_idx_def ring_laws)
qed

lemma idx_drain: "idx_ok r \<Longrightarrow> idx_ok (drain r)"
proof (induction r rule: drain_induct)
  case (pop r)
  then show ?case by (simp add: idx_pop drain_pop)
next
  case (stop r)
  then show ?case by (simp add: drain_stop)
qed

lemma drain_tail: "rtail (drain r) = rtail r"
proof (induction r rule: drain_induct)
  case (pop r)
  then show ?case by (simp add: pop_tail drain_pop)
next
  case (stop r)
  then show ?case by (simp add: drain_stop)
qed

lemma drain_count_le: "rcount (drain r) \<le> rcount r"
proof (induction r rule: drain_induct)
  case (pop r)
  then show ?case by (simp add: pop_count drain_pop)
next
  case (stop r)
  then show ?case by (simp add: drain_stop)
qed

text \<open>The view: push appends, mark updates in place, drain drops the retired prefix.\<close>

lemma view_push:
  assumes "idx_ok r" "rcount r < cap"
  shows "view (push e r) = view r @ [e]"
proof -
  have t: "rtail r = (rhead r + rcount r) mod cap" using assms(1) by (simp add: idx_ok_def ring_idx_def)
  have "\<not> in_window cap (rhead r) (rcount r) (rtail r)"
    using tail_not_in_window [OF assms(2)] t by simp
  then show ?thesis
    by (simp add: view_def ring_laws ring_view_Suc ring_view_upd_out t)
qed

lemma view_mark:
  assumes "idx_ok r" "k < rcount r"
  shows "view (mark t ((rhead r + k) mod cap) r) = (view r)[k := mk t (view r ! k)]"
  using assms by (simp add: view_def ring_laws ring_view_upd ring_view_nth idx_ok_def ring_idx_def)

lemma view_pop:
  assumes "idx_ok r" "0 < rcount r"
  shows "view (pop r) = tl (view r)"
proof -
  obtain n where n: "rcount r = Suc n" using assms(2) gr0_implies_Suc by blast
  have h: "rhead r < cap" and le: "n < cap" using assms n by (auto simp: idx_ok_def ring_idx_def)
  show ?thesis
    using h n ring_view_upd_out [OF head_not_in_rest [OF h le]]
    by (simp add: view_def ring_laws ring_view_Cons)
qed

lemma view_head: "idx_ok r \<Longrightarrow> 0 < rcount r \<Longrightarrow> view r = rslot r (rhead r) # tl (view r)"
  by (cases "rcount r") (auto simp: view_def ring_view_Cons idx_ok_def ring_idx_def)

lemma view_drain:
  assumes "idx_ok r"
  shows "view (drain r) = dropWhile (\<lambda>e. est e = ROB_ENTRY_RETIRED) (view r)"
  using assms
proof (induction r rule: drain_induct)
  case (pop r)
  have v: "view r = rslot r (rhead r) # view (pop r)"
    using view_head [OF pop.prems pop.hyps(1)] view_pop [OF pop.prems pop.hyps(1)] by simp
  have "drain r = drain (pop r)" using pop.hyps by (rule drain_pop)
  with pop.IH [OF idx_pop [OF pop.prems pop.hyps(1)]] pop.hyps(2) v show ?case by simp
next
  case (stop r)
  have d: "drain r = r" using stop.hyps by (rule drain_stop)
  show ?case
  proof (cases "rcount r = 0")
    case True
    then have "view r = []" using length_view [of r] by (metis length_0_conv)
    with d show ?thesis by simp
  next
    case False
    then have "view r = rslot r (rhead r) # tl (view r)" using view_head stop.prems by simp
    with stop.hyps False d show ?thesis by (metis (mono_tags, lifting) dropWhile.simps(2) neq0_conv)
  qed
qed

lemma drain_head:
  assumes "idx_ok r"
  shows "view (drain r) = [] \<or> est (hd (view (drain r))) \<noteq> ROB_ENTRY_RETIRED"
  using view_drain [OF assms] hd_dropWhile [of _ "view r"]
  by (metis (mono_tags, lifting))

text \<open>Outside the window everything stays free, inside nothing is.\<close>

lemma clean_push:
  assumes "clean r" "idx_ok r"
  shows "clean (push e r)"
  using assms by (auto simp: clean_def live_def ring_laws in_window_Suc idx_ok_def ring_idx_def)

lemma clean_mark: "clean r \<Longrightarrow> live r i \<Longrightarrow> clean (mark t i r)"
  by (auto simp: clean_def live_def ring_laws)

lemma clean_pop:
  assumes "clean r" "idx_ok r" "0 < rcount r"
  shows "clean (pop r)"
proof -
  obtain n where n: "rcount r = Suc n" using assms(3) gr0_implies_Suc by blast
  have h: "rhead r < cap" using assms by (auto simp: idx_ok_def ring_idx_def)
  show ?thesis
    using assms(1) n in_window_pop [OF h, of n]
    by (auto simp: clean_def live_def ring_laws clr_state)
qed

lemma clean_drain:
  assumes "clean r" "idx_ok r"
  shows "clean (drain r)"
  using assms
proof (induction r rule: drain_induct)
  case (pop r)
  then show ?case by (simp add: clean_pop idx_pop drain_pop)
next
  case (stop r)
  then show ?case by (simp add: drain_stop)
qed

lemma busy_push: "busy r \<Longrightarrow> idx_ok r \<Longrightarrow> rcount r < cap \<Longrightarrow> est e \<noteq> ROB_ENTRY_FREE \<Longrightarrow> busy (push e r)"
  by (simp add: busy_def view_push)

lemma live_offset: "live r i \<Longrightarrow> \<exists>k<rcount r. i = (rhead r + k) mod cap"
  by (simp add: live_def in_window_def)

lemma busy_mark:
  assumes "busy r" "idx_ok r" "live r i"
  shows "busy (mark t i r)"
proof -
  obtain k where k: "k < rcount r" "i = (rhead r + k) mod cap" using live_offset assms(3) by blast
  have "set (view (mark t i r)) \<subseteq> insert (mk t (view r ! k)) (set (view r))"
    using view_mark [OF assms(2) k(1)] k(2) set_update_subset_insert by metis
  with assms(1) show ?thesis by (auto simp: busy_def mk_state)
qed

lemma busy_drain: "busy r \<Longrightarrow> idx_ok r \<Longrightarrow> busy (drain r)"
  by (auto simp: busy_def view_drain dest: set_dropWhileD)

text \<open>A live slot is one whose entry is not free.\<close>

lemma live_iff:
  assumes "clean r" "busy r" "i < cap"
  shows "live r i \<longleftrightarrow> est (rslot r i) \<noteq> ROB_ENTRY_FREE"
  using assms by (auto simp: clean_def busy_def live_def view_def set_ring_view)

text \<open>The tail is free as long as there is room.\<close>

lemma tail_free:
  assumes "idx_ok r" "rcount r < cap"
  shows "\<not> live r (rtail r)"
  using assms tail_not_in_window [OF assms(2)] by (simp add: live_def idx_ok_def ring_idx_def)

text \<open>The drain never makes an entry allocated.\<close>

lemma drain_slot_state:
  "est (rslot (drain r) i) = est (rslot r i) \<or> est (rslot (drain r) i) = ROB_ENTRY_FREE"
proof (induction r rule: drain_induct)
  case (pop r)
  then show ?case by (auto simp: drain_pop pop_slot clr_state split: if_splits)
next
  case (stop r)
  then show ?case by (simp add: drain_stop)
qed

lemma retired_not_allocated: "est (rslot (drain (mark t i r)) i) \<noteq> ROB_ENTRY_ALLOCATED"
  using drain_slot_state [of "mark t i r" i] by (auto simp: mark_slot mk_state)

text \<open>How many entries are allocated and not yet retired.\<close>

lemma pending_push:
  "idx_ok r \<Longrightarrow> rcount r < cap \<Longrightarrow> est e = ROB_ENTRY_ALLOCATED \<Longrightarrow> pending (push e r) = Suc (pending r)"
  by (simp add: pending_def view_push)

lemma filter_length_update:
  assumes "k < length xs" "P (xs ! k)" "\<not> P y"
  shows "Suc (length (filter P (xs[k := y]))) = length (filter P xs)"
  using assms by (induction xs arbitrary: k) (auto split: nat.splits)

lemma pending_mark:
  assumes "idx_ok r" "live r i" "est (rslot r i) = ROB_ENTRY_ALLOCATED"
  shows "Suc (pending (mark t i r)) = pending r"
proof -
  obtain k where k: "k < rcount r" "i = (rhead r + k) mod cap" using live_offset assms(2) by blast
  have "est (view r ! k) = ROB_ENTRY_ALLOCATED"
    using assms(3) k by (simp add: view_def ring_view_nth)
  then show ?thesis
    unfolding pending_def k(2) view_mark [OF assms(1) k(1)]
    by (intro filter_length_update) (auto simp: k mk_state)
qed

lemma filter_dropWhile_disjoint:
  "(\<And>x. Q x \<Longrightarrow> \<not> P x) \<Longrightarrow> filter P (dropWhile Q xs) = filter P xs"
  by (induction xs) auto

lemma pending_drain: "idx_ok r \<Longrightarrow> pending (drain r) = pending r"
  unfolding pending_def view_drain by (subst filter_dropWhile_disjoint) auto

lemma pending_le: "pending r \<le> rcount r"
  using length_filter_le [of _ "view r"] by (simp add: pending_def)

end

end
