(* ===== verification/RobDistributor.thy ===== *)
theory RobDistributor
  imports RobRing
begin

text \<open>
  The v7.1 reorder-buffer distributor of \<open>performance/rob/robdistributor.c\<close>: seven banks
  of 112 entries, filled round-robin, retired in any order and freed in order. \<open>gRob\<close> is
  \<open>None\<close> while the pointer is NULL. Bank and slot numbers are \<open>nat\<close> (the invariant bounds
  them by 7 and 112, so the 32-bit fields never wrap); the statistics counters are 64-bit
  words. The C arrays are functions from the index; the invariant shows that every index
  used is inside its array.
\<close>

section \<open>State\<close>

definition ROB_BANKS :: nat where "ROB_BANKS = 7"
definition ROB_ENTRIES_PER_BANK :: nat where "ROB_ENTRIES_PER_BANK = 112"
definition ROB_TOTAL_ENTRIES :: nat where "ROB_TOTAL_ENTRIES = ROB_BANKS * ROB_ENTRIES_PER_BANK"

record rob_entry =
  re_Rip :: u64
  re_MicroOpStart :: u64
  re_MicroOpCount :: u32
  re_State :: rob_state
  re_AllocTick :: u64
  re_RetireTick :: u64
  re_BankId :: nat
  re_SlotInBank :: nat

record rob_bank =
  rb_Head :: nat
  rb_Tail :: nat
  rb_Count :: nat
  rb_MaxCount :: nat
  rb_Slots :: "nat \<Rightarrow> rob_entry"

record rob_distributor =
  rd_Banks :: "nat \<Rightarrow> rob_bank"
  rd_NextAllocBank :: nat
  rd_TotalAllocations :: u64
  rd_TotalRetirements :: u64
  rd_TotalStalls :: u64
  rd_CycleCounter :: u64

definition zero_rob_entry :: rob_entry where
  "zero_rob_entry = \<lparr>re_Rip = 0, re_MicroOpStart = 0, re_MicroOpCount = 0,
     re_State = ROB_ENTRY_FREE, re_AllocTick = 0, re_RetireTick = 0, re_BankId = 0,
     re_SlotInBank = 0\<rparr>"

definition zero_rob_bank :: rob_bank where
  "zero_rob_bank = \<lparr>rb_Head = 0, rb_Tail = 0, rb_Count = 0, rb_MaxCount = 0,
     rb_Slots = (\<lambda>_. zero_rob_entry)\<rparr>"

definition init_rob :: rob_distributor where
  "init_rob = \<lparr>rd_Banks = (\<lambda>_. zero_rob_bank), rd_NextAllocBank = 0, rd_TotalAllocations = 0,
     rd_TotalRetirements = 0, rd_TotalStalls = 0, rd_CycleCounter = 0\<rparr>"

section \<open>Operations\<close>

text \<open>\<open>pool_ok\<close> says whether \<open>AllocateZeroPool\<close> returned memory.\<close>

definition RobDistributorInit :: "bool \<Rightarrow> efi_status \<times> rob_distributor option" where
  "RobDistributorInit pool_ok =
     (if \<not> pool_ok then (EFI_OUT_OF_RESOURCES, None) else (EFI_SUCCESS, Some init_rob))"

text \<open>The write of the new entry into the chosen bank.\<close>

definition rob_bank_push :: "rob_entry \<Rightarrow> rob_bank \<Rightarrow> rob_bank" where
  "rob_bank_push e bp =
     (let n = rb_Count bp + 1 in
      bp\<lparr>rb_Slots := (rb_Slots bp)(rb_Tail bp := e),
         rb_Tail := (rb_Tail bp + 1) mod ROB_ENTRIES_PER_BANK,
         rb_Count := n,
         rb_MaxCount := (if n > rb_MaxCount bp then n else rb_MaxCount bp)\<rparr>)"

definition RobAllocateEntry ::
  "rob_distributor option \<Rightarrow> u64 \<Rightarrow> u64 \<Rightarrow> u32 \<Rightarrow>
     efi_status \<times> (nat \<times> nat) option \<times> rob_distributor option" where
  "RobAllocateEntry gRob Rip MicroOpStart MicroOpCount =
     (case gRob of
        None \<Rightarrow> (EFI_NOT_READY, None, None)
      | Some d \<Rightarrow>
          (case rr_scan ROB_BANKS (\<lambda>b. rb_Count (rd_Banks d b) < ROB_ENTRIES_PER_BANK)
                  (rd_NextAllocBank d) (rd_NextAllocBank d) ROB_BANKS of
             None \<Rightarrow>
               (EFI_OUT_OF_RESOURCES, None,
                Some (d\<lparr>rd_TotalStalls := rd_TotalStalls d + 1\<rparr>))
           | Some b \<Rightarrow>
               (let bp = rd_Banks d b;
                    slot = rb_Tail bp;
                    entry = \<lparr>re_Rip = Rip, re_MicroOpStart = MicroOpStart,
                             re_MicroOpCount = MicroOpCount, re_State = ROB_ENTRY_ALLOCATED,
                             re_AllocTick = rd_CycleCounter d, re_RetireTick = 0,
                             re_BankId = b, re_SlotInBank = slot\<rparr>
                in (EFI_SUCCESS, Some (b, slot),
                    Some (d\<lparr>rd_NextAllocBank := (b + 1) mod ROB_BANKS,
                            rd_Banks := (rd_Banks d)(b := rob_bank_push entry bp),
                            rd_TotalAllocations := rd_TotalAllocations d + 1\<rparr>)))))"

text \<open>One turn of the loop that frees retired entries at the head, and the loop.\<close>

definition rob_bank_pop :: "rob_bank \<Rightarrow> rob_bank" where
  "rob_bank_pop bp =
     bp\<lparr>rb_Slots := (rb_Slots bp)(rb_Head bp :=
            (rb_Slots bp (rb_Head bp))\<lparr>re_State := ROB_ENTRY_FREE\<rparr>),
        rb_Head := (rb_Head bp + 1) mod ROB_ENTRIES_PER_BANK,
        rb_Count := rb_Count bp - 1\<rparr>"

function rob_bank_drain :: "rob_bank \<Rightarrow> rob_bank" where
  "rob_bank_drain bp =
     (if 0 < rb_Count bp \<and> re_State (rb_Slots bp (rb_Head bp)) = ROB_ENTRY_RETIRED
      then rob_bank_drain (rob_bank_pop bp) else bp)"
  by pat_completeness auto
termination
  by (relation "measure rb_Count") (auto simp: rob_bank_pop_def)

declare rob_bank_drain.simps [simp del]

definition rob_retire_entry :: "u64 \<Rightarrow> rob_entry \<Rightarrow> rob_entry" where
  "rob_retire_entry tick e = e\<lparr>re_State := ROB_ENTRY_RETIRED, re_RetireTick := tick\<rparr>"

definition rob_bank_mark :: "u64 \<Rightarrow> nat \<Rightarrow> rob_bank \<Rightarrow> rob_bank" where
  "rob_bank_mark tick slot bp =
     bp\<lparr>rb_Slots := (rb_Slots bp)(slot := rob_retire_entry tick (rb_Slots bp slot))\<rparr>"

definition RobRetireEntry ::
  "rob_distributor option \<Rightarrow> nat \<Rightarrow> nat \<Rightarrow> efi_status \<times> rob_distributor option" where
  "RobRetireEntry gRob bank slot =
     (case gRob of
        None \<Rightarrow> (EFI_NOT_READY, None)
      | Some d \<Rightarrow>
          if bank \<ge> ROB_BANKS \<or> slot \<ge> ROB_ENTRIES_PER_BANK then (EFI_INVALID_PARAMETER, Some d)
          else
            (let bp = rd_Banks d bank in
             if re_State (rb_Slots bp slot) \<noteq> ROB_ENTRY_ALLOCATED then (EFI_NOT_READY, Some d)
             else
               (EFI_SUCCESS,
                Some (d\<lparr>rd_Banks := (rd_Banks d)(bank :=
                          rob_bank_drain (rob_bank_mark (rd_CycleCounter d) slot bp)),
                        rd_TotalRetirements := rd_TotalRetirements d + 1\<rparr>))))"

definition RobTick :: "rob_distributor option \<Rightarrow> rob_distributor option" where
  "RobTick gRob =
     (case gRob of None \<Rightarrow> None
      | Some d \<Rightarrow> Some (d\<lparr>rd_CycleCounter := rd_CycleCounter d + 1\<rparr>))"

definition RobGetTotalEntries :: nat where
  "RobGetTotalEntries = ROB_TOTAL_ENTRIES"

definition RobGetTotalEntriesV71 :: nat where
  "RobGetTotalEntriesV71 = ROB_TOTAL_ENTRIES"

definition RobGetActiveCount :: "rob_distributor option \<Rightarrow> nat" where
  "RobGetActiveCount gRob =
     (case gRob of None \<Rightarrow> 0
      | Some d \<Rightarrow> fold (\<lambda>b total. total + rb_Count (rd_Banks d b)) [0..<ROB_BANKS] 0)"

section \<open>The bank is an in-order ring\<close>

interpretation bank: retire_ring ROB_ENTRIES_PER_BANK rb_Head rb_Tail rb_Count rb_Slots re_State
  rob_bank_push rob_bank_mark rob_retire_entry "\<lambda>e. e\<lparr>re_State := ROB_ENTRY_FREE\<rparr>"
  rob_bank_pop rob_bank_drain
  by unfold_locales
     (auto simp: ROB_ENTRIES_PER_BANK_def rob_bank_push_def rob_bank_mark_def rob_bank_pop_def
        rob_retire_entry_def Let_def rob_bank_drain.simps)

section \<open>Invariant\<close>

text \<open>The entries of a bank from the oldest to the youngest.\<close>

definition bank_queue :: "rob_bank \<Rightarrow> rob_entry list" where
  "bank_queue bp = ring_view ROB_ENTRIES_PER_BANK (rb_Head bp) (rb_Count bp) (rb_Slots bp)"

lemma bank_queue_view: "bank_queue bp = bank.view bp"
  by (simp add: bank_queue_def bank.view_def)

definition bank_inv :: "rob_bank \<Rightarrow> bool" where
  "bank_inv bp \<longleftrightarrow> ring_idx ROB_ENTRIES_PER_BANK (rb_Head bp) (rb_Tail bp) (rb_Count bp)
     \<and> (\<forall>i<ROB_ENTRIES_PER_BANK. in_window ROB_ENTRIES_PER_BANK (rb_Head bp) (rb_Count bp) i
          \<longleftrightarrow> re_State (rb_Slots bp i) \<noteq> ROB_ENTRY_FREE)
     \<and> rb_Count bp \<le> rb_MaxCount bp \<and> rb_MaxCount bp \<le> ROB_ENTRIES_PER_BANK"

definition bank_pending :: "rob_bank \<Rightarrow> nat" where
  "bank_pending bp = length (filter (\<lambda>e. re_State e = ROB_ENTRY_ALLOCATED) (bank_queue bp))"

lemma bank_pending_eq: "bank_pending bp = bank.pending bp"
  by (simp add: bank_pending_def bank.pending_def bank_queue_view)

lemma bank_inv_iff:
  "bank_inv bp \<longleftrightarrow> bank.idx_ok bp \<and> bank.clean bp \<and> bank.busy bp
     \<and> rb_Count bp \<le> rb_MaxCount bp \<and> rb_MaxCount bp \<le> ROB_ENTRIES_PER_BANK"
  (is "?L \<longleftrightarrow> ?R")
proof
  assume L: ?L
  then have "bank.busy bp"
    using in_window_lt [of ROB_ENTRIES_PER_BANK] bank.cap_pos
    by (auto simp: bank.busy_def bank.view_def set_ring_view bank_inv_def)
  with L show ?R by (auto simp: bank_inv_def bank.idx_ok_def bank.clean_def bank.live_def)
next
  assume R: ?R
  then show ?L
    using bank.live_iff by (auto simp: bank_inv_def bank.idx_ok_def bank.live_def)
qed

definition rob_inv :: "rob_distributor \<Rightarrow> bool" where
  "rob_inv d \<longleftrightarrow> rd_NextAllocBank d < ROB_BANKS \<and> (\<forall>b<ROB_BANKS. bank_inv (rd_Banks d b))"

text \<open>The 64-bit counters agree with the entries: what is allocated and not yet retired is
  what the counters say, up to their wrap-around.\<close>

definition rob_pending :: "rob_distributor \<Rightarrow> nat" where
  "rob_pending d = (\<Sum>b<ROB_BANKS. bank_pending (rd_Banks d b))"

definition rob_accounted :: "rob_distributor \<Rightarrow> bool" where
  "rob_accounted d \<longleftrightarrow> rd_TotalAllocations d =
     rd_TotalRetirements d + of_nat (rob_pending d)"

lemma bank_inv_zero: "bank_inv zero_rob_bank"
  by (simp add: bank_inv_def zero_rob_bank_def zero_rob_entry_def ring_idx_def in_window_def
      ROB_ENTRIES_PER_BANK_def)

lemma bank_push_MaxCount:
  "rb_MaxCount (rob_bank_push e bp) = max (rb_MaxCount bp) (Suc (rb_Count bp))"
  by (simp add: rob_bank_push_def Let_def max_def)

lemma bank_inv_push:
  assumes "bank_inv bp" "rb_Count bp < ROB_ENTRIES_PER_BANK" "re_State e = ROB_ENTRY_ALLOCATED"
  shows "bank_inv (rob_bank_push e bp)"
  using assms
  by (auto simp: bank_inv_iff bank.idx_push bank.clean_push bank.busy_push bank.push_count
      bank_push_MaxCount)

lemma drain_MaxCount: "rb_MaxCount (rob_bank_drain bp) = rb_MaxCount bp"
proof (induction bp rule: bank.drain_induct)
  case (pop bp)
  then show ?case by (simp add: bank.drain_pop rob_bank_pop_def)
next
  case (stop bp)
  then show ?case by (simp add: bank.drain_stop)
qed

lemma mark_MaxCount: "rb_MaxCount (rob_bank_mark t i bp) = rb_MaxCount bp"
  by (simp add: rob_bank_mark_def)

text \<open>An allocated slot is a live one: retiring it keeps the invariant.\<close>

lemma allocated_live:
  assumes "bank_inv bp" "i < ROB_ENTRIES_PER_BANK" "re_State (rb_Slots bp i) = ROB_ENTRY_ALLOCATED"
  shows "bank.live bp i"
  using assms bank.live_iff [of bp i] by (simp add: bank_inv_iff)

lemma bank_inv_retire:
  assumes "bank_inv bp" "i < ROB_ENTRIES_PER_BANK" "re_State (rb_Slots bp i) = ROB_ENTRY_ALLOCATED"
  shows "bank_inv (rob_bank_drain (rob_bank_mark t i bp))"
proof -
  let ?m = "rob_bank_mark t i bp"
  have live: "bank.live bp i" using assms by (rule allocated_live)
  have m: "bank.idx_ok ?m" "bank.clean ?m" "bank.busy ?m"
    using assms(1) live by (auto simp: bank_inv_iff bank.idx_mark bank.clean_mark bank.busy_mark)
  have "rb_Count (rob_bank_drain ?m) \<le> rb_Count bp"
    using bank.drain_count_le [of ?m] by (simp add: bank.mark_count)
  with assms(1) m show ?thesis
    by (auto simp: bank_inv_iff bank.idx_drain bank.clean_drain bank.busy_drain drain_MaxCount
        mark_MaxCount)
qed

lemma RobGetActiveCount_sum:
  "RobGetActiveCount (Some d) = (\<Sum>b<ROB_BANKS. rb_Count (rd_Banks d b))"
proof -
  have "fold (\<lambda>b total. total + f b) [0..<n] a = a + (\<Sum>b<n. f b)" for f :: "nat \<Rightarrow> nat" and n a
    by (induction n) simp_all
  then show ?thesis by (simp add: RobGetActiveCount_def)
qed

section \<open>The operations keep the invariant\<close>

lemma alloc_cases:
  assumes "rd_NextAllocBank d < ROB_BANKS"
  obtains (full) "\<forall>b<ROB_BANKS. \<not> rb_Count (rd_Banks d b) < ROB_ENTRIES_PER_BANK"
      "RobAllocateEntry (Some d) rip mos moc =
         (EFI_OUT_OF_RESOURCES, None, Some (d\<lparr>rd_TotalStalls := rd_TotalStalls d + 1\<rparr>))"
  | (room) b e where "b < ROB_BANKS" "rb_Count (rd_Banks d b) < ROB_ENTRIES_PER_BANK"
      "e = \<lparr>re_Rip = rip, re_MicroOpStart = mos, re_MicroOpCount = moc,
            re_State = ROB_ENTRY_ALLOCATED, re_AllocTick = rd_CycleCounter d, re_RetireTick = 0,
            re_BankId = b, re_SlotInBank = rb_Tail (rd_Banks d b)\<rparr>"
      "RobAllocateEntry (Some d) rip mos moc =
         (EFI_SUCCESS, Some (b, rb_Tail (rd_Banks d b)),
          Some (d\<lparr>rd_NextAllocBank := (b + 1) mod ROB_BANKS,
                  rd_Banks := (rd_Banks d)(b := rob_bank_push e (rd_Banks d b)),
                  rd_TotalAllocations := rd_TotalAllocations d + 1\<rparr>))"
proof (cases "rr_scan ROB_BANKS (\<lambda>b. rb_Count (rd_Banks d b) < ROB_ENTRIES_PER_BANK)
                (rd_NextAllocBank d) (rd_NextAllocBank d) ROB_BANKS")
  case None
  have "\<forall>b<ROB_BANKS. \<not> rb_Count (rd_Banks d b) < ROB_ENTRIES_PER_BANK"
    by (rule rr_scan_None_iff [OF assms, THEN iffD1, OF None])
  then show ?thesis
    by (rule that(1)) (simp add: RobAllocateEntry_def None)
next
  case (Some b)
  have b: "b < ROB_BANKS" "rb_Count (rd_Banks d b) < ROB_ENTRIES_PER_BANK"
    using rr_scan_Some [OF Some assms] by auto
  show ?thesis
    by (rule that(2) [OF b refl]) (simp add: RobAllocateEntry_def Let_def Some)
qed

lemma rob_inv_alloc:
  assumes "rob_inv d" "RobAllocateEntry (Some d) rip mos moc = (st, out, Some d')"
  shows "rob_inv d'"
proof -
  have n: "rd_NextAllocBank d < ROB_BANKS" using assms(1) by (simp add: rob_inv_def)
  show ?thesis
    using n
  proof (cases rule: alloc_cases [where rip = rip and mos = mos and moc = moc])
    case full
    with assms show ?thesis by (auto simp: rob_inv_def)
  next
    case (room b e)
    have "bank_inv (rob_bank_push e (rd_Banks d b))"
      using assms(1) room by (intro bank_inv_push) (auto simp: rob_inv_def)
    with assms room show ?thesis by (auto simp: rob_inv_def ROB_BANKS_def)
  qed
qed

lemma rob_accounted_alloc:
  assumes "rob_inv d" "rob_accounted d" "RobAllocateEntry (Some d) rip mos moc = (st, out, Some d')"
  shows "rob_accounted d'"
proof -
  have n: "rd_NextAllocBank d < ROB_BANKS" using assms(1) by (simp add: rob_inv_def)
  show ?thesis
    using n
  proof (cases rule: alloc_cases [where rip = rip and mos = mos and moc = moc])
    case full
    with assms show ?thesis by (auto simp: rob_accounted_def rob_pending_def)
  next
    case (room b e)
    have "bank.idx_ok (rd_Banks d b)"
      using assms(1) room(1) by (auto simp: rob_inv_def bank_inv_iff)
    then have "bank_pending (rob_bank_push e (rd_Banks d b)) = Suc (bank_pending (rd_Banks d b))"
      using room by (simp add: bank_pending_eq bank.pending_push)
    with sum_fun_upd [OF room(1), of bank_pending "rd_Banks d" "rob_bank_push e (rd_Banks d b)"]
      assms(3) room(4) have "rob_pending d' = Suc (rob_pending d)"
      by (auto simp: rob_pending_def simp del: fun_upd_apply)
    with assms room show ?thesis by (auto simp: rob_accounted_def)
  qed
qed

lemma retire_cases:
  obtains (bad) "ROB_BANKS \<le> bank \<or> ROB_ENTRIES_PER_BANK \<le> slot"
      "RobRetireEntry (Some d) bank slot = (EFI_INVALID_PARAMETER, Some d)"
  | (idle) "bank < ROB_BANKS" "slot < ROB_ENTRIES_PER_BANK"
      "re_State (rb_Slots (rd_Banks d bank) slot) \<noteq> ROB_ENTRY_ALLOCATED"
      "RobRetireEntry (Some d) bank slot = (EFI_NOT_READY, Some d)"
  | (retired) "bank < ROB_BANKS" "slot < ROB_ENTRIES_PER_BANK"
      "re_State (rb_Slots (rd_Banks d bank) slot) = ROB_ENTRY_ALLOCATED"
      "RobRetireEntry (Some d) bank slot = (EFI_SUCCESS,
         Some (d\<lparr>rd_Banks := (rd_Banks d)(bank :=
                   rob_bank_drain (rob_bank_mark (rd_CycleCounter d) slot (rd_Banks d bank))),
                 rd_TotalRetirements := rd_TotalRetirements d + 1\<rparr>))"
proof (cases "ROB_BANKS \<le> bank \<or> ROB_ENTRIES_PER_BANK \<le> slot")
  case True
  then show ?thesis by (intro bad) (auto simp: RobRetireEntry_def)
next
  case False
  show ?thesis
  proof (cases "re_State (rb_Slots (rd_Banks d bank) slot) = ROB_ENTRY_ALLOCATED")
    case True
    with False show ?thesis by (intro retired) (auto simp: RobRetireEntry_def Let_def)
  next
    case alloc: False
    with False show ?thesis by (intro idle) (auto simp: RobRetireEntry_def Let_def)
  qed
qed

lemma rob_inv_retire:
  assumes "rob_inv d" "RobRetireEntry (Some d) bank slot = (st, Some d')"
  shows "rob_inv d'"
proof (cases rule: retire_cases [of bank slot d])
  case retired
  with assms show ?thesis by (auto simp: rob_inv_def bank_inv_retire)
qed (use assms in auto)

lemma rob_accounted_retire:
  assumes "rob_inv d" "rob_accounted d" "RobRetireEntry (Some d) bank slot = (st, Some d')"
  shows "rob_accounted d'"
proof (cases rule: retire_cases [of bank slot d])
  case retired
  let ?b = "rd_Banks d bank" and ?m = "rob_bank_mark (rd_CycleCounter d) slot (rd_Banks d bank)"
  have ok: "bank_inv ?b" using assms(1) retired(1) by (simp add: rob_inv_def)
  then have idx: "bank.idx_ok ?b" by (simp add: bank_inv_iff)
  have "Suc (bank_pending (rob_bank_drain ?m)) = bank_pending ?b"
    using bank.pending_mark [OF idx allocated_live [OF ok retired(2,3)] retired(3)]
    by (simp add: bank_pending_eq bank.pending_drain bank.idx_mark idx)
  with sum_fun_upd [OF retired(1), of bank_pending "rd_Banks d" "rob_bank_drain ?m"]
    assms(3) retired(4) have "rob_pending d = Suc (rob_pending d')"
    by (auto simp: rob_pending_def simp del: fun_upd_apply)
  with assms retired show ?thesis by (auto simp: rob_accounted_def)
qed (use assms in auto)

section \<open>Runs\<close>

datatype rob_op = RobAlloc u64 u64 u32 | RobRetire nat nat | RobCycle

fun rob_apply :: "rob_op \<Rightarrow> rob_distributor option \<Rightarrow> rob_distributor option" where
  "rob_apply (RobAlloc rip mos moc) g = snd (snd (RobAllocateEntry g rip mos moc))"
| "rob_apply (RobRetire bank slot) g = snd (RobRetireEntry g bank slot)"
| "rob_apply RobCycle g = RobTick g"

lemma rob_apply_Some: "\<exists>d'. rob_apply x (Some d) = Some d'"
  by (cases x) (auto simp: RobAllocateEntry_def RobRetireEntry_def RobTick_def Let_def
      split: option.splits)

lemma rob_apply_inv:
  assumes "rob_inv d" "rob_accounted d" "rob_apply x (Some d) = Some d'"
  shows "rob_inv d' \<and> rob_accounted d'"
proof (cases x)
  case (RobAlloc rip mos moc)
  then show ?thesis
    using assms rob_inv_alloc rob_accounted_alloc
    by (cases "RobAllocateEntry (Some d) rip mos moc") fastforce
next
  case (RobRetire bank slot)
  then show ?thesis
    using assms rob_inv_retire rob_accounted_retire
    by (cases "RobRetireEntry (Some d) bank slot") fastforce
next
  case RobCycle
  then show ?thesis using assms by (auto simp: RobTick_def rob_inv_def rob_accounted_def rob_pending_def)
qed

definition rob_run :: "rob_op list \<Rightarrow> rob_distributor option \<Rightarrow> rob_distributor option" where
  "rob_run ops g = fold rob_apply ops g"

lemma rob_run_inv:
  "rob_inv d \<Longrightarrow> rob_accounted d \<Longrightarrow>
     \<exists>d'. rob_run ops (Some d) = Some d' \<and> rob_inv d' \<and> rob_accounted d'"
proof (induction ops arbitrary: d)
  case Nil
  then show ?case by (simp add: rob_run_def)
next
  case (Cons x ops)
  obtain d1 where "rob_apply x (Some d) = Some d1" using rob_apply_Some by blast
  moreover from this have "rob_inv d1 \<and> rob_accounted d1" using Cons.prems rob_apply_inv by blast
  ultimately show ?case using Cons.IH [of d1] by (simp add: rob_run_def)
qed

lemma init_rob_inv: "rob_inv init_rob"
  by (simp add: rob_inv_def init_rob_def bank_inv_zero ROB_BANKS_def)

lemma init_rob_accounted: "rob_accounted init_rob"
  by (simp add: rob_accounted_def rob_pending_def init_rob_def bank_pending_def bank_queue_def zero_rob_bank_def)

section \<open>Properties\<close>

text \<open>C25: Starting from a successful \<open>RobDistributorInit\<close>, every sequence of allocations,
  retirements (of any bank and slot numbers) and ticks leaves the distributor well formed:
  head, tail and count of each bank stay inside its 112 slots and agree with each other, the
  slots between head and tail are exactly the ones that are not free, the recorded maximum
  is at least the count and at most 112, and the next bank to try is one of the seven.\<close>

theorem rob_run_well_formed:
  "\<exists>d. rob_run ops (snd (RobDistributorInit True)) = Some d \<and> rob_inv d"
  using rob_run_inv [OF init_rob_inv init_rob_accounted, of ops]
  by (auto simp: RobDistributorInit_def)

text \<open>After any such sequence the 64-bit counters account for the entries in flight:
  allocations equal retirements plus the entries that are allocated and not yet retired
  (modulo 2 ^ 64), and at most 784 entries are in flight.\<close>

theorem rob_run_accounting:
  "\<exists>d. rob_run ops (snd (RobDistributorInit True)) = Some d \<and>
     rd_TotalAllocations d = rd_TotalRetirements d + of_nat (rob_pending d) \<and>
     rob_pending d \<le> RobGetActiveCount (Some d) \<and>
     RobGetActiveCount (Some d) \<le> RobGetTotalEntries"
proof -
  obtain d where d: "rob_run ops (snd (RobDistributorInit True)) = Some d" "rob_inv d"
      "rob_accounted d"
    using rob_run_inv [OF init_rob_inv init_rob_accounted, of ops]
    by (auto simp: RobDistributorInit_def)
  have "rob_pending d \<le> RobGetActiveCount (Some d)"
    unfolding rob_pending_def RobGetActiveCount_sum
    by (rule sum_mono) (simp add: bank_pending_eq bank.pending_le)
  moreover have "RobGetActiveCount (Some d) \<le> (\<Sum>b<ROB_BANKS. ROB_ENTRIES_PER_BANK)"
    unfolding RobGetActiveCount_sum
    using d(2) by (intro sum_mono) (auto simp: rob_inv_def bank_inv_def)
  ultimately show ?thesis
    using d by (auto simp: rob_accounted_def RobGetTotalEntries_def ROB_TOTAL_ENTRIES_def)
qed

text \<open>An allocation stalls (and counts a stall) exactly when all 784 entries are in use:
  the round-robin scan never misses a bank with room.\<close>

theorem rob_alloc_stalls_iff_full:
  assumes "rob_inv d"
  shows "fst (RobAllocateEntry (Some d) rip mos moc) = EFI_OUT_OF_RESOURCES
     \<longleftrightarrow> RobGetActiveCount (Some d) = RobGetTotalEntries"
proof -
  have le: "rb_Count (rd_Banks d b) \<le> ROB_ENTRIES_PER_BANK" if "b < ROB_BANKS" for b
    using assms that by (auto simp: rob_inv_def bank_inv_def)
  have total: "RobGetTotalEntries = (\<Sum>b<ROB_BANKS. ROB_ENTRIES_PER_BANK)"
    by (simp add: RobGetTotalEntries_def ROB_TOTAL_ENTRIES_def)
  have n: "rd_NextAllocBank d < ROB_BANKS" using assms by (simp add: rob_inv_def)
  show ?thesis
    using n
  proof (cases rule: alloc_cases [where rip = rip and mos = mos and moc = moc])
    case full
    with le have "rb_Count (rd_Banks d b) = ROB_ENTRIES_PER_BANK" if "b < ROB_BANKS" for b
      using that by (meson le_neq_implies_less)
    then have "RobGetActiveCount (Some d) = RobGetTotalEntries"
      unfolding RobGetActiveCount_sum total by (intro sum.cong) auto
    with full show ?thesis by simp
  next
    case (room b e)
    have "RobGetActiveCount (Some d) < RobGetTotalEntries"
      unfolding RobGetActiveCount_sum total
      using room(1,2) le by (intro sum_strict_mono_ex1) auto
    with room show ?thesis by simp
  qed
qed

theorem rob_alloc_stalls_iff_full_witness:
  "rob_inv init_rob \<and> fst (RobAllocateEntry (Some init_rob) 0x1000 0 4) \<noteq> EFI_OUT_OF_RESOURCES"
proof -
  have "RobGetActiveCount (Some init_rob) \<noteq> RobGetTotalEntries"
    by (simp add: RobGetActiveCount_sum init_rob_def zero_rob_bank_def RobGetTotalEntries_def
        ROB_TOTAL_ENTRIES_def ROB_BANKS_def ROB_ENTRIES_PER_BANK_def)
  with rob_alloc_stalls_iff_full [OF init_rob_inv, of "0x1000" 0 4] init_rob_inv
  show ?thesis by simp
qed

text \<open>A successful allocation takes a slot that was free, in a bank with room, and appends
  the new entry (with its bank, slot, address, micro-op range and allocation tick) at the
  young end of that bank's queue; no other bank changes.\<close>

theorem rob_alloc_appends:
  assumes "rob_inv d" "RobAllocateEntry (Some d) rip mos moc = (EFI_SUCCESS, Some (b, s), Some d')"
  shows "b < ROB_BANKS \<and> s < ROB_ENTRIES_PER_BANK
    \<and> re_State (rb_Slots (rd_Banks d b) s) = ROB_ENTRY_FREE
    \<and> bank_queue (rd_Banks d' b) = bank_queue (rd_Banks d b) @
        [\<lparr>re_Rip = rip, re_MicroOpStart = mos, re_MicroOpCount = moc,
          re_State = ROB_ENTRY_ALLOCATED, re_AllocTick = rd_CycleCounter d, re_RetireTick = 0,
          re_BankId = b, re_SlotInBank = s\<rparr>]
    \<and> (\<forall>b'. b' \<noteq> b \<longrightarrow> rd_Banks d' b' = rd_Banks d b')"
proof -
  have n: "rd_NextAllocBank d < ROB_BANKS" using assms(1) by (simp add: rob_inv_def)
  show ?thesis
    using n
  proof (cases rule: alloc_cases [where rip = rip and mos = mos and moc = moc])
    case full
    with assms show ?thesis by simp
  next
    case (room b2 e)
    have b: "b2 = b" and s: "s = rb_Tail (rd_Banks d b)"
      and d': "rd_Banks d' = (rd_Banks d)(b := rob_bank_push e (rd_Banks d b))"
      using room(4) assms(2) by auto
    have inv: "bank_inv (rd_Banks d b)" using assms(1) room(1) b by (simp add: rob_inv_def)
    then have idx: "bank.idx_ok (rd_Banks d b)" by (simp add: bank_inv_iff)
    have lt: "s < ROB_ENTRIES_PER_BANK" using bank.idx_bounds [OF idx] s by simp
    have "\<not> bank.live (rd_Banks d b) s" using bank.tail_free [OF idx] room(2) b s by simp
    then have "re_State (rb_Slots (rd_Banks d b) s) = ROB_ENTRY_FREE"
      using inv lt by (simp add: bank_inv_iff bank.clean_def)
    then show ?thesis
      using room lt idx by (simp add: d' bank_queue_view bank.view_push b s)
  qed
qed

theorem rob_alloc_appends_witness:
  "\<exists>d'. RobAllocateEntry (Some init_rob) 0x1000 0 4 = (EFI_SUCCESS, Some (0, 0), Some d')
     \<and> bank_queue (rd_Banks d' 0) =
        [\<lparr>re_Rip = 0x1000, re_MicroOpStart = 0, re_MicroOpCount = 4,
          re_State = ROB_ENTRY_ALLOCATED, re_AllocTick = 0, re_RetireTick = 0,
          re_BankId = 0, re_SlotInBank = 0\<rparr>]"
proof -
  have "rr_scan ROB_BANKS (\<lambda>b. rb_Count (rd_Banks init_rob b) < ROB_ENTRIES_PER_BANK) 0 0 ROB_BANKS
      = Some 0"
    by (rule rr_scan_first)
       (simp_all add: init_rob_def zero_rob_bank_def ROB_ENTRIES_PER_BANK_def ROB_BANKS_def)
  then obtain d' where a:
    "RobAllocateEntry (Some init_rob) 0x1000 0 4 = (EFI_SUCCESS, Some (0, 0), Some d')"
    by (simp add: RobAllocateEntry_def Let_def init_rob_def zero_rob_bank_def)
  have "bank_queue (rd_Banks init_rob 0) = [] \<and> rd_CycleCounter init_rob = 0"
    by (simp add: bank_queue_def init_rob_def zero_rob_bank_def)
  with a rob_alloc_appends [OF init_rob_inv a] show ?thesis by simp
qed

text \<open>C8: Retirement is out of order, release is in order. Retiring the k-th oldest entry of a
  bank marks exactly that entry and then frees exactly the longest retired prefix of the
  bank's queue, however the other entries were retired.\<close>

theorem rob_retire_releases_prefix:
  assumes "rob_inv d" "b < ROB_BANKS" "k < rb_Count (rd_Banks d b)"
    and "re_State (bank_queue (rd_Banks d b) ! k) = ROB_ENTRY_ALLOCATED"
  shows "\<exists>d'. RobRetireEntry (Some d) b ((rb_Head (rd_Banks d b) + k) mod ROB_ENTRIES_PER_BANK)
        = (EFI_SUCCESS, Some d')
    \<and> bank_queue (rd_Banks d' b) =
        dropWhile (\<lambda>e. re_State e = ROB_ENTRY_RETIRED)
          ((bank_queue (rd_Banks d b))[k := (bank_queue (rd_Banks d b) ! k)
              \<lparr>re_State := ROB_ENTRY_RETIRED, re_RetireTick := rd_CycleCounter d\<rparr>])
    \<and> (\<forall>b'. b' \<noteq> b \<longrightarrow> rd_Banks d' b' = rd_Banks d b')"
proof -
  let ?bp = "rd_Banks d b" and ?i = "(rb_Head (rd_Banks d b) + k) mod ROB_ENTRIES_PER_BANK"
  have idx: "bank.idx_ok ?bp" using assms(1,2) by (auto simp: rob_inv_def bank_inv_iff)
  have i: "?i < ROB_ENTRIES_PER_BANK" using bank.cap_pos by simp
  have st: "re_State (rb_Slots ?bp ?i) = ROB_ENTRY_ALLOCATED"
    using assms(3,4) by (simp add: bank_queue_def ring_view_nth)
  have "bank.view (rob_bank_drain (rob_bank_mark (rd_CycleCounter d) ?i ?bp)) =
      dropWhile (\<lambda>e. re_State e = ROB_ENTRY_RETIRED)
        ((bank.view ?bp)[k := rob_retire_entry (rd_CycleCounter d) (bank.view ?bp ! k)])"
    by (simp add: bank.view_drain bank.idx_mark idx bank.view_mark assms(3))
  with assms(2) i st show ?thesis
    by (auto simp: RobRetireEntry_def Let_def bank_queue_view rob_retire_entry_def)
qed

text \<open>No entry is retired twice: once \<open>RobRetireEntry\<close> has succeeded for a bank and slot, the
  same call on the resulting state is refused with \<open>EFI_NOT_READY\<close> and changes nothing.\<close>

theorem rob_no_double_retire:
  assumes "RobRetireEntry g b s = (EFI_SUCCESS, g')"
  shows "RobRetireEntry g' b s = (EFI_NOT_READY, g')"
proof -
  obtain d where g: "g = Some d"
    using assms by (cases g) (auto simp: RobRetireEntry_def)
  show ?thesis
  proof (cases rule: retire_cases [of b s d])
    case retired
    let ?bp = "rob_bank_drain (rob_bank_mark (rd_CycleCounter d) s (rd_Banks d b))"
    obtain d' where d': "g' = Some d'" "rd_Banks d' b = ?bp"
      using assms g retired(4) by auto
    have "re_State (rb_Slots ?bp s) \<noteq> ROB_ENTRY_ALLOCATED"
      by (rule bank.retired_not_allocated)
    with d' retired(1,2) show ?thesis by (simp add: RobRetireEntry_def Let_def)
  qed (use assms g in auto)
qed

text \<open>A concrete state for the two retirement properties: three entries in bank 0, the middle
  one already retired.\<close>

definition sample_entry :: "nat \<Rightarrow> rob_state \<Rightarrow> rob_entry" where
  "sample_entry s st = zero_rob_entry\<lparr>re_SlotInBank := s, re_State := st\<rparr>"

definition sample_bank :: rob_bank where
  "sample_bank = \<lparr>rb_Head = 0, rb_Tail = 3, rb_Count = 3, rb_MaxCount = 3,
     rb_Slots = (\<lambda>_. zero_rob_entry)(0 := sample_entry 0 ROB_ENTRY_ALLOCATED,
       1 := sample_entry 1 ROB_ENTRY_RETIRED, 2 := sample_entry 2 ROB_ENTRY_ALLOCATED)\<rparr>"

definition sample_rob :: rob_distributor where
  "sample_rob = init_rob\<lparr>rd_Banks := (rd_Banks init_rob)(0 := sample_bank)\<rparr>"

lemma sample_window: "in_window 112 0 3 i \<longleftrightarrow> i = 0 \<or> i = 1 \<or> i = 2"
proof -
  have "(\<exists>k<3. P k) \<longleftrightarrow> P 0 \<or> P 1 \<or> P (2::nat)" for P
    by (auto simp: numeral_3_eq_3 numeral_2_eq_2 less_Suc_eq)
  then show ?thesis by (simp add: in_window_def)
qed

lemma sample_rob_inv: "rob_inv sample_rob"
proof -
  have slots: "re_State (rb_Slots sample_bank i) =
      (if i = 0 \<or> i = 2 then ROB_ENTRY_ALLOCATED else if i = 1 then ROB_ENTRY_RETIRED
       else ROB_ENTRY_FREE)" for i
    by (simp add: sample_bank_def sample_entry_def zero_rob_entry_def)
  have ptrs: "rb_Head sample_bank = 0" "rb_Tail sample_bank = 3" "rb_Count sample_bank = 3"
    "rb_MaxCount sample_bank = 3"
    by (simp_all add: sample_bank_def)
  have "bank_inv sample_bank"
    unfolding bank_inv_def ptrs slots ROB_ENTRIES_PER_BANK_def sample_window
    by (simp add: ring_idx_def)
  then show ?thesis using init_rob_inv by (auto simp: rob_inv_def sample_rob_def)
qed

lemma sample_queue: "bank_queue (rd_Banks sample_rob 0) =
    [sample_entry 0 ROB_ENTRY_ALLOCATED, sample_entry 1 ROB_ENTRY_RETIRED,
     sample_entry 2 ROB_ENTRY_ALLOCATED]"
  by (simp add: bank_queue_def sample_rob_def sample_bank_def ring_view_def upt_rec
      ROB_ENTRIES_PER_BANK_def)

theorem rob_retire_releases_prefix_witness:
  "\<exists>d'. RobRetireEntry (Some sample_rob) 0 0 = (EFI_SUCCESS, Some d')
     \<and> bank_queue (rd_Banks d' 0) = [sample_entry 2 ROB_ENTRY_ALLOCATED]"
proof -
  have hyps: "0 < ROB_BANKS" "0 < rb_Count (rd_Banks sample_rob 0)"
    "re_State (bank_queue (rd_Banks sample_rob 0) ! 0) = ROB_ENTRY_ALLOCATED"
    by (simp_all add: ROB_BANKS_def sample_queue sample_entry_def)
       (simp add: sample_rob_def sample_bank_def)
  show ?thesis
    using rob_retire_releases_prefix [OF sample_rob_inv hyps]
    unfolding sample_queue
    by (auto simp: sample_rob_def sample_bank_def sample_entry_def)
qed

theorem rob_no_double_retire_witness:
  "\<exists>g'. RobRetireEntry (Some sample_rob) 0 2 = (EFI_SUCCESS, g') \<and>
     RobRetireEntry g' 0 2 = (EFI_NOT_READY, g')"
proof -
  have "fst (RobRetireEntry (Some sample_rob) 0 2) = EFI_SUCCESS"
    by (simp add: RobRetireEntry_def ROB_BANKS_def ROB_ENTRIES_PER_BANK_def sample_rob_def
        sample_bank_def sample_entry_def)
  then obtain g' where g': "RobRetireEntry (Some sample_rob) 0 2 = (EFI_SUCCESS, g')"
    by (cases "RobRetireEntry (Some sample_rob) 0 2") auto
  with rob_no_double_retire [OF g'] show ?thesis by blast
qed

end
