(* ===== verification/RobV72.thy ===== *)
theory RobV72
  imports RobRing
begin

text \<open>
  The v7.2 reorder buffer of \<open>performance/rob/robdistributor.c\<close>: one main ring of 1568
  two-byte entries, seven extended rings of 9362, and a metadata table of 1568 records
  indexed by the reorder tag. The file's static variables are the record \<open>v72_state\<close>; a
  NULL pointer is \<open>None\<close>. An operation returns \<open>None\<close> where the C code would dereference
  a NULL pointer. The counters \<open>gV72MainCount\<close> and \<open>gV72ExtCounts[i]\<close>, which shadow the
  count of a ring, are kept beside the ring they shadow: the operations on a ring act on the
  pair.
\<close>

section \<open>State\<close>

definition V72_ROB_MAIN_ENTRIES :: nat where "V72_ROB_MAIN_ENTRIES = 1568"
definition V72_ROB_EXT_BANKS :: nat where "V72_ROB_EXT_BANKS = 7"
definition V72_ROB_EXT_ENTRIES :: nat where "V72_ROB_EXT_ENTRIES = 9362"
definition V72_ROB_EXT_TOTAL :: nat where
  "V72_ROB_EXT_TOTAL = V72_ROB_EXT_BANKS * V72_ROB_EXT_ENTRIES"

definition MAIN_BANK_ID :: nat where "MAIN_BANK_ID = 0xFFFFFFFF"

text \<open>The bit fields: an 11-bit tag, a 3-bit mask, a 2-bit state.\<close>

record v72_entry =
  ve_ReorderTag :: nat
  ve_ReadyMask :: nat
  ve_State :: rob_state

record v72_meta =
  vm_Rip :: u64
  vm_MicroOpStart :: u64
  vm_MicroOpCount :: u32
  vm_BankId :: nat
  vm_SlotInBank :: nat
  vm_AllocTick :: u64

record v72_ring =
  vr_Entries :: "nat \<Rightarrow> v72_entry"
  vr_Head :: nat
  vr_Tail :: nat
  vr_Count :: nat

type_synonym v72_counted = "v72_ring \<times> u32"

record v72_state =
  vs_MainRob :: "v72_ring option"
  vs_ExtBanks :: "nat \<Rightarrow> v72_ring option"
  vs_Meta :: "(nat \<Rightarrow> v72_meta) option"
  vs_MetaHead :: nat
  vs_MetaTail :: nat
  vs_MetaCount :: u32
  vs_MainCount :: u32
  vs_MainHead :: nat
  vs_ExtCounts :: "nat \<Rightarrow> u32"
  vs_NextExtBank :: nat
  vs_TotalAllocations :: u64
  vs_TotalRetirements :: u64
  vs_TotalStalls :: u64
  vs_CycleCounter :: u64

definition zero_v72_entry :: v72_entry where
  "zero_v72_entry = \<lparr>ve_ReorderTag = 0, ve_ReadyMask = 0, ve_State = ROB_ENTRY_FREE\<rparr>"

definition zero_v72_ring :: v72_ring where
  "zero_v72_ring = \<lparr>vr_Entries = (\<lambda>_. zero_v72_entry), vr_Head = 0, vr_Tail = 0, vr_Count = 0\<rparr>"

definition zero_v72_meta :: v72_meta where
  "zero_v72_meta = \<lparr>vm_Rip = 0, vm_MicroOpStart = 0, vm_MicroOpCount = 0, vm_BankId = 0,
     vm_SlotInBank = 0, vm_AllocTick = 0\<rparr>"

text \<open>The statics before any call.\<close>

definition v72_start :: v72_state where
  "v72_start = \<lparr>vs_MainRob = None, vs_ExtBanks = (\<lambda>_. None), vs_Meta = None, vs_MetaHead = 0,
     vs_MetaTail = 0, vs_MetaCount = 0, vs_MainCount = 0, vs_MainHead = 0,
     vs_ExtCounts = (\<lambda>_. 0), vs_NextExtBank = 0, vs_TotalAllocations = 0,
     vs_TotalRetirements = 0, vs_TotalStalls = 0, vs_CycleCounter = 0\<rparr>"

section \<open>Initialisation\<close>

text \<open>The loop that allocates the extended banks; it returns at the first failure.\<close>

fun v72_init_banks :: "(nat \<Rightarrow> bool) \<Rightarrow> nat list \<Rightarrow> v72_state \<Rightarrow> bool \<times> v72_state" where
  "v72_init_banks ok [] s = (True, s)"
| "v72_init_banks ok (i # is) s =
     (if \<not> ok i then (False, s\<lparr>vs_ExtBanks := (vs_ExtBanks s)(i := None)\<rparr>)
      else v72_init_banks ok is
        (s\<lparr>vs_ExtBanks := (vs_ExtBanks s)(i := Some zero_v72_ring),
           vs_ExtCounts := (vs_ExtCounts s)(i := 0)\<rparr>))"

definition V72RobDistributorInit ::
  "bool \<Rightarrow> (nat \<Rightarrow> bool) \<Rightarrow> bool \<Rightarrow> v72_state \<Rightarrow> efi_status \<times> v72_state" where
  "V72RobDistributorInit main_ok ext_ok meta_ok s =
     (if \<not> main_ok then (EFI_OUT_OF_RESOURCES, s\<lparr>vs_MainRob := None\<rparr>)
      else
        (let s1 = s\<lparr>vs_MainRob := Some zero_v72_ring\<rparr>;
             (banks_ok, s2) = v72_init_banks ext_ok [0..<V72_ROB_EXT_BANKS] s1
         in if \<not> banks_ok then (EFI_OUT_OF_RESOURCES, s2)
            else if \<not> meta_ok then (EFI_OUT_OF_RESOURCES, s2\<lparr>vs_Meta := None\<rparr>)
            else (EFI_SUCCESS,
              s2\<lparr>vs_Meta := Some (\<lambda>_. zero_v72_meta), vs_MainCount := 0, vs_MainHead := 0,
                 vs_MetaHead := 0, vs_MetaTail := 0, vs_MetaCount := 0, vs_NextExtBank := 0,
                 vs_TotalAllocations := 0, vs_TotalRetirements := 0, vs_TotalStalls := 0,
                 vs_CycleCounter := 0\<rparr>)))"

section \<open>The ring operations\<close>

definition v72_push :: "nat \<Rightarrow> v72_entry \<Rightarrow> v72_counted \<Rightarrow> v72_counted" where
  "v72_push cap e rc =
     (let (r, c) = rc; slot = vr_Tail r in
      (r\<lparr>vr_Entries := (vr_Entries r)(slot := e), vr_Tail := (slot + 1) mod cap,
         vr_Count := vr_Count r + 1\<rparr>, c + 1))"

definition v72_mark :: "nat \<Rightarrow> v72_counted \<Rightarrow> v72_counted" where
  "v72_mark slot rc =
     (let (r, c) = rc in
      (r\<lparr>vr_Entries := (vr_Entries r)(slot :=
           (vr_Entries r slot)\<lparr>ve_State := ROB_ENTRY_RETIRED\<rparr>)\<rparr>, c))"

definition v72_pop :: "nat \<Rightarrow> v72_counted \<Rightarrow> v72_counted" where
  "v72_pop cap rc =
     (let (r, c) = rc in
      (r\<lparr>vr_Entries := (vr_Entries r)(vr_Head r :=
             (vr_Entries r (vr_Head r))\<lparr>ve_State := ROB_ENTRY_FREE\<rparr>),
         vr_Head := (vr_Head r + 1) mod cap,
         vr_Count := vr_Count r - 1\<rparr>, c - 1))"

function v72_drain :: "nat \<Rightarrow> v72_counted \<Rightarrow> v72_counted" where
  "v72_drain cap rc =
     (if 0 < vr_Count (fst rc) \<and>
         ve_State (vr_Entries (fst rc) (vr_Head (fst rc))) = ROB_ENTRY_RETIRED
      then v72_drain cap (v72_pop cap rc) else rc)"
  by pat_completeness auto
termination
  by (relation "measure (\<lambda>(cap, rc). vr_Count (fst rc))")
     (auto simp: v72_pop_def Let_def split: prod.splits)

declare v72_drain.simps [simp del]

section \<open>Allocation and retirement\<close>

definition v72_new_entry :: "nat \<Rightarrow> v72_entry" where
  "v72_new_entry tag =
     \<lparr>ve_ReorderTag = tag mod 2048, ve_ReadyMask = 0, ve_State = ROB_ENTRY_ALLOCATED\<rparr>"

definition V72RobAllocateEntry ::
  "v72_state \<Rightarrow> u64 \<Rightarrow> u64 \<Rightarrow> u32 \<Rightarrow> (efi_status \<times> nat option \<times> v72_state) option" where
  "V72RobAllocateEntry s Rip MicroOpStart MicroOpCount =
     (case vs_MainRob s of
        None \<Rightarrow> Some (EFI_NOT_READY, None, s)
      | Some mr \<Rightarrow>
          (let tag = vs_MetaTail s in
           if vs_MainCount s < of_nat V72_ROB_MAIN_ENTRIES then
             (let slot = vr_Tail mr;
                  (mr', mc') = v72_push V72_ROB_MAIN_ENTRIES (v72_new_entry tag)
                                 (mr, vs_MainCount s)
              in case vs_Meta s of
                   None \<Rightarrow> None
                 | Some meta \<Rightarrow>
                     Some (EFI_SUCCESS, Some tag,
                       s\<lparr>vs_MainRob := Some mr', vs_MainCount := mc',
                         vs_Meta := Some (meta(tag :=
                           \<lparr>vm_Rip = Rip, vm_MicroOpStart = MicroOpStart,
                            vm_MicroOpCount = MicroOpCount, vm_BankId = MAIN_BANK_ID,
                            vm_SlotInBank = slot, vm_AllocTick = vs_CycleCounter s\<rparr>)),
                         vs_MetaTail := (vs_MetaTail s + 1) mod V72_ROB_MAIN_ENTRIES,
                         vs_MetaCount := vs_MetaCount s + 1,
                         vs_TotalAllocations := vs_TotalAllocations s + 1\<rparr>))
           else
             (case rr_scan V72_ROB_EXT_BANKS
                     (\<lambda>b. case vs_ExtBanks s b of None \<Rightarrow> True
                           | Some r \<Rightarrow> vr_Count r < V72_ROB_EXT_ENTRIES)
                     (vs_NextExtBank s) (vs_NextExtBank s) V72_ROB_EXT_BANKS of
                None \<Rightarrow>
                  Some (EFI_OUT_OF_RESOURCES, None,
                        s\<lparr>vs_TotalStalls := vs_TotalStalls s + 1\<rparr>)
              | Some eb \<Rightarrow>
                  (case (vs_ExtBanks s eb, vs_Meta s) of
                     (Some ebp, Some meta) \<Rightarrow>
                       (let slot = vr_Tail ebp;
                            (ebp', ec') = v72_push V72_ROB_EXT_ENTRIES (v72_new_entry tag)
                                            (ebp, vs_ExtCounts s eb)
                        in Some (EFI_SUCCESS, Some tag,
                             s\<lparr>vs_NextExtBank := (eb + 1) mod V72_ROB_EXT_BANKS,
                               vs_ExtBanks := (vs_ExtBanks s)(eb := Some ebp'),
                               vs_ExtCounts := (vs_ExtCounts s)(eb := ec'),
                               vs_Meta := Some (meta(tag :=
                                 \<lparr>vm_Rip = Rip, vm_MicroOpStart = MicroOpStart,
                                  vm_MicroOpCount = MicroOpCount, vm_BankId = eb,
                                  vm_SlotInBank = slot, vm_AllocTick = vs_CycleCounter s\<rparr>)),
                               vs_MetaTail := (vs_MetaTail s + 1) mod V72_ROB_MAIN_ENTRIES,
                               vs_MetaCount := vs_MetaCount s + 1,
                               vs_TotalAllocations := vs_TotalAllocations s + 1\<rparr>))
                   | _ \<Rightarrow> None))))"

definition V72RobRetireEntry :: "v72_state \<Rightarrow> nat \<Rightarrow> (efi_status \<times> v72_state) option" where
  "V72RobRetireEntry s ReorderTag =
     (case vs_MainRob s of
        None \<Rightarrow> Some (EFI_NOT_READY, s)
      | Some mr \<Rightarrow>
          if ReorderTag \<ge> V72_ROB_MAIN_ENTRIES then Some (EFI_INVALID_PARAMETER, s)
          else
            (case vs_Meta s of
               None \<Rightarrow> None
             | Some metas \<Rightarrow>
                 (let meta = metas ReorderTag; slot = vm_SlotInBank meta in
                  if vm_BankId meta = MAIN_BANK_ID then
                    (if vr_Count mr = 0 then Some (EFI_NOT_READY, s)
                     else
                       (let (mr', mc') = v72_drain V72_ROB_MAIN_ENTRIES
                                           (v72_mark slot (mr, vs_MainCount s))
                        in Some (EFI_SUCCESS,
                             s\<lparr>vs_MainRob := Some mr', vs_MainCount := mc',
                               vs_TotalRetirements := vs_TotalRetirements s + 1\<rparr>)))
                  else
                    (let eb = vm_BankId meta in
                     if eb \<ge> V72_ROB_EXT_BANKS then Some (EFI_INVALID_PARAMETER, s)
                     else
                       (case vs_ExtBanks s eb of
                          None \<Rightarrow> Some (EFI_NOT_READY, s)
                        | Some ebp \<Rightarrow>
                            if vr_Count ebp = 0 then Some (EFI_NOT_READY, s)
                            else
                              (let (ebp', ec') = v72_drain V72_ROB_EXT_ENTRIES
                                                   (v72_mark slot (ebp, vs_ExtCounts s eb))
                               in Some (EFI_SUCCESS,
                                    s\<lparr>vs_ExtBanks := (vs_ExtBanks s)(eb := Some ebp'),
                                      vs_ExtCounts := (vs_ExtCounts s)(eb := ec'),
                                      vs_TotalRetirements := vs_TotalRetirements s + 1\<rparr>)))))))"

definition V72RobTick :: "v72_state \<Rightarrow> v72_state" where
  "V72RobTick s = s\<lparr>vs_CycleCounter := vs_CycleCounter s + 1\<rparr>"

definition V72RobGetTotalMainEntries :: nat where
  "V72RobGetTotalMainEntries = V72_ROB_MAIN_ENTRIES"

definition V72RobGetTotalExtEntries :: nat where
  "V72RobGetTotalExtEntries = V72_ROB_EXT_TOTAL"

definition V72RobGetTotalEntries :: nat where
  "V72RobGetTotalEntries = V72_ROB_MAIN_ENTRIES + V72_ROB_EXT_TOTAL"

definition V72RobGetActiveCount :: "v72_state \<Rightarrow> nat" where
  "V72RobGetActiveCount s =
     (case vs_MainRob s of
        None \<Rightarrow> 0
      | Some mr \<Rightarrow>
          fold (\<lambda>i total. case vs_ExtBanks s i of None \<Rightarrow> total | Some r \<Rightarrow> total + vr_Count r)
            [0..<V72_ROB_EXT_BANKS] (vr_Count mr))"

section \<open>Both kinds of ring are in-order rings\<close>

lemmas v72_ring_defs = v72_push_def v72_mark_def v72_pop_def

interpretation vmain: retire_ring V72_ROB_MAIN_ENTRIES "\<lambda>rc. vr_Head (fst rc)"
  "\<lambda>rc. vr_Tail (fst rc)" "\<lambda>rc. vr_Count (fst rc)" "\<lambda>rc. vr_Entries (fst rc)" ve_State
  "v72_push V72_ROB_MAIN_ENTRIES" "\<lambda>_::unit. v72_mark" "\<lambda>_ e. e\<lparr>ve_State := ROB_ENTRY_RETIRED\<rparr>"
  "\<lambda>e. e\<lparr>ve_State := ROB_ENTRY_FREE\<rparr>" "v72_pop V72_ROB_MAIN_ENTRIES"
  "v72_drain V72_ROB_MAIN_ENTRIES"
  by unfold_locales
     (auto simp: V72_ROB_MAIN_ENTRIES_def v72_ring_defs v72_drain.simps Let_def split: prod.splits)

interpretation vext: retire_ring V72_ROB_EXT_ENTRIES "\<lambda>rc. vr_Head (fst rc)"
  "\<lambda>rc. vr_Tail (fst rc)" "\<lambda>rc. vr_Count (fst rc)" "\<lambda>rc. vr_Entries (fst rc)" ve_State
  "v72_push V72_ROB_EXT_ENTRIES" "\<lambda>_::unit. v72_mark" "\<lambda>_ e. e\<lparr>ve_State := ROB_ENTRY_RETIRED\<rparr>"
  "\<lambda>e. e\<lparr>ve_State := ROB_ENTRY_FREE\<rparr>" "v72_pop V72_ROB_EXT_ENTRIES"
  "v72_drain V72_ROB_EXT_ENTRIES"
  by unfold_locales
     (auto simp: V72_ROB_EXT_ENTRIES_def v72_ring_defs v72_drain.simps Let_def split: prod.splits)

section \<open>Invariant\<close>

text \<open>A ring with its shadow counter: indices in range and the two counts equal.\<close>

definition v72_ring_ok :: "nat \<Rightarrow> v72_counted \<Rightarrow> bool" where
  "v72_ring_ok cap rc \<longleftrightarrow>
     ring_idx cap (vr_Head (fst rc)) (vr_Tail (fst rc)) (vr_Count (fst rc)) \<and>
     snd rc = of_nat (vr_Count (fst rc))"

definition v72_meta_ok :: "v72_meta \<Rightarrow> bool" where
  "v72_meta_ok m \<longleftrightarrow>
     vm_BankId m = MAIN_BANK_ID \<and> vm_SlotInBank m < V72_ROB_MAIN_ENTRIES \<or>
     vm_BankId m < V72_ROB_EXT_BANKS \<and> vm_SlotInBank m < V72_ROB_EXT_ENTRIES"

definition v72_slot_ok :: "nat \<Rightarrow> v72_ring option \<Rightarrow> u32 \<Rightarrow> bool" where
  "v72_slot_ok cap r c \<longleftrightarrow> (case r of None \<Rightarrow> False | Some r \<Rightarrow> v72_ring_ok cap (r, c))"

definition v72_table_ok :: "(nat \<Rightarrow> v72_meta) option \<Rightarrow> bool" where
  "v72_table_ok m \<longleftrightarrow>
     (case m of None \<Rightarrow> False | Some m \<Rightarrow> \<forall>t<V72_ROB_MAIN_ENTRIES. v72_meta_ok (m t))"

definition v72_inv :: "v72_state \<Rightarrow> bool" where
  "v72_inv s \<longleftrightarrow>
     v72_slot_ok V72_ROB_MAIN_ENTRIES (vs_MainRob s) (vs_MainCount s) \<and>
     (\<forall>b<V72_ROB_EXT_BANKS.
        v72_slot_ok V72_ROB_EXT_ENTRIES (vs_ExtBanks s b) (vs_ExtCounts s b)) \<and>
     v72_table_ok (vs_Meta s) \<and>
     vs_MetaTail s < V72_ROB_MAIN_ENTRIES \<and> vs_NextExtBank s < V72_ROB_EXT_BANKS"

lemma v72_slot_ok_simps [simp]:
  "\<not> v72_slot_ok cap None c"
  "v72_slot_ok cap (Some r) c = v72_ring_ok cap (r, c)"
  by (simp_all add: v72_slot_ok_def)

lemma v72_table_ok_simps [simp]:
  "\<not> v72_table_ok None"
  "v72_table_ok (Some m) = (\<forall>t<V72_ROB_MAIN_ENTRIES. v72_meta_ok (m t))"
  by (simp_all add: v72_table_ok_def)

lemma v72_counted_drain:
  "snd rc = of_nat (vr_Count (fst rc)) \<Longrightarrow>
   snd (v72_drain cap rc) = of_nat (vr_Count (fst (v72_drain cap rc)))"
proof (induction cap rc rule: v72_drain.induct)
  case (1 cap rc)
  show ?case
  proof (cases "0 < vr_Count (fst rc) \<and>
      ve_State (vr_Entries (fst rc) (vr_Head (fst rc))) = ROB_ENTRY_RETIRED")
    case True
    then have "snd (v72_pop cap rc) = of_nat (vr_Count (fst (v72_pop cap rc)))"
      using "1.prems" by (auto simp: v72_pop_def Let_def split: prod.splits)
    with True "1.IH" show ?thesis by (simp add: v72_drain.simps [of cap rc])
  next
    case False
    have "v72_drain cap rc = rc" by (subst v72_drain.simps, rule if_not_P [OF False])
    with "1.prems" show ?thesis by simp
  qed
qed

lemma v72_counted_push:
  "snd rc = of_nat (vr_Count (fst rc)) \<Longrightarrow>
   snd (v72_push cap e rc) = of_nat (vr_Count (fst (v72_push cap e rc)))"
  by (auto simp: v72_push_def Let_def split: prod.splits)

lemma v72_counted_mark: "snd (v72_mark i rc) = snd rc"
  by (auto simp: v72_mark_def Let_def split: prod.splits)

lemma v72_main_push_ok:
  "v72_ring_ok V72_ROB_MAIN_ENTRIES rc \<Longrightarrow> vr_Count (fst rc) < V72_ROB_MAIN_ENTRIES \<Longrightarrow>
   v72_ring_ok V72_ROB_MAIN_ENTRIES (v72_push V72_ROB_MAIN_ENTRIES e rc)"
  using vmain.idx_push [of rc e] v72_counted_push [of rc]
  by (simp add: v72_ring_ok_def vmain.idx_ok_def)

lemma v72_ext_push_ok:
  "v72_ring_ok V72_ROB_EXT_ENTRIES rc \<Longrightarrow> vr_Count (fst rc) < V72_ROB_EXT_ENTRIES \<Longrightarrow>
   v72_ring_ok V72_ROB_EXT_ENTRIES (v72_push V72_ROB_EXT_ENTRIES e rc)"
  using vext.idx_push [of rc e] v72_counted_push [of rc]
  by (simp add: v72_ring_ok_def vext.idx_ok_def)

lemma v72_main_retire_ok:
  "v72_ring_ok V72_ROB_MAIN_ENTRIES rc \<Longrightarrow>
   v72_ring_ok V72_ROB_MAIN_ENTRIES (v72_drain V72_ROB_MAIN_ENTRIES (v72_mark i rc))"
  using vmain.idx_drain [of "v72_mark i rc"] vmain.idx_mark [of rc i]
    v72_counted_drain [of "v72_mark i rc" V72_ROB_MAIN_ENTRIES] vmain.mark_count [of i rc]
  by (simp add: v72_ring_ok_def vmain.idx_ok_def v72_counted_mark)

lemma v72_ext_retire_ok:
  "v72_ring_ok V72_ROB_EXT_ENTRIES rc \<Longrightarrow>
   v72_ring_ok V72_ROB_EXT_ENTRIES (v72_drain V72_ROB_EXT_ENTRIES (v72_mark i rc))"
  using vext.idx_drain [of "v72_mark i rc"] vext.idx_mark [of rc i]
    v72_counted_drain [of "v72_mark i rc" V72_ROB_EXT_ENTRIES] vext.mark_count [of i rc]
  by (simp add: v72_ring_ok_def vext.idx_ok_def v72_counted_mark)

lemma v72_ring_ok_tail:
  "v72_ring_ok cap (r, c) \<Longrightarrow> 0 < cap \<Longrightarrow> vr_Tail r < cap \<and> vr_Count r \<le> cap \<and> vr_Head r < cap"
  by (auto simp: v72_ring_ok_def ring_idx_def)

text \<open>Main room as the code tests it, on the 32-bit shadow counter.\<close>

lemma main_room_iff:
  assumes "v72_ring_ok V72_ROB_MAIN_ENTRIES (mr, c)"
  shows "c < of_nat V72_ROB_MAIN_ENTRIES \<longleftrightarrow> vr_Count mr < V72_ROB_MAIN_ENTRIES"
proof -
  have "vr_Count mr < 2 ^ 32" and c: "c = of_nat (vr_Count mr)"
    using assms by (auto simp: v72_ring_ok_def ring_idx_def V72_ROB_MAIN_ENTRIES_def)
  then have "unat c = vr_Count mr" by (simp add: unat_of_nat)
  moreover have "unat (of_nat V72_ROB_MAIN_ENTRIES :: u32) = V72_ROB_MAIN_ENTRIES"
    by (simp add: V72_ROB_MAIN_ENTRIES_def)
  ultimately show ?thesis by (simp add: word_less_nat_alt)
qed

section \<open>What the operations do in a well-formed state\<close>

lemma v72_alloc_main:
  assumes "vs_MainRob s = Some mr" "vs_Meta s = Some meta"
    "vs_MainCount s < of_nat V72_ROB_MAIN_ENTRIES"
  shows "V72RobAllocateEntry s rip mos moc = Some (EFI_SUCCESS, Some (vs_MetaTail s),
     s\<lparr>vs_MainRob := Some (fst (v72_push V72_ROB_MAIN_ENTRIES (v72_new_entry (vs_MetaTail s))
                              (mr, vs_MainCount s))),
       vs_MainCount := snd (v72_push V72_ROB_MAIN_ENTRIES (v72_new_entry (vs_MetaTail s))
                              (mr, vs_MainCount s)),
       vs_Meta := Some (meta(vs_MetaTail s :=
          \<lparr>vm_Rip = rip, vm_MicroOpStart = mos, vm_MicroOpCount = moc, vm_BankId = MAIN_BANK_ID,
           vm_SlotInBank = vr_Tail mr, vm_AllocTick = vs_CycleCounter s\<rparr>)),
       vs_MetaTail := (vs_MetaTail s + 1) mod V72_ROB_MAIN_ENTRIES,
       vs_MetaCount := vs_MetaCount s + 1,
       vs_TotalAllocations := vs_TotalAllocations s + 1\<rparr>)"
  using assms by (simp add: V72RobAllocateEntry_def Let_def split: prod.splits)

lemma v72_alloc_ext:
  assumes "vs_MainRob s = Some mr" "vs_Meta s = Some meta"
    "\<not> vs_MainCount s < of_nat V72_ROB_MAIN_ENTRIES"
    "rr_scan V72_ROB_EXT_BANKS
       (\<lambda>b. case vs_ExtBanks s b of None \<Rightarrow> True | Some r \<Rightarrow> vr_Count r < V72_ROB_EXT_ENTRIES)
       (vs_NextExtBank s) (vs_NextExtBank s) V72_ROB_EXT_BANKS = Some eb"
    "vs_ExtBanks s eb = Some ebp"
  shows "V72RobAllocateEntry s rip mos moc = Some (EFI_SUCCESS, Some (vs_MetaTail s),
     s\<lparr>vs_NextExtBank := (eb + 1) mod V72_ROB_EXT_BANKS,
       vs_ExtBanks := (vs_ExtBanks s)(eb :=
         Some (fst (v72_push V72_ROB_EXT_ENTRIES (v72_new_entry (vs_MetaTail s))
                      (ebp, vs_ExtCounts s eb)))),
       vs_ExtCounts := (vs_ExtCounts s)(eb :=
         snd (v72_push V72_ROB_EXT_ENTRIES (v72_new_entry (vs_MetaTail s))
                (ebp, vs_ExtCounts s eb))),
       vs_Meta := Some (meta(vs_MetaTail s :=
          \<lparr>vm_Rip = rip, vm_MicroOpStart = mos, vm_MicroOpCount = moc, vm_BankId = eb,
           vm_SlotInBank = vr_Tail ebp, vm_AllocTick = vs_CycleCounter s\<rparr>)),
       vs_MetaTail := (vs_MetaTail s + 1) mod V72_ROB_MAIN_ENTRIES,
       vs_MetaCount := vs_MetaCount s + 1,
       vs_TotalAllocations := vs_TotalAllocations s + 1\<rparr>)"
  unfolding V72RobAllocateEntry_def assms(1,4) option.case Let_def
  using assms(2,3,5) by (simp split: prod.splits)

lemma v72_invE:
  assumes "v72_inv s"
  obtains mr meta where "vs_MainRob s = Some mr" "vs_Meta s = Some meta"
    "v72_ring_ok V72_ROB_MAIN_ENTRIES (mr, vs_MainCount s)"
    "\<And>t. t < V72_ROB_MAIN_ENTRIES \<Longrightarrow> v72_meta_ok (meta t)"
    "vs_MetaTail s < V72_ROB_MAIN_ENTRIES" "vs_NextExtBank s < V72_ROB_EXT_BANKS"
  using assms by (cases "vs_MainRob s"; cases "vs_Meta s") (auto simp: v72_inv_def)

lemma v72_inv_ext:
  assumes "v72_inv s" "b < V72_ROB_EXT_BANKS"
  obtains r where "vs_ExtBanks s b = Some r" "v72_ring_ok V72_ROB_EXT_ENTRIES (r, vs_ExtCounts s b)"
  using assms by (cases "vs_ExtBanks s b") (auto simp: v72_inv_def)

lemma v72_alloc_cases:
  assumes "v72_inv s"
  obtains
    (main) mr meta where "vs_MainRob s = Some mr" "vs_Meta s = Some meta"
      "vs_MainCount s < of_nat V72_ROB_MAIN_ENTRIES"
  | (ext) mr meta eb ebp where "vs_MainRob s = Some mr" "vs_Meta s = Some meta"
      "\<not> vs_MainCount s < of_nat V72_ROB_MAIN_ENTRIES"
      "rr_scan V72_ROB_EXT_BANKS
         (\<lambda>b. case vs_ExtBanks s b of None \<Rightarrow> True | Some r \<Rightarrow> vr_Count r < V72_ROB_EXT_ENTRIES)
         (vs_NextExtBank s) (vs_NextExtBank s) V72_ROB_EXT_BANKS = Some eb"
      "vs_ExtBanks s eb = Some ebp" "eb < V72_ROB_EXT_BANKS" "vr_Count ebp < V72_ROB_EXT_ENTRIES"
  | (full) "\<not> vs_MainCount s < of_nat V72_ROB_MAIN_ENTRIES"
      "\<And>b. b < V72_ROB_EXT_BANKS \<Longrightarrow>
         (case vs_ExtBanks s b of None \<Rightarrow> False | Some r \<Rightarrow> \<not> vr_Count r < V72_ROB_EXT_ENTRIES)"
      "V72RobAllocateEntry s rip mos moc =
         Some (EFI_OUT_OF_RESOURCES, None, s\<lparr>vs_TotalStalls := vs_TotalStalls s + 1\<rparr>)"
proof -
  obtain mr meta where m: "vs_MainRob s = Some mr" "vs_Meta s = Some meta"
    and nx: "vs_NextExtBank s < V72_ROB_EXT_BANKS"
    using v72_invE [OF assms] by metis
  let ?p = "\<lambda>b. case vs_ExtBanks s b of None \<Rightarrow> True | Some r \<Rightarrow> vr_Count r < V72_ROB_EXT_ENTRIES"
  let ?scan = "rr_scan V72_ROB_EXT_BANKS ?p (vs_NextExtBank s) (vs_NextExtBank s) V72_ROB_EXT_BANKS"
  show ?thesis
  proof (cases "vs_MainCount s < of_nat V72_ROB_MAIN_ENTRIES")
    case True
    with m show ?thesis by (rule main)
  next
    case notroom: False
    show ?thesis
    proof (cases ?scan)
      case None
      have all: "\<forall>b<V72_ROB_EXT_BANKS. \<not> ?p b"
        by (rule rr_scan_None_iff [OF nx, THEN iffD1, OF None])
      show ?thesis
      proof (rule full [OF notroom])
        show "case vs_ExtBanks s b of None \<Rightarrow> False | Some r \<Rightarrow> \<not> vr_Count r < V72_ROB_EXT_ENTRIES"
          if "b < V72_ROB_EXT_BANKS" for b
          using all that by (auto split: option.splits)
        show "V72RobAllocateEntry s rip mos moc =
            Some (EFI_OUT_OF_RESOURCES, None, s\<lparr>vs_TotalStalls := vs_TotalStalls s + 1\<rparr>)"
          unfolding V72RobAllocateEntry_def m(1) None option.case Let_def using notroom by simp
      qed
    next
      case (Some eb)
      have eb: "eb < V72_ROB_EXT_BANKS" "?p eb" using rr_scan_Some [OF Some nx] by auto
      obtain ebp where "vs_ExtBanks s eb = Some ebp" using v72_inv_ext [OF assms eb(1)] by blast
      with eb m notroom Some show ?thesis by (intro ext) auto
    qed
  qed
qed

lemma v72_inv_alloc:
  assumes "v72_inv s"
  shows "\<exists>st tag s'. V72RobAllocateEntry s rip mos moc = Some (st, tag, s') \<and> v72_inv s'"
  using assms
proof (cases rule: v72_alloc_cases [where rip = rip and mos = mos and moc = moc])
  case (main mr meta)
  have ok: "v72_ring_ok V72_ROB_MAIN_ENTRIES (mr, vs_MainCount s)"
    using assms main(1) by (auto simp: v72_inv_def)
  with main(3) have "vr_Count mr < V72_ROB_MAIN_ENTRIES" by (simp add: main_room_iff)
  with ok have "v72_ring_ok V72_ROB_MAIN_ENTRIES
      (v72_push V72_ROB_MAIN_ENTRIES (v72_new_entry (vs_MetaTail s)) (mr, vs_MainCount s))"
    by (simp add: v72_main_push_ok)
  moreover have "vr_Tail mr < V72_ROB_MAIN_ENTRIES"
    using v72_ring_ok_tail [OF ok vmain.cap_pos] by simp
  ultimately show ?thesis
    using assms main vmain.cap_pos
    by (auto simp: v72_alloc_main v72_inv_def v72_meta_ok_def)
next
  case (ext mr meta eb ebp)
  have ok: "v72_ring_ok V72_ROB_EXT_ENTRIES (ebp, vs_ExtCounts s eb)"
    using v72_inv_ext [OF assms ext(6)] ext(5) by auto
  with ext(7) have "v72_ring_ok V72_ROB_EXT_ENTRIES
      (v72_push V72_ROB_EXT_ENTRIES (v72_new_entry (vs_MetaTail s)) (ebp, vs_ExtCounts s eb))"
    by (simp add: v72_ext_push_ok)
  moreover have "vr_Tail ebp < V72_ROB_EXT_ENTRIES"
    using v72_ring_ok_tail [OF ok vext.cap_pos] by simp
  ultimately show ?thesis
    using assms ext vmain.cap_pos
    by (auto simp: v72_alloc_ext [OF ext(1-5)] v72_inv_def v72_meta_ok_def V72_ROB_EXT_BANKS_def)
next
  case full
  with assms show ?thesis by (auto simp: v72_inv_def)
qed

lemma v72_retire_cases:
  assumes "v72_inv s"
  obtains (refused) st where "V72RobRetireEntry s t = Some (st, s)"
  | (main) mr meta where "vs_MainRob s = Some mr" "vs_Meta s = Some meta"
      "t < V72_ROB_MAIN_ENTRIES" "vm_BankId (meta t) = MAIN_BANK_ID" "0 < vr_Count mr"
      "V72RobRetireEntry s t = Some (EFI_SUCCESS,
         s\<lparr>vs_MainRob := Some (fst (v72_drain V72_ROB_MAIN_ENTRIES
               (v72_mark (vm_SlotInBank (meta t)) (mr, vs_MainCount s)))),
           vs_MainCount := snd (v72_drain V72_ROB_MAIN_ENTRIES
               (v72_mark (vm_SlotInBank (meta t)) (mr, vs_MainCount s))),
           vs_TotalRetirements := vs_TotalRetirements s + 1\<rparr>)"
  | (ext) meta eb ebp where "vs_Meta s = Some meta" "t < V72_ROB_MAIN_ENTRIES"
      "vm_BankId (meta t) = eb" "eb < V72_ROB_EXT_BANKS" "vs_ExtBanks s eb = Some ebp"
      "V72RobRetireEntry s t = Some (EFI_SUCCESS,
         s\<lparr>vs_ExtBanks := (vs_ExtBanks s)(eb := Some (fst (v72_drain V72_ROB_EXT_ENTRIES
               (v72_mark (vm_SlotInBank (meta t)) (ebp, vs_ExtCounts s eb))))),
           vs_ExtCounts := (vs_ExtCounts s)(eb := snd (v72_drain V72_ROB_EXT_ENTRIES
               (v72_mark (vm_SlotInBank (meta t)) (ebp, vs_ExtCounts s eb)))),
           vs_TotalRetirements := vs_TotalRetirements s + 1\<rparr>)"
proof -
  obtain mr meta where m: "vs_MainRob s = Some mr" "vs_Meta s = Some meta"
    using v72_invE [OF assms] by metis
  show ?thesis
  proof (cases "t < V72_ROB_MAIN_ENTRIES")
    case False
    with m show ?thesis by (intro refused [of EFI_INVALID_PARAMETER]) (simp add: V72RobRetireEntry_def)
  next
    case t: True
    show ?thesis
    proof (cases "vm_BankId (meta t) = MAIN_BANK_ID")
      case True
      show ?thesis
      proof (cases "vr_Count mr = 0")
        case True
        with m t \<open>vm_BankId (meta t) = MAIN_BANK_ID\<close> show ?thesis
          by (intro refused [of EFI_NOT_READY]) (simp add: V72RobRetireEntry_def Let_def)
      next
        case False
        with m t True show ?thesis
          by (intro main) (simp_all add: V72RobRetireEntry_def Let_def split_def)
      qed
    next
      case False
      have eb: "vm_BankId (meta t) < V72_ROB_EXT_BANKS"
        using assms m t False by (auto simp: v72_inv_def v72_meta_ok_def)
      obtain ebp where ebp: "vs_ExtBanks s (vm_BankId (meta t)) = Some ebp"
        using v72_inv_ext [OF assms eb] by blast
      show ?thesis
      proof (cases "vr_Count ebp = 0")
        case True
        with m t False eb ebp show ?thesis
          by (intro refused [of EFI_NOT_READY]) (simp add: V72RobRetireEntry_def Let_def)
      next
        case nonempty: False
        with m t False eb ebp show ?thesis
          by (intro ext) (simp_all add: V72RobRetireEntry_def Let_def split_def)
      qed
    qed
  qed
qed

lemma v72_inv_retire:
  assumes "v72_inv s"
  shows "\<exists>st s'. V72RobRetireEntry s t = Some (st, s') \<and> v72_inv s'"
  using assms
proof (cases rule: v72_retire_cases [where t = t])
  case (refused st)
  with assms show ?thesis by auto
next
  case (main mr meta)
  have "v72_ring_ok V72_ROB_MAIN_ENTRIES (mr, vs_MainCount s)"
    using assms main(1) by (auto simp: v72_inv_def)
  from v72_main_retire_ok [OF this] main assms show ?thesis by (auto simp: v72_inv_def)
next
  case (ext meta eb ebp)
  have "v72_ring_ok V72_ROB_EXT_ENTRIES (ebp, vs_ExtCounts s eb)"
    using v72_inv_ext [OF assms ext(4)] ext(5) by auto
  from v72_ext_retire_ok [OF this] ext assms show ?thesis by (auto simp: v72_inv_def)
qed

section \<open>Runs\<close>

datatype v72_op = V72Alloc u64 u64 u32 | V72Retire nat | V72Cycle

fun v72_apply :: "v72_op \<Rightarrow> v72_state \<Rightarrow> v72_state option" where
  "v72_apply (V72Alloc rip mos moc) s =
     map_option (\<lambda>(st, tag, s'). s') (V72RobAllocateEntry s rip mos moc)"
| "v72_apply (V72Retire t) s = map_option snd (V72RobRetireEntry s t)"
| "v72_apply V72Cycle s = Some (V72RobTick s)"

fun v72_run :: "v72_op list \<Rightarrow> v72_state \<Rightarrow> v72_state option" where
  "v72_run [] s = Some s"
| "v72_run (x # xs) s = (case v72_apply x s of None \<Rightarrow> None | Some s' \<Rightarrow> v72_run xs s')"

lemma v72_inv_tick: "v72_inv s \<Longrightarrow> v72_inv (V72RobTick s)"
  by (simp add: v72_inv_def V72RobTick_def)

lemma v72_apply_inv:
  assumes "v72_inv s"
  shows "\<exists>s'. v72_apply x s = Some s' \<and> v72_inv s'"
proof (cases x)
  case (V72Alloc rip mos moc)
  then show ?thesis using v72_inv_alloc [OF assms, of rip mos moc] by force
next
  case (V72Retire t)
  then show ?thesis using v72_inv_retire [OF assms, of t] by force
next
  case V72Cycle
  then show ?thesis using v72_inv_tick [OF assms] by simp
qed

lemma v72_inv_step: "v72_inv s \<Longrightarrow> v72_apply x s = Some s' \<Longrightarrow> v72_inv s'"
  using v72_apply_inv [of s x] by auto

lemma v72_run_inv: "v72_inv s \<Longrightarrow> \<exists>s'. v72_run ops s = Some s' \<and> v72_inv s'"
proof (induction ops arbitrary: s)
  case Nil
  then show ?case by simp
next
  case (Cons x ops)
  then show ?case using v72_apply_inv [of s x] by fastforce
qed

lemma v72_run_append:
  "v72_run (xs @ ys) s = (case v72_run xs s of None \<Rightarrow> None | Some s' \<Rightarrow> v72_run ys s')"
  by (induction xs arbitrary: s) (auto split: option.splits)

text \<open>The state a successful initialisation leaves, whatever the statics held before.\<close>

definition v72_ready :: "v72_state \<Rightarrow> v72_state" where
  "v72_ready s = snd (V72RobDistributorInit True (\<lambda>_. True) True s)"

lemma v72_init_banks_ok:
  "v72_init_banks (\<lambda>_. True) is s =
     (True, s\<lparr>vs_ExtBanks := (\<lambda>b. if b \<in> set is then Some zero_v72_ring else vs_ExtBanks s b),
              vs_ExtCounts := (\<lambda>b. if b \<in> set is then 0 else vs_ExtCounts s b)\<rparr>)"
proof (induction "is" arbitrary: s)
  case Nil
  show ?case by simp
next
  case (Cons i "is")
  have "(\<lambda>b. if b \<in> set is then Some zero_v72_ring else ((vs_ExtBanks s)(i := Some zero_v72_ring)) b)
      = (\<lambda>b. if b \<in> set (i # is) then Some zero_v72_ring else vs_ExtBanks s b)"
    and "(\<lambda>b. if b \<in> set is then 0 else ((vs_ExtCounts s)(i := 0)) b)
      = (\<lambda>b. if b \<in> set (i # is) then 0 else vs_ExtCounts s b)"
    by auto
  then show ?case by (simp add: Cons.IH cong: if_cong)
qed

lemma v72_ready_fields:
  "vs_MainRob (v72_ready s) = Some zero_v72_ring"
  "vs_Meta (v72_ready s) = Some (\<lambda>_. zero_v72_meta)"
  "b < V72_ROB_EXT_BANKS \<Longrightarrow> vs_ExtBanks (v72_ready s) b = Some zero_v72_ring"
  "b < V72_ROB_EXT_BANKS \<Longrightarrow> vs_ExtCounts (v72_ready s) b = 0"
  "vs_MainCount (v72_ready s) = 0" "vs_MetaTail (v72_ready s) = 0"
  "vs_NextExtBank (v72_ready s) = 0"
  by (simp_all add: v72_ready_def V72RobDistributorInit_def v72_init_banks_ok Let_def)

lemma v72_ready_inv: "v72_inv (v72_ready s)"
  by (auto simp: v72_inv_def v72_ready_fields v72_ring_ok_def ring_idx_def zero_v72_ring_def
      V72_ROB_MAIN_ENTRIES_def V72_ROB_EXT_BANKS_def V72_ROB_EXT_ENTRIES_def v72_meta_ok_def
      zero_v72_meta_def)

section \<open>Filling the main ring\<close>

text \<open>The state after \<open>n\<close> allocations into a fresh buffer, \<open>n\<close> at most 1568.\<close>

definition v72_filled :: "nat \<Rightarrow> v72_state \<Rightarrow> bool" where
  "v72_filled n s \<longleftrightarrow> v72_inv s \<and> vs_MetaTail s = n mod V72_ROB_MAIN_ENTRIES \<and>
     vs_NextExtBank s = 0 \<and> (\<forall>b<V72_ROB_EXT_BANKS. vs_ExtBanks s b = Some zero_v72_ring) \<and>
     (\<exists>mr meta. vs_MainRob s = Some mr \<and> vs_Meta s = Some meta \<and>
        vr_Head mr = 0 \<and> vr_Count mr = n \<and>
        (\<forall>i<n. ve_State (vr_Entries mr i) = ROB_ENTRY_ALLOCATED \<and>
               ve_ReorderTag (vr_Entries mr i) = i \<and>
               vm_BankId (meta i) = MAIN_BANK_ID \<and> vm_SlotInBank (meta i) = i))"

lemma v72_push_fields:
  "vr_Head (fst (v72_push cap e rc)) = vr_Head (fst rc)"
  "vr_Count (fst (v72_push cap e rc)) = Suc (vr_Count (fst rc))"
  "vr_Entries (fst (v72_push cap e rc)) = (vr_Entries (fst rc))(vr_Tail (fst rc) := e)"
  by (simp_all add: v72_push_def Let_def split: prod.splits)

lemma v72_filled_step:
  assumes "v72_filled n s" "n < V72_ROB_MAIN_ENTRIES"
  shows "\<exists>s'. v72_apply (V72Alloc rip mos moc) s = Some s' \<and> v72_filled (Suc n) s'"
proof -
  obtain mr meta where m: "vs_MainRob s = Some mr" "vs_Meta s = Some meta" "vr_Head mr = 0"
      "vr_Count mr = n"
    and es: "\<And>i. i < n \<Longrightarrow> ve_State (vr_Entries mr i) = ROB_ENTRY_ALLOCATED \<and>
        ve_ReorderTag (vr_Entries mr i) = i \<and>
        vm_BankId (meta i) = MAIN_BANK_ID \<and> vm_SlotInBank (meta i) = i"
    using assms(1) by (auto simp: v72_filled_def)
  have inv: "v72_inv s" and tag: "vs_MetaTail s = n" and nx: "vs_NextExtBank s = 0"
    and ext: "\<forall>b<V72_ROB_EXT_BANKS. vs_ExtBanks s b = Some zero_v72_ring"
    using assms by (auto simp: v72_filled_def)
  have ok: "v72_ring_ok V72_ROB_MAIN_ENTRIES (mr, vs_MainCount s)"
    using inv m(1) by (simp add: v72_inv_def)
  then have tail: "vr_Tail mr = n"
    using m(3,4) assms(2) by (simp add: v72_ring_ok_def ring_idx_def)
  have room: "vs_MainCount s < of_nat V72_ROB_MAIN_ENTRIES"
    using main_room_iff [OF ok] m(4) assms(2) by simp
  obtain s' where s': "v72_apply (V72Alloc rip mos moc) s = Some s'" "v72_inv s'"
    using v72_apply_inv [OF inv] by blast
  have "n < 2048" using assms(2) by (simp add: V72_ROB_MAIN_ENTRIES_def)
  with s' show ?thesis
    using es ext nx
    by (auto simp: v72_filled_def v72_alloc_main [OF m(1,2) room] v72_push_fields m tag tail
        v72_new_entry_def less_Suc_eq)
qed

lemma v72_fill:
  "n \<le> V72_ROB_MAIN_ENTRIES \<Longrightarrow>
   \<exists>s'. v72_run (replicate n (V72Alloc rip mos moc)) (v72_ready s) = Some s' \<and> v72_filled n s'"
proof (induction n)
  case 0
  have "v72_filled 0 (v72_ready s)"
    by (auto simp: v72_filled_def v72_ready_inv v72_ready_fields zero_v72_ring_def)
  then show ?case by simp
next
  case (Suc n)
  then obtain s1 where s1: "v72_run (replicate n (V72Alloc rip mos moc)) (v72_ready s) = Some s1"
    "v72_filled n s1" by auto
  obtain s2 where "v72_apply (V72Alloc rip mos moc) s1 = Some s2" "v72_filled (Suc n) s2"
    using v72_filled_step [OF s1(2)] Suc.prems by fastforce
  moreover have "replicate (Suc n) (V72Alloc rip mos moc)
      = replicate n (V72Alloc rip mos moc) @ [V72Alloc rip mos moc]"
    by (simp add: replicate_append_same)
  ultimately show ?case using s1(1) by (simp add: v72_run_append del: replicate_Suc v72_apply.simps)
qed

section \<open>An entry no tag names any more\<close>

text \<open>The main ring is full, its oldest entry is allocated and no metadata record points to
  that entry. Every operation keeps this.\<close>

definition v72_stuck :: "v72_state \<Rightarrow> bool" where
  "v72_stuck s \<longleftrightarrow> v72_inv s \<and>
     (\<exists>mr meta. vs_MainRob s = Some mr \<and> vs_Meta s = Some meta \<and>
        vr_Count mr = V72_ROB_MAIN_ENTRIES \<and>
        ve_State (vr_Entries mr (vr_Head mr)) = ROB_ENTRY_ALLOCATED \<and>
        (\<forall>t<V72_ROB_MAIN_ENTRIES.
           vm_BankId (meta t) = MAIN_BANK_ID \<longrightarrow> vm_SlotInBank (meta t) \<noteq> vr_Head mr))"

lemma v72_full_no_room:
  assumes "v72_inv s" "vs_MainRob s = Some mr" "vr_Count mr = V72_ROB_MAIN_ENTRIES"
  shows "\<not> vs_MainCount s < of_nat V72_ROB_MAIN_ENTRIES"
  using assms main_room_iff [of mr "vs_MainCount s"] by (simp add: v72_inv_def)

lemma main_not_ext: "b < V72_ROB_EXT_BANKS \<Longrightarrow> b \<noteq> MAIN_BANK_ID"
  by (simp add: V72_ROB_EXT_BANKS_def MAIN_BANK_ID_def)

lemma v72_stuck_alloc:
  assumes "v72_stuck s" "v72_apply (V72Alloc rip mos moc) s = Some s'"
  shows "v72_stuck s'"
proof -
  have inv: "v72_inv s" using assms(1) by (simp add: v72_stuck_def)
  have inv': "v72_inv s'" using inv assms(2) by (rule v72_inv_step)
  show ?thesis
    using inv
  proof (cases rule: v72_alloc_cases [where rip = rip and mos = mos and moc = moc])
    case (main mr meta)
    then show ?thesis using assms(1) v72_full_no_room [OF inv] by (auto simp: v72_stuck_def)
  next
    case (ext mr meta eb ebp)
    then show ?thesis
      using assms inv' main_not_ext [OF ext(6)]
      by (auto simp: v72_alloc_ext [OF ext(1-5)] v72_stuck_def)
  next
    case full
    with assms inv' show ?thesis by (auto simp: v72_stuck_def)
  qed
qed

lemma v72_drain_blocked:
  assumes "ve_State (vr_Entries (fst rc) (vr_Head (fst rc))) = ROB_ENTRY_ALLOCATED"
    "i \<noteq> vr_Head (fst rc)"
  shows "v72_drain cap (v72_mark i rc) = v72_mark i rc"
  using assms
  by (subst v72_drain.simps) (auto simp: v72_mark_def Let_def split: prod.splits)

lemma v72_stuck_retire:
  assumes "v72_stuck s" "v72_apply (V72Retire t) s = Some s'"
  shows "v72_stuck s'"
proof -
  have inv: "v72_inv s" using assms(1) by (simp add: v72_stuck_def)
  have inv': "v72_inv s'" using inv assms(2) by (rule v72_inv_step)
  show ?thesis
    using inv
  proof (cases rule: v72_retire_cases [where t = t])
    case (refused st)
    with assms show ?thesis by simp
  next
    case (main mr meta)
    then have ne: "vm_SlotInBank (meta t) \<noteq> vr_Head mr"
      using assms(1) by (auto simp: v72_stuck_def)
    from main have "v72_drain V72_ROB_MAIN_ENTRIES
        (v72_mark (vm_SlotInBank (meta t)) (mr, vs_MainCount s))
        = v72_mark (vm_SlotInBank (meta t)) (mr, vs_MainCount s)"
      using assms(1) by (intro v72_drain_blocked) (auto simp: v72_stuck_def)
    with main(1,2,6) assms(2)
    have s': "vs_MainRob s' = Some (fst (v72_mark (vm_SlotInBank (meta t)) (mr, vs_MainCount s)))"
      "vs_Meta s' = Some meta"
      by auto
    show ?thesis
      using assms(1) main(1,2) inv' ne
      by (simp add: v72_stuck_def s' v72_mark_def)
  next
    case (ext meta eb ebp)
    with assms inv' show ?thesis by (auto simp: v72_stuck_def)
  qed
qed

lemma v72_stuck_run:
  "v72_stuck s \<Longrightarrow> \<exists>s'. v72_run ops s = Some s' \<and> v72_stuck s'"
proof (induction ops arbitrary: s)
  case Nil
  then show ?case by simp
next
  case (Cons x ops)
  have inv: "v72_inv s" using Cons.prems by (simp add: v72_stuck_def)
  obtain s1 where s1: "v72_apply x s = Some s1" "v72_inv s1" using v72_apply_inv [OF inv] by blast
  have "v72_stuck s1"
  proof (cases x)
    case (V72Alloc rip mos moc)
    with s1 Cons.prems v72_stuck_alloc show ?thesis by blast
  next
    case (V72Retire t)
    with s1 Cons.prems v72_stuck_retire show ?thesis by blast
  next
    case V72Cycle
    with s1 Cons.prems show ?thesis by (auto simp: v72_stuck_def V72RobTick_def)
  qed
  with s1 Cons.IH [of s1] show ?case by simp
qed

lemma v72_spill_stuck:
  assumes "v72_filled V72_ROB_MAIN_ENTRIES s"
  shows "\<exists>s'. v72_apply (V72Alloc rip mos moc) s = Some s' \<and> v72_stuck s'"
proof -
  obtain mr meta where m: "vs_MainRob s = Some mr" "vs_Meta s = Some meta" "vr_Head mr = 0"
      "vr_Count mr = V72_ROB_MAIN_ENTRIES"
    and es: "\<And>i. i < V72_ROB_MAIN_ENTRIES \<Longrightarrow> ve_State (vr_Entries mr i) = ROB_ENTRY_ALLOCATED \<and>
        vm_BankId (meta i) = MAIN_BANK_ID \<and> vm_SlotInBank (meta i) = i"
    using assms by (auto simp: v72_filled_def)
  have inv: "v72_inv s" and tag: "vs_MetaTail s = 0" and nx: "vs_NextExtBank s = 0"
    and ext: "\<And>b. b < V72_ROB_EXT_BANKS \<Longrightarrow> vs_ExtBanks s b = Some zero_v72_ring"
    using assms by (auto simp: v72_filled_def)
  have b0: "0 < V72_ROB_EXT_BANKS" by (simp add: V72_ROB_EXT_BANKS_def)
  have scan: "rr_scan V72_ROB_EXT_BANKS
      (\<lambda>b. case vs_ExtBanks s b of None \<Rightarrow> True | Some r \<Rightarrow> vr_Count r < V72_ROB_EXT_ENTRIES)
      (vs_NextExtBank s) (vs_NextExtBank s) V72_ROB_EXT_BANKS = Some 0"
    unfolding nx using b0
    by (intro rr_scan_first) (simp_all add: ext zero_v72_ring_def V72_ROB_EXT_ENTRIES_def)
  note alloc = v72_alloc_ext [OF m(1,2) v72_full_no_room [OF inv m(1,4)] scan ext [OF b0],
      of rip mos moc]
  obtain s' where s': "v72_apply (V72Alloc rip mos moc) s = Some s'" "v72_inv s'"
    using v72_apply_inv [OF inv] by blast
  have "v72_stuck s'"
    using s' es vmain.cap_pos main_not_ext [OF b0]
    by (auto simp: alloc v72_stuck_def m tag)
  with s'(1) show ?thesis by blast
qed

section \<open>Properties\<close>

text \<open>C36: After a successful \<open>V72RobDistributorInit\<close>, no sequence of allocations, retirements (of
  any tag) and ticks makes the v7.2 code dereference a NULL pointer, and afterwards every
  ring index is inside its array, each ring's count agrees with its head, its tail and the
  global that shadows it, and every metadata record names a slot that exists.\<close>

theorem v72_run_safe: "\<exists>s'. v72_run ops (v72_ready s) = Some s' \<and> v72_inv s'"
  by (rule v72_run_inv [OF v72_ready_inv])

text \<open>The reorder tags wrap after 1568 allocations while 67102 entries can be live. The first
  allocation that spills to an extended bank reuses tag 0, which still names the oldest
  entry of the main ring, so that entry can no longer be retired: whatever operations follow,
  the main ring stays full with its oldest entry allocated.\<close>

theorem v72_spill_blocks_main_ring:
  "\<exists>s' mr. v72_run (replicate (Suc V72_ROB_MAIN_ENTRIES) (V72Alloc rip mos moc) @ ops)
       (v72_ready s) = Some s' \<and>
     vs_MainRob s' = Some mr \<and> vr_Count mr = V72_ROB_MAIN_ENTRIES \<and>
     ve_State (vr_Entries mr (vr_Head mr)) = ROB_ENTRY_ALLOCATED"
proof -
  obtain s1 where s1: "v72_run (replicate V72_ROB_MAIN_ENTRIES (V72Alloc rip mos moc)) (v72_ready s)
      = Some s1" "v72_filled V72_ROB_MAIN_ENTRIES s1"
    using v72_fill [OF order_refl] by blast
  obtain s2 where s2: "v72_apply (V72Alloc rip mos moc) s1 = Some s2" "v72_stuck s2"
    using v72_spill_stuck [OF s1(2)] by blast
  obtain s3 where s3: "v72_run ops s2 = Some s3" "v72_stuck s3"
    using v72_stuck_run [OF s2(2)] by blast
  have "replicate (Suc V72_ROB_MAIN_ENTRIES) (V72Alloc rip mos moc) @ ops =
      replicate V72_ROB_MAIN_ENTRIES (V72Alloc rip mos moc) @ V72Alloc rip mos moc # ops"
    by (simp only: replicate_Suc replicate_app_Cons_same append_Cons append_Nil)
  with s1(1) s2(1) s3 show ?thesis
    by (auto simp: v72_run_append v72_stuck_def simp del: v72_apply.simps replicate_Suc)
qed

text \<open>Unlike the v7.1 buffer, the v7.2 one accepts the same retirement twice: after two
  allocations, retiring tag 1 twice succeeds both times and counts two retirements although
  both entries still occupy the ring.\<close>

theorem v72_double_retire_counted:
  "\<exists>s'. v72_run [V72Alloc r0 m0 c0, V72Alloc r1 m1 c1, V72Retire 1, V72Retire 1] (v72_ready s)
      = Some s' \<and> vs_TotalAllocations s' = 2 \<and> vs_TotalRetirements s' = 2 \<and>
     V72RobGetActiveCount s' = 2"
proof -
  have tot: "vs_TotalAllocations (v72_ready s) = 0" "vs_TotalRetirements (v72_ready s) = 0"
    by (simp_all add: v72_ready_def V72RobDistributorInit_def v72_init_banks_ok Let_def)
  have "[0..<7] = [0, 1, 2, 3, 4, 5, 6::nat]" by (simp add: upt_rec)
  then have act: "V72RobGetActiveCount t = vr_Count mr"
    if "vs_MainRob t = Some mr" "\<And>b. b < 7 \<Longrightarrow> vs_ExtBanks t b = Some zero_v72_ring" for t mr
    using that by (simp add: V72RobGetActiveCount_def V72_ROB_EXT_BANKS_def zero_v72_ring_def)
  show ?thesis
    using v72_ready_fields(3) [of _ s, unfolded V72_ROB_EXT_BANKS_def]
    by (simp add: V72RobAllocateEntry_def V72RobRetireEntry_def v72_ready_fields tot Let_def
        v72_push_def v72_mark_def v72_drain.simps v72_new_entry_def zero_v72_ring_def
        V72_ROB_MAIN_ENTRIES_def act)
qed

end
