(* ===== verification/FirstMatch.thy ===== *)
theory FirstMatch
  imports Prelude
begin

text \<open>
  The interface of the bounded tables that are filled once and searched from the start: the
  shadowed model-specific registers of \<open>hwcompat/msr/msrshadow.c\<close> and the CPUID overrides of
  \<open>hwcompat/cpuid/cpuidspoof.c\<close>. Both are a static array with a count; adding to a full
  table is silently ignored and a search returns the first match. A table is modelled by the
  list of the entries below the count.
\<close>

locale first_match_table =
  fixes cap :: nat
    and matches :: "'k \<Rightarrow> 'e \<Rightarrow> bool"
    and add :: "'e \<Rightarrow> 'e list \<Rightarrow> 'e list"
    and search :: "'k \<Rightarrow> 'e list \<Rightarrow> nat option"
  assumes add_law: "add e t = (if length t < cap then t @ [e] else t)"
    and search_law: "search k t = first_index (matches k) t"
begin

definition lookup :: "'k \<Rightarrow> 'e list \<Rightarrow> 'e option" where
  "lookup k t = map_option (\<lambda>i. t ! i) (search k t)"

lemma add_bounded: "length t \<le> cap \<Longrightarrow> length (add e t) \<le> cap"
  by (simp add: add_law)

lemma adds_room:
  "length t + length es \<le> cap \<Longrightarrow> fold add es t = t @ es"
  by (induction es arbitrary: t) (simp_all add: add_law)

lemma adds_bounded: "length t \<le> cap \<Longrightarrow> length (fold add es t) \<le> cap"
  by (induction es arbitrary: t) (simp_all add: add_bounded)

lemma adds_take: "length t \<le> cap \<Longrightarrow> fold add es t = t @ take (cap - length t) es"
proof (induction es arbitrary: t)
  case (Cons e es)
  show ?case
  proof (cases "length t < cap")
    case True
    then have "take (cap - length t) (e # es) = e # take (cap - Suc (length t)) es"
      by (simp add: take_Cons')
    with True Cons show ?thesis by (simp add: add_law)
  qed (use Cons in \<open>simp_all add: add_law\<close>)
qed simp

lemma lookup_Nil [simp]: "lookup k [] = None"
  by (simp add: lookup_def search_law)

lemma lookup_Cons: "lookup k (e # t) = (if matches k e then Some e else lookup k t)"
  by (simp add: lookup_def search_law option.map_comp comp_def)

lemma lookup_find: "lookup k t = find (matches k) t"
  by (induction t) (simp_all add: lookup_Cons)

lemma lookup_append:
  "lookup k (t @ u) = (case lookup k t of Some e \<Rightarrow> Some e | None \<Rightarrow> lookup k u)"
  by (induction t) (simp_all add: lookup_Cons)

lemma lookup_None: "lookup k t = None \<longleftrightarrow> (\<forall>e\<in>set t. \<not> matches k e)"
  by (simp add: lookup_def search_law first_index_None)

lemma lookup_Some: "lookup k t = Some e \<Longrightarrow> e \<in> set t \<and> matches k e"
  by (auto simp: lookup_def search_law dest: first_index_Some)

lemma search_Some:
  "search k t = Some i \<Longrightarrow> i < length t \<and> matches k (t ! i) \<and> lookup k t = Some (t ! i)"
  by (auto simp: lookup_def search_law dest: first_index_Some)

lemma search_None: "search k t = None \<longleftrightarrow> lookup k t = None"
  by (simp add: lookup_def)

text \<open>An entry already found is never hidden by a later addition.\<close>

lemma lookup_add_old: "lookup k t = Some e \<Longrightarrow> lookup k (add e' t) = Some e"
  by (simp add: add_law lookup_append)

lemma lookup_adds_old: "lookup k t = Some e \<Longrightarrow> lookup k (fold add es t) = Some e"
  by (induction es arbitrary: t) (simp_all add: lookup_add_old)

lemma lookup_add_new:
  "lookup k t = None \<Longrightarrow> matches k e \<Longrightarrow> length t < cap \<Longrightarrow> lookup k (add e t) = Some e"
  by (simp add: add_law lookup_append lookup_Cons)

lemma lookup_add_other: "\<not> matches k e \<Longrightarrow> lookup k (add e t) = lookup k t"
  by (simp add: add_law lookup_append lookup_Cons split: option.splits)

lemma lookup_adds_other:
  "(\<And>e. e \<in> set es \<Longrightarrow> \<not> matches k e) \<Longrightarrow> lookup k (fold add es t) = lookup k t"
  by (induction es arbitrary: t) (simp_all add: lookup_add_other)

text \<open>Overwriting the found entry in place with one that answers to the same key.\<close>

lemma lookup_overwrite:
  "search k t = Some i \<Longrightarrow> matches k e \<Longrightarrow> lookup k (t[i := e]) = Some e"
proof (induction t arbitrary: i)
  case (Cons x t)
  show ?case
  proof (cases "matches k x")
    case True
    with Cons.prems(1) have "i = 0" by (simp add: search_law)
    with Cons.prems(2) show ?thesis by (simp add: lookup_Cons)
  next
    case False
    with Cons.prems(1) obtain j where "search k t = Some j" "i = Suc j"
      by (auto simp: search_law)
    with False Cons show ?thesis by (simp add: lookup_Cons)
  qed
qed (simp add: search_law)

lemma lookup_overwrite_other:
  assumes "i < length t" "\<not> matches k (t ! i)" "\<not> matches k e"
  shows "lookup k (t[i := e]) = lookup k t"
  using assms
proof (induction t arbitrary: i)
  case (Cons x t)
  then show ?case by (cases i) (simp_all add: lookup_Cons)
qed simp

end

end
