(* ===== verification/Hardware.thy ===== *)
theory Hardware
  imports Prelude
begin

text \<open>
  What the code uses of the processor. The instructions are not under src/ (they are the
  assembly helpers of the UEFI library), so they are parameters: CPUID is a function of its
  leaf (and sub-leaf), the model-specific registers are read and written in a hardware
  state \<open>'h\<close> of which nothing is assumed, and a theorem that needs a law of the registers
  names it (\<open>msr_memory\<close>).
\<close>

record cpuid_regs =
  cr_Eax :: u32
  cr_Ebx :: u32
  cr_Ecx :: u32
  cr_Edx :: u32

definition zero_regs :: cpuid_regs where
  "zero_regs = \<lparr>cr_Eax = 0, cr_Ebx = 0, cr_Ecx = 0, cr_Edx = 0\<rparr>"

section \<open>The vendor string of leaf 0\<close>

text \<open>The code stores EBX, EDX and ECX into a byte array (the processor is little-endian),
  ends it with a zero and compares it as a C string.\<close>

definition u32_bytes :: "u32 \<Rightarrow> u8 list" where
  "u32_bytes w = [ucast w, ucast (drop_bit 8 w), ucast (drop_bit 16 w), ucast (drop_bit 24 w)]"

definition vendor_string :: "cpuid_regs \<Rightarrow> u8 list" where
  "vendor_string r = u32_bytes (cr_Ebx r) @ u32_bytes (cr_Edx r) @ u32_bytes (cr_Ecx r) @ [0]"

definition c_string :: "u8 list \<Rightarrow> u8 list" where
  "c_string bs = takeWhile (\<lambda>b. b \<noteq> 0) bs"

definition ascii_bytes :: "string \<Rightarrow> u8 list" where
  "ascii_bytes s = map (\<lambda>c. of_nat (of_char c)) s"

definition IS_INTEL :: "u8 list \<Rightarrow> bool" where
  "IS_INTEL v \<longleftrightarrow> c_string v = ascii_bytes ''GenuineIntel''"

definition IS_AMD :: "u8 list \<Rightarrow> bool" where
  "IS_AMD v \<longleftrightarrow> c_string v = ascii_bytes ''AuthenticAMD''"

lemma not_intel_and_amd: "\<not> (IS_INTEL v \<and> IS_AMD v)"
  by (auto simp: IS_INTEL_def IS_AMD_def ascii_bytes_def)

section \<open>Registers that behave like memory\<close>

text \<open>A read returns what was last written and a write changes no other register.\<close>

definition msr_memory :: "(u32 \<Rightarrow> 'h \<Rightarrow> u64) \<Rightarrow> (u32 \<Rightarrow> u64 \<Rightarrow> 'h \<Rightarrow> 'h) \<Rightarrow> bool" where
  "msr_memory rd wr \<longleftrightarrow>
     (\<forall>i v h. rd i (wr i v h) = v) \<and> (\<forall>i j v h. j \<noteq> i \<longrightarrow> rd j (wr i v h) = rd j h)"

lemma msr_memory_other: "msr_memory rd wr \<Longrightarrow> j \<noteq> i \<Longrightarrow> rd j (wr i v h) = rd j h"
  by (simp add: msr_memory_def)

lemma msr_memory_fun: "msr_memory (\<lambda>i h. h i) (\<lambda>i v h. h(i := v))"
  by (simp add: msr_memory_def)

end
