(* ===== verification/MsrShadow.thy ===== *)
theory MsrShadow
  imports FirstMatch Hardware
begin

text \<open>
  The shadow of the model-specific registers, \<open>hwcompat/msr/msrshadow.c\<close>: a static table of
  at most 256 registers that the guest reads and writes instead of the hardware. The table
  \<open>gMsrShadowTable\<close> with \<open>gMsrShadowCount\<close> is the list of its first \<open>gMsrShadowCount\<close>
  entries; the pointer \<open>FindShadowMsr\<close> returns is an index into it. \<open>AsmReadMsr64\<close> and
  \<open>AsmWriteMsr64\<close> are the parameters \<open>rd\<close> and \<open>wr\<close> on a hardware state.
\<close>

section \<open>The table\<close>

definition MAX_SHADOW_MSRS :: nat where "MAX_SHADOW_MSRS = 256"

record msr_entry =
  ms_Index :: u32
  ms_Value :: u64
  ms_IsShadowed :: bool
  ms_IsReadOnly :: bool
  ms_PassthroughOnWrite :: bool

type_synonym msr_table = "msr_entry list"

definition msr_matches :: "u32 \<Rightarrow> msr_entry \<Rightarrow> bool" where
  "msr_matches idx e \<longleftrightarrow> ms_Index e = idx \<and> ms_IsShadowed e"

definition FindShadowMsr :: "u32 \<Rightarrow> msr_table \<Rightarrow> nat option" where
  "FindShadowMsr idx t = first_index (msr_matches idx) t"

text \<open>\<open>AddShadowMsr\<close> takes its four arguments as the entry they make (\<open>shadow_entry\<close>).\<close>

definition shadow_entry :: "u32 \<Rightarrow> u64 \<Rightarrow> bool \<Rightarrow> bool \<Rightarrow> msr_entry" where
  "shadow_entry idx v ro pt =
     \<lparr>ms_Index = idx, ms_Value = v, ms_IsShadowed = True, ms_IsReadOnly = ro,
      ms_PassthroughOnWrite = pt\<rparr>"

definition AddShadowMsr :: "msr_entry \<Rightarrow> msr_table \<Rightarrow> msr_table" where
  "AddShadowMsr e t = (if length t < MAX_SHADOW_MSRS then t @ [e] else t)"

interpretation msrs: first_match_table MAX_SHADOW_MSRS msr_matches AddShadowMsr FindShadowMsr
  by unfold_locales (simp_all add: AddShadowMsr_def FindShadowMsr_def)

section \<open>Register numbers\<close>

definition MSR_IA32_TSC :: u32 where "MSR_IA32_TSC = 0x10"
definition MSR_IA32_APIC_BASE :: u32 where "MSR_IA32_APIC_BASE = 0x1B"
definition MSR_IA32_TSC_ADJUST :: u32 where "MSR_IA32_TSC_ADJUST = 0x3B"
definition MSR_IA32_MTRR_CAP :: u32 where "MSR_IA32_MTRR_CAP = 0xFE"
definition MSR_IA32_SYSENTER_CS :: u32 where "MSR_IA32_SYSENTER_CS = 0x174"
definition MSR_IA32_SYSENTER_ESP :: u32 where "MSR_IA32_SYSENTER_ESP = 0x175"
definition MSR_IA32_SYSENTER_EIP :: u32 where "MSR_IA32_SYSENTER_EIP = 0x176"
definition MSR_IA32_MCG_CAP :: u32 where "MSR_IA32_MCG_CAP = 0x179"
definition MSR_IA32_MCG_STATUS :: u32 where "MSR_IA32_MCG_STATUS = 0x17A"
definition MSR_IA32_MCG_CTL :: u32 where "MSR_IA32_MCG_CTL = 0x17B"
definition MSR_IA32_PAT :: u32 where "MSR_IA32_PAT = 0x277"
definition MSR_IA32_MTRR_DEF_TYPE :: u32 where "MSR_IA32_MTRR_DEF_TYPE = 0x2FF"
definition MSR_IA32_MTRR_PHYSBASE0 :: u32 where "MSR_IA32_MTRR_PHYSBASE0 = 0x200"
definition MSR_IA32_MTRR_PHYSMASK0 :: u32 where "MSR_IA32_MTRR_PHYSMASK0 = 0x201"
definition MSR_IA32_EFER :: u32 where "MSR_IA32_EFER = 0xC0000080"
definition MSR_IA32_STAR :: u32 where "MSR_IA32_STAR = 0xC0000081"
definition MSR_IA32_LSTAR :: u32 where "MSR_IA32_LSTAR = 0xC0000082"
definition MSR_IA32_CSTAR :: u32 where "MSR_IA32_CSTAR = 0xC0000083"
definition MSR_IA32_FMASK :: u32 where "MSR_IA32_FMASK = 0xC0000084"
definition MSR_IA32_FS_BASE :: u32 where "MSR_IA32_FS_BASE = 0xC0000100"
definition MSR_IA32_GS_BASE :: u32 where "MSR_IA32_GS_BASE = 0xC0000101"
definition MSR_IA32_KERNEL_GS_BASE :: u32 where "MSR_IA32_KERNEL_GS_BASE = 0xC0000102"

lemmas msr_numbers = MSR_IA32_TSC_def MSR_IA32_APIC_BASE_def MSR_IA32_TSC_ADJUST_def
  MSR_IA32_MTRR_CAP_def MSR_IA32_SYSENTER_CS_def MSR_IA32_SYSENTER_ESP_def
  MSR_IA32_SYSENTER_EIP_def MSR_IA32_MCG_CAP_def MSR_IA32_MCG_STATUS_def MSR_IA32_MCG_CTL_def
  MSR_IA32_PAT_def MSR_IA32_MTRR_DEF_TYPE_def MSR_IA32_MTRR_PHYSBASE0_def
  MSR_IA32_MTRR_PHYSMASK0_def MSR_IA32_EFER_def MSR_IA32_STAR_def MSR_IA32_LSTAR_def
  MSR_IA32_CSTAR_def MSR_IA32_FMASK_def MSR_IA32_FS_BASE_def MSR_IA32_GS_BASE_def
  MSR_IA32_KERNEL_GS_BASE_def

section \<open>Operations\<close>

text \<open>The entries \<open>MsrShadowInit\<close> adds, in its order: first the fixed ones, then the capability
  register of the variable-range memory types and one pair per range, ten at most.\<close>

definition msr_fixed_entries :: "(u32 \<Rightarrow> u64) \<Rightarrow> msr_entry list" where
  "msr_fixed_entries rd =
     [shadow_entry MSR_IA32_TSC 0 False False,
      shadow_entry MSR_IA32_TSC_ADJUST 0 False True,
      shadow_entry MSR_IA32_APIC_BASE (rd MSR_IA32_APIC_BASE) False True,
      shadow_entry MSR_IA32_SYSENTER_CS (rd MSR_IA32_SYSENTER_CS) False True,
      shadow_entry MSR_IA32_SYSENTER_ESP (rd MSR_IA32_SYSENTER_ESP) False True,
      shadow_entry MSR_IA32_SYSENTER_EIP (rd MSR_IA32_SYSENTER_EIP) False True,
      shadow_entry MSR_IA32_STAR (rd MSR_IA32_STAR) False True,
      shadow_entry MSR_IA32_LSTAR (rd MSR_IA32_LSTAR) False True,
      shadow_entry MSR_IA32_CSTAR (rd MSR_IA32_CSTAR) False True,
      shadow_entry MSR_IA32_FMASK (rd MSR_IA32_FMASK) False True,
      shadow_entry MSR_IA32_FS_BASE (rd MSR_IA32_FS_BASE) False True,
      shadow_entry MSR_IA32_GS_BASE (rd MSR_IA32_GS_BASE) False True,
      shadow_entry MSR_IA32_KERNEL_GS_BASE (rd MSR_IA32_KERNEL_GS_BASE) False True,
      shadow_entry MSR_IA32_EFER (rd MSR_IA32_EFER) False True,
      shadow_entry MSR_IA32_MCG_CAP (rd MSR_IA32_MCG_CAP) True False,
      shadow_entry MSR_IA32_MCG_STATUS 0 False True,
      shadow_entry MSR_IA32_MCG_CTL (rd MSR_IA32_MCG_CTL) False True,
      shadow_entry MSR_IA32_PAT (rd MSR_IA32_PAT) False True,
      shadow_entry MSR_IA32_MTRR_DEF_TYPE (rd MSR_IA32_MTRR_DEF_TYPE) False True]"

definition msr_mtrr_pair :: "(u32 \<Rightarrow> u64) \<Rightarrow> nat \<Rightarrow> msr_entry list" where
  "msr_mtrr_pair rd i =
     (let base = MSR_IA32_MTRR_PHYSBASE0 + of_nat i * 2;
          mask = MSR_IA32_MTRR_PHYSMASK0 + of_nat i * 2
      in [shadow_entry base (rd base) False True, shadow_entry mask (rd mask) False True])"

definition msr_mtrr_count :: "(u32 \<Rightarrow> u64) \<Rightarrow> nat" where
  "msr_mtrr_count rd = unat (rd MSR_IA32_MTRR_CAP AND 0xFF)"

definition msr_init_entries :: "(u32 \<Rightarrow> u64) \<Rightarrow> msr_entry list" where
  "msr_init_entries rd =
     msr_fixed_entries rd @
     shadow_entry MSR_IA32_MTRR_CAP (rd MSR_IA32_MTRR_CAP) True False #
     concat (map (msr_mtrr_pair rd) [0..<min (msr_mtrr_count rd) 10])"

definition MsrShadowInit :: "(u32 \<Rightarrow> 'h \<Rightarrow> u64) \<Rightarrow> 'h \<Rightarrow> msr_table" where
  "MsrShadowInit rd h = fold AddShadowMsr (msr_init_entries (\<lambda>i. rd i h)) []"

definition MsrShadowRead :: "(u32 \<Rightarrow> 'h \<Rightarrow> u64) \<Rightarrow> u32 \<Rightarrow> msr_table \<times> 'h \<Rightarrow> efi_status \<times> u64" where
  "MsrShadowRead rd idx th =
     (let (t, h) = th in
      case FindShadowMsr idx t of
        Some i \<Rightarrow> (EFI_SUCCESS, ms_Value (t ! i))
      | None \<Rightarrow> (EFI_SUCCESS, rd idx h))"

definition MsrShadowWrite ::
  "(u32 \<Rightarrow> u64 \<Rightarrow> 'h \<Rightarrow> 'h) \<Rightarrow> u32 \<Rightarrow> u64 \<Rightarrow> msr_table \<times> 'h \<Rightarrow> efi_status \<times> msr_table \<times> 'h" where
  "MsrShadowWrite wr idx v th =
     (let (t, h) = th in
      case FindShadowMsr idx t of
        Some i \<Rightarrow>
          if ms_IsReadOnly (t ! i) then (EFI_ACCESS_DENIED, t, h)
          else (EFI_SUCCESS, t[i := (t ! i)\<lparr>ms_Value := v\<rparr>],
                if ms_PassthroughOnWrite (t ! i) then wr idx v h else h)
      | None \<Rightarrow> (EFI_SUCCESS, t, wr idx v h))"

definition MsrIsPassThrough :: "u32 \<Rightarrow> msr_table \<Rightarrow> bool" where
  "MsrIsPassThrough idx t \<longleftrightarrow> FindShadowMsr idx t = None"

section \<open>The table after initialisation\<close>

lemma length_mtrr_pairs: "length (concat (map (msr_mtrr_pair rd) is)) = 2 * length is"
  by (induction "is") (simp_all add: msr_mtrr_pair_def Let_def)

lemma length_init_entries:
  "length (msr_init_entries rd) = 20 + 2 * min (msr_mtrr_count rd) 10"
  by (simp add: msr_init_entries_def msr_fixed_entries_def length_mtrr_pairs)

lemma MsrShadowInit_entries: "MsrShadowInit rd h = msr_init_entries (\<lambda>i. rd i h)"
proof -
  have "length (msr_init_entries (\<lambda>i. rd i h)) \<le> MAX_SHADOW_MSRS"
    by (simp add: length_init_entries MAX_SHADOW_MSRS_def)
  then show ?thesis
    using msrs.adds_room [of "[]" "msr_init_entries (\<lambda>i. rd i h)"] by (simp add: MsrShadowInit_def)
qed

text \<open>The registers whose shadow does not start from the hardware.\<close>

definition msr_faked :: "u32 set" where
  "msr_faked = {MSR_IA32_TSC, MSR_IA32_TSC_ADJUST, MSR_IA32_MCG_STATUS}"

lemma msr_mtrr_pair_values:
  "e \<in> set (msr_mtrr_pair rd i) \<Longrightarrow>
     ms_Value e = rd (ms_Index e) \<and> ms_PassthroughOnWrite e \<and> \<not> ms_IsReadOnly e \<and> ms_IsShadowed e"
  by (auto simp: msr_mtrr_pair_def Let_def shadow_entry_def)

lemma msr_init_values:
  assumes "e \<in> set (msr_init_entries rd)"
  shows "(ms_Index e \<notin> msr_faked \<longrightarrow>
            ms_Value e = rd (ms_Index e) \<and> (ms_PassthroughOnWrite e \<or> ms_IsReadOnly e))
    \<and> ms_IsShadowed e"
proof (cases "\<exists>i. e \<in> set (msr_mtrr_pair rd i)")
  case True
  then show ?thesis using msr_mtrr_pair_values by blast
next
  case False
  with assms have "e \<in> set (msr_fixed_entries rd) \<or>
      e = shadow_entry MSR_IA32_MTRR_CAP (rd MSR_IA32_MTRR_CAP) True False"
    by (auto simp: msr_init_entries_def)
  then show ?thesis
    by (auto simp: msr_fixed_entries_def shadow_entry_def msr_faked_def)
qed

section \<open>The abstract register file\<close>

text \<open>What the guest sees of the table: at most one entry per register number.\<close>

definition msr_view :: "msr_table \<Rightarrow> u32 \<Rightarrow> msr_entry option" where
  "msr_view t idx = find (msr_matches idx) t"

lemma msr_view_lookup: "msr_view t idx = msrs.lookup idx t"
  by (simp add: msr_view_def msrs.lookup_find)

lemma msr_read_view:
  "MsrShadowRead rd idx (t, h) =
     (EFI_SUCCESS, case msr_view t idx of Some e \<Rightarrow> ms_Value e | None \<Rightarrow> rd idx h)"
  using msrs.search_Some [of idx t]
  by (auto simp: MsrShadowRead_def msr_view_lookup msrs.search_None split: option.splits)

text \<open>One guest access after another: each write acts on the table and the hardware.\<close>

definition msr_writes ::
  "(u32 \<Rightarrow> u64 \<Rightarrow> 'h \<Rightarrow> 'h) \<Rightarrow> (u32 \<times> u64) list \<Rightarrow> msr_table \<times> 'h \<Rightarrow> msr_table \<times> 'h" where
  "msr_writes wr ws th = fold (\<lambda>(i, v) th. snd (MsrShadowWrite wr i v th)) ws th"

lemma msr_write_cases:
  obtains (hardware) "msr_view t i = None"
      "MsrShadowWrite wr i v (t, h) = (EFI_SUCCESS, t, wr i v h)"
  | (denied) e where "msr_view t i = Some e" "ms_IsReadOnly e"
      "MsrShadowWrite wr i v (t, h) = (EFI_ACCESS_DENIED, t, h)"
  | (shadow) e t' where "msr_view t i = Some e" "\<not> ms_IsReadOnly e"
      "MsrShadowWrite wr i v (t, h) =
        (EFI_SUCCESS, t', if ms_PassthroughOnWrite e then wr i v h else h)"
      "msr_view t' = (msr_view t)(i \<mapsto> e\<lparr>ms_Value := v\<rparr>)"
proof (cases "FindShadowMsr i t")
  case None
  then show ?thesis
    using msrs.search_None [of i t]
    by (intro hardware) (simp_all add: MsrShadowWrite_def msr_view_lookup)
next
  case (Some k)
  note k = msrs.search_Some [OF Some]
  let ?e = "(t ! k)\<lparr>ms_Value := v\<rparr>"
  have same: "msr_matches j ?e = msr_matches j (t ! k)" for j
    by (simp add: msr_matches_def)
  have one: "\<not> msr_matches j (t ! k)" if "j \<noteq> i" for j
    using k that by (auto simp: msr_matches_def)
  have view: "msr_view (t[k := ?e]) = (msr_view t)(i \<mapsto> ?e)"
  proof
    fix j
    show "msr_view (t[k := ?e]) j = ((msr_view t)(i \<mapsto> ?e)) j"
      using msrs.lookup_overwrite [OF Some, of ?e] msrs.lookup_overwrite_other [of k t j ?e]
        k same one [of j]
      by (cases "j = i") (simp_all add: msr_view_lookup)
  qed
  show ?thesis
  proof (cases "ms_IsReadOnly (t ! k)")
    case True
    with Some k show ?thesis
      by (intro denied [of "t ! k"]) (simp_all add: MsrShadowWrite_def msr_view_lookup)
  next
    case False
    with Some k view show ?thesis
      by (intro shadow [of "t ! k" "t[k := ?e]"]) (simp_all add: MsrShadowWrite_def msr_view_lookup)
  qed
qed

lemma msr_init_view:
  assumes "msr_view (MsrShadowInit rd h) idx = Some e" "idx \<notin> msr_faked"
  shows "ms_Value e = rd idx h \<and> (ms_PassthroughOnWrite e \<or> ms_IsReadOnly e)"
proof -
  have "e \<in> set (msr_init_entries (\<lambda>i. rd i h))" "ms_Index e = idx"
    using assms(1) msrs.lookup_Some [of idx]
    by (auto simp: msr_view_lookup MsrShadowInit_entries msr_matches_def)
  then show ?thesis using msr_init_values assms(2) by blast
qed

lemma msr_init_fixed_view:
  assumes "msrs.lookup idx (msr_fixed_entries (\<lambda>i. rd i h)) = Some e"
  shows "msr_view (MsrShadowInit rd h) idx = Some e"
  using assms
  by (simp add: msr_view_lookup MsrShadowInit_entries msr_init_entries_def msrs.lookup_append)

lemma msr_init_read_only:
  "\<exists>e. msr_view (MsrShadowInit rd h) MSR_IA32_MCG_CAP = Some e \<and> ms_IsReadOnly e"
  "\<exists>e. msr_view (MsrShadowInit rd h) MSR_IA32_MTRR_CAP = Some e \<and> ms_IsReadOnly e"
proof -
  have "msr_view (MsrShadowInit rd h) MSR_IA32_MCG_CAP =
      Some (shadow_entry MSR_IA32_MCG_CAP (rd MSR_IA32_MCG_CAP h) True False)"
    by (rule msr_init_fixed_view)
       (simp add: msr_fixed_entries_def msrs.lookup_Cons msr_matches_def shadow_entry_def
         msr_numbers)
  then show "\<exists>e. msr_view (MsrShadowInit rd h) MSR_IA32_MCG_CAP = Some e \<and> ms_IsReadOnly e"
    by (simp add: shadow_entry_def)
  show "\<exists>e. msr_view (MsrShadowInit rd h) MSR_IA32_MTRR_CAP = Some e \<and> ms_IsReadOnly e"
    by (simp add: msr_view_lookup MsrShadowInit_entries msr_init_entries_def msrs.lookup_append
        msr_fixed_entries_def msrs.lookup_Cons msr_matches_def shadow_entry_def msr_numbers)
qed

section \<open>Invariants of a run\<close>

definition msr_synced :: "(u32 \<Rightarrow> 'h \<Rightarrow> u64) \<Rightarrow> msr_table \<times> 'h \<Rightarrow> bool" where
  "msr_synced rd th \<longleftrightarrow>
     (\<forall>idx e. idx \<notin> msr_faked \<longrightarrow> msr_view (fst th) idx = Some e \<longrightarrow>
        ms_Value e = rd idx (snd th) \<and> (ms_PassthroughOnWrite e \<or> ms_IsReadOnly e))"

lemma msr_synced_step:
  assumes "msr_memory rd wr" "msr_synced rd (t, h)"
  shows "msr_synced rd (snd (MsrShadowWrite wr i v (t, h)))"
proof (cases rule: msr_write_cases [of t i wr v h])
  case hardware
  have "rd idx (wr i v h) = rd idx h" if "msr_view t idx = Some e" for idx e
    using hardware that by (intro msr_memory_other [OF assms(1)]) auto
  with hardware assms(2) show ?thesis by (simp add: msr_synced_def)
next
  case (denied e)
  with assms show ?thesis by simp
next
  case (shadow e t')
  with assms show ?thesis by (auto simp: msr_synced_def msr_memory_def)
qed

text \<open>A read-only entry stays, and the register it shadows is never written.\<close>

definition msr_guarded :: "(u32 \<Rightarrow> 'h \<Rightarrow> u64) \<Rightarrow> u32 \<Rightarrow> u64 \<Rightarrow> msr_table \<times> 'h \<Rightarrow> bool" where
  "msr_guarded rd idx c th \<longleftrightarrow>
     rd idx (snd th) = c \<and> (\<exists>e. msr_view (fst th) idx = Some e \<and> ms_IsReadOnly e)"

lemma msr_guarded_step:
  assumes "msr_memory rd wr" "msr_guarded rd idx c (t, h)"
  shows "msr_guarded rd idx c (snd (MsrShadowWrite wr i v (t, h)))"
proof (cases rule: msr_write_cases [of t i wr v h])
  case hardware
  have "rd idx (wr i v h) = rd idx h" if "msr_view t idx = Some e" for e
    using hardware that by (intro msr_memory_other [OF assms(1)]) auto
  with hardware assms(2) show ?thesis by (auto simp: msr_guarded_def)
next
  case (denied e)
  with assms show ?thesis by simp
next
  case (shadow e t')
  with assms show ?thesis by (auto simp: msr_guarded_def msr_memory_def)
qed

lemma msr_writes_inv:
  assumes "\<And>t h i v. P (t, h) \<Longrightarrow> P (snd (MsrShadowWrite wr i v (t, h)))" "P th"
  shows "P (msr_writes wr ws th)"
  using assms(2)
proof (induction ws arbitrary: th)
  case (Cons w ws)
  then show ?case
    using assms(1) [of "fst th" "snd th" "fst w" "snd w"]
    by (simp add: msr_writes_def split_def)
qed (simp add: msr_writes_def)

definition last_write :: "u32 \<Rightarrow> (u32 \<times> u64) list \<Rightarrow> u64 \<Rightarrow> u64" where
  "last_write idx ws v0 = fold (\<lambda>(i, v) c. if i = idx then v else c) ws v0"

section \<open>Properties\<close>

text \<open>The shadow table refines a map from register numbers to entries. A write to a
  register that is not shadowed goes to the hardware alone; a write to a read-only one is
  refused with \<open>EFI_ACCESS_DENIED\<close> and changes neither the table nor the hardware; any other
  write updates exactly that register of the map, and reaches the hardware just when the
  entry passes writes through.\<close>

theorem msr_write_refines:
  "case MsrShadowWrite wr i v (t, h) of (st, t', h') \<Rightarrow>
     (case msr_view t i of
        None \<Rightarrow> st = EFI_SUCCESS \<and> t' = t \<and> h' = wr i v h
      | Some e \<Rightarrow>
          if ms_IsReadOnly e then st = EFI_ACCESS_DENIED \<and> t' = t \<and> h' = h
          else st = EFI_SUCCESS \<and> msr_view t' = (msr_view t)(i \<mapsto> e\<lparr>ms_Value := v\<rparr>) \<and>
               h' = (if ms_PassthroughOnWrite e then wr i v h else h))"
  by (cases rule: msr_write_cases [of t i wr v h]) simp_all

text \<open>C9: On registers that behave like memory, the shadow is transparent: after
  \<open>MsrShadowInit\<close> and any sequence of guest writes, every register other than the time-stamp
  counter, its adjustment and the machine-check status reads through the shadow as the
  hardware register holds, and the two read-only capability registers of the hardware still
  hold their initial value.\<close>

theorem msr_shadow_transparent:
  assumes "msr_memory rd wr" "idx \<notin> msr_faked"
    and "msr_writes wr ws (MsrShadowInit rd h, h) = (t', h')"
  shows "MsrShadowRead rd idx (t', h') = (EFI_SUCCESS, rd idx h')
    \<and> rd MSR_IA32_MTRR_CAP h' = rd MSR_IA32_MTRR_CAP h
    \<and> rd MSR_IA32_MCG_CAP h' = rd MSR_IA32_MCG_CAP h"
proof -
  have "msr_synced rd (MsrShadowInit rd h, h)"
    using msr_init_view [of rd h] by (simp add: msr_synced_def)
  then have "msr_synced rd (msr_writes wr ws (MsrShadowInit rd h, h))"
    by (rule msr_writes_inv [rotated]) (rule msr_synced_step [OF assms(1)])
  then have "MsrShadowRead rd idx (t', h') = (EFI_SUCCESS, rd idx h')"
    using assms(2,3) by (auto simp: msr_synced_def msr_read_view split: option.splits)
  moreover have "rd c h' = rd c h"
    if "\<exists>e. msr_view (MsrShadowInit rd h) c = Some e \<and> ms_IsReadOnly e" for c
  proof -
    have "msr_guarded rd c (rd c h) (MsrShadowInit rd h, h)"
      using that by (simp add: msr_guarded_def)
    then have "msr_guarded rd c (rd c h) (msr_writes wr ws (MsrShadowInit rd h, h))"
      by (rule msr_writes_inv [rotated]) (rule msr_guarded_step [OF assms(1)])
    then show ?thesis using assms(3) by (simp add: msr_guarded_def)
  qed
  ultimately show ?thesis by (simp add: msr_init_read_only)
qed

theorem msr_shadow_transparent_witness:
  "case msr_writes (\<lambda>i v h. h(i := v)) [(MSR_IA32_PAT, 7), (MSR_IA32_MTRR_CAP, 0), (5, 6)]
      (MsrShadowInit (\<lambda>i h. h i) (\<lambda>_. 8), \<lambda>_. 8) of
     (t', h') \<Rightarrow> MsrShadowRead (\<lambda>i h. h i) MSR_IA32_PAT (t', h') = (EFI_SUCCESS, h' MSR_IA32_PAT)
        \<and> h' MSR_IA32_MTRR_CAP = 8"
proof -
  have "MSR_IA32_PAT \<notin> msr_faked" by (simp add: msr_faked_def msr_numbers)
  from msr_shadow_transparent [OF msr_memory_fun this]
  show ?thesis by (auto split: prod.splits)
qed

text \<open>The shadowed time-stamp counter does not count: whatever the hardware does, after any
  sequence of guest writes reading it returns the value last written to it, or 0 if there is
  none.\<close>

theorem msr_tsc_frozen:
  "MsrShadowRead rd' MSR_IA32_TSC (msr_writes wr ws (MsrShadowInit rd h, h))
     = (EFI_SUCCESS, last_write MSR_IA32_TSC ws 0)"
proof -
  have run: "msr_view t MSR_IA32_TSC = Some (shadow_entry MSR_IA32_TSC v False False) \<Longrightarrow>
      msr_view (fst (msr_writes wr ws (t, h))) MSR_IA32_TSC =
        Some (shadow_entry MSR_IA32_TSC (last_write MSR_IA32_TSC ws v) False False)" for t h v
  proof (induction ws arbitrary: t h v)
    case Nil
    then show ?case by (simp add: msr_writes_def last_write_def)
  next
    case (Cons w ws)
    obtain i x where w: "w = (i, x)" by (cases w)
    obtain st t' h' where s: "MsrShadowWrite wr i x (t, h) = (st, t', h')"
      using prod_cases3 by blast
    have "msr_view t' MSR_IA32_TSC =
        Some (shadow_entry MSR_IA32_TSC (if i = MSR_IA32_TSC then x else v) False False)"
      using Cons.prems s
      by (cases rule: msr_write_cases [of t i wr x h]) (auto simp: shadow_entry_def)
    from Cons.IH [OF this, of h'] show ?case
      by (simp add: msr_writes_def last_write_def w s)
  qed
  have "msr_view (MsrShadowInit rd h) MSR_IA32_TSC = Some (shadow_entry MSR_IA32_TSC 0 False False)"
    by (rule msr_init_fixed_view)
       (simp add: msr_fixed_entries_def msrs.lookup_Cons msr_matches_def shadow_entry_def)
  from run [OF this, of h] show ?thesis
    by (cases "msr_writes wr ws (MsrShadowInit rd h, h)")
       (simp add: msr_read_view shadow_entry_def)
qed

end
