(* ===== verification/CpuidSpoof.thy ===== *)
theory CpuidSpoof
  imports FirstMatch Hardware
begin

text \<open>
  The CPUID answers the guest is given, \<open>hwcompat/cpuid/cpuidspoof.c\<close>: at initialisation a
  table of at most 128 overrides is filled from the processor's own answers, some of them
  changed; a query returns the first override for its leaf and sub-leaf, or the processor's
  answer. \<open>AsmCpuid\<close> and \<open>AsmCpuidEx\<close> are the parameters \<open>cp\<close> and \<open>cpx\<close>. The loops over
  leaf numbers are \<open>word_for\<close>: an initialisation that never returns is \<open>None\<close>.
\<close>

section \<open>State\<close>

definition MAX_CPUID_OVERRIDES :: nat where "MAX_CPUID_OVERRIDES = 128"

definition BEMI_HV_SIGNATURE_EBX :: u32 where "BEMI_HV_SIGNATURE_EBX = 0x494d4542"
definition BEMI_HV_SIGNATURE_ECX :: u32 where "BEMI_HV_SIGNATURE_ECX = 0x494d4542"
definition BEMI_HV_SIGNATURE_EDX :: u32 where "BEMI_HV_SIGNATURE_EDX = 0x494d4542"
definition BEMI_HV_MAX_LEAF :: u32 where "BEMI_HV_MAX_LEAF = 0x40000005"

text \<open>The four result registers of an override are one field.\<close>

record cpuid_override =
  co_Leaf :: u32
  co_Subleaf :: u32
  co_Regs :: cpuid_regs

type_synonym cpuid_table = "cpuid_override list"

record cpuid_state =
  cs_Overrides :: cpuid_table
  cs_VendorString :: "u8 list"
  cs_IsIntel :: bool
  cs_IsAmd :: bool
  cs_MaxStandardLeaf :: u32
  cs_MaxExtendedLeaf :: u32

definition override_put :: "cpuid_override \<Rightarrow> cpuid_table \<Rightarrow> cpuid_table" where
  "override_put e t = (if length t < MAX_CPUID_OVERRIDES then t @ [e] else t)"

definition AddOverride :: "u32 \<Rightarrow> u32 \<Rightarrow> cpuid_regs \<Rightarrow> cpuid_table \<Rightarrow> cpuid_table" where
  "AddOverride leaf sub r t =
     override_put \<lparr>co_Leaf = leaf, co_Subleaf = sub, co_Regs = r\<rparr> t"

fun override_matches :: "u32 \<times> u32 \<Rightarrow> cpuid_override \<Rightarrow> bool" where
  "override_matches (leaf, sub) e \<longleftrightarrow> co_Leaf e = leaf \<and> co_Subleaf e = sub"

definition find_override :: "u32 \<times> u32 \<Rightarrow> cpuid_table \<Rightarrow> nat option" where
  "find_override k t = first_index (override_matches k) t"

interpretation ovr: first_match_table MAX_CPUID_OVERRIDES override_matches override_put find_override
  by unfold_locales (simp_all add: override_put_def find_override_def)

section \<open>Filling the table\<close>

definition PopulateLeaf01 :: "(u32 \<Rightarrow> cpuid_regs) \<Rightarrow> cpuid_table \<Rightarrow> cpuid_table" where
  "PopulateLeaf01 cp t =
     (let r = cp 0x01; ecx = cr_Ecx r OR BIT5; ecx = ecx OR BIT31; ecx = ecx AND NOT BIT15
      in AddOverride 0x01 0 (r\<lparr>cr_Ecx := ecx\<rparr>) t)"

definition leaf04_step ::
  "(u32 \<Rightarrow> u32 \<Rightarrow> cpuid_regs) \<Rightarrow> u32 \<Rightarrow> cpuid_table \<Rightarrow> cpuid_table \<times> bool" where
  "leaf04_step cpx sub t =
     (let r = cpx 0x04 sub; cacheType = cr_Eax r AND 0x1F in
      if cacheType = 0 then
        (if sub = 3 then
           AddOverride 0x04 sub
             \<lparr>cr_Eax = 3 OR push_bit 5 3 OR BIT8, cr_Ebx = push_bit 22 15 OR push_bit 12 0 OR 63,
              cr_Ecx = 16383, cr_Edx = 0\<rparr> t
         else t, True)
      else if cacheType = 3 then
        (AddOverride 0x04 sub
           (r\<lparr>cr_Eax := ((cr_Eax r AND NOT 0x1F) OR 3) OR push_bit 5 3,
              cr_Ebx := push_bit 22 15 OR push_bit 12 0 OR 63, cr_Ecx := 16383\<rparr>) t, False)
      else (AddOverride 0x04 sub r t, False))"

definition PopulateLeaf04 :: "(u32 \<Rightarrow> u32 \<Rightarrow> cpuid_regs) \<Rightarrow> cpuid_table \<Rightarrow> cpuid_table" where
  "PopulateLeaf04 cpx t = for_break (leaf04_step cpx) (map of_nat [0..<5]) t"

definition PopulateLeaf07 :: "(u32 \<Rightarrow> u32 \<Rightarrow> cpuid_regs) \<Rightarrow> cpuid_table \<Rightarrow> cpuid_table" where
  "PopulateLeaf07 cpx t = AddOverride 0x07 0 (cpx 0x07 0) t"

definition leaf0B_step ::
  "(u32 \<Rightarrow> u32 \<Rightarrow> cpuid_regs) \<Rightarrow> u32 \<Rightarrow> cpuid_table \<Rightarrow> cpuid_table \<times> bool" where
  "leaf0B_step cpx level t =
     (let r = cpx 0x0B level; type = drop_bit 8 (cr_Ecx r) AND 0xFF
      in (AddOverride 0x0B level r t, type = 0))"

definition PopulateLeaf0B :: "(u32 \<Rightarrow> u32 \<Rightarrow> cpuid_regs) \<Rightarrow> cpuid_table \<Rightarrow> cpuid_table" where
  "PopulateLeaf0B cpx t = for_break (leaf0B_step cpx) (map of_nat [0..<4]) t"

definition leaf0D_step ::
  "(u32 \<Rightarrow> u32 \<Rightarrow> cpuid_regs) \<Rightarrow> u32 \<Rightarrow> cpuid_table \<Rightarrow> cpuid_table \<times> bool" where
  "leaf0D_step cpx sub t =
     (let r = cpx 0x0D sub in
      if sub > 0 \<and> cr_Eax r = 0 \<and> cr_Ebx r = 0 \<and> cr_Ecx r = 0 \<and> cr_Edx r = 0 then (t, True)
      else (AddOverride 0x0D sub r t, False))"

definition PopulateLeaf0D :: "(u32 \<Rightarrow> u32 \<Rightarrow> cpuid_regs) \<Rightarrow> cpuid_table \<Rightarrow> cpuid_table" where
  "PopulateLeaf0D cpx t = for_break (leaf0D_step cpx) (map of_nat [0..<10]) t"

definition hv_regs :: "u32 \<Rightarrow> u32 \<Rightarrow> u32 \<Rightarrow> u32 \<Rightarrow> cpuid_regs" where
  "hv_regs a b c d = \<lparr>cr_Eax = a, cr_Ebx = b, cr_Ecx = c, cr_Edx = d\<rparr>"

definition PopulateHypervisorLeaves :: "cpuid_table \<Rightarrow> cpuid_table" where
  "PopulateHypervisorLeaves t =
     (let t = AddOverride 0x40000000 0 (hv_regs BEMI_HV_MAX_LEAF BEMI_HV_SIGNATURE_EBX
                BEMI_HV_SIGNATURE_ECX BEMI_HV_SIGNATURE_EDX) t;
          t = AddOverride 0x40000001 0 (hv_regs 0x00010003 0 0 0) t;
          t = AddOverride 0x40000002 0 (hv_regs 0 0 0 0) t;
          t = AddOverride 0x40000003 0 (hv_regs 0 0 0 0) t;
          t = AddOverride 0x40000004 0 (hv_regs 0 0 0 0) t
      in AddOverride 0x40000005 0 (hv_regs 0 0 0 0) t)"

definition extended_leaf_step :: "(u32 \<Rightarrow> cpuid_regs) \<Rightarrow> u32 \<Rightarrow> cpuid_table \<Rightarrow> cpuid_table" where
  "extended_leaf_step cp leaf t =
     (let r = cp leaf;
          r = (if leaf = 0x80000001 then r\<lparr>cr_Ecx := cr_Ecx r OR BIT2\<rparr> else r)
      in AddOverride leaf 0 r t)"

definition PopulateExtendedLeaves ::
  "(u32 \<Rightarrow> cpuid_regs) \<Rightarrow> cpuid_table \<Rightarrow> (cpuid_table \<times> u32) option" where
  "PopulateExtendedLeaves cp t =
     (let mx = cr_Eax (cp 0x80000000) in
      case word_for (extended_leaf_step cp) 0x80000000 mx t of
        None \<Rightarrow> None
      | Some t' \<Rightarrow> Some (t', mx))"

definition other_leaf_step :: "(u32 \<Rightarrow> cpuid_regs) \<Rightarrow> u32 \<Rightarrow> cpuid_table \<Rightarrow> cpuid_table" where
  "other_leaf_step cp leaf t =
     (if leaf = 0x04 \<or> leaf = 0x07 \<or> leaf = 0x0B \<or> leaf = 0x0D then t
      else AddOverride leaf 0 (cp leaf) t)"

definition PopulateOtherLeaves :: "(u32 \<Rightarrow> cpuid_regs) \<Rightarrow> u32 \<Rightarrow> cpuid_table \<Rightarrow> cpuid_table option" where
  "PopulateOtherLeaves cp mx t = word_for (other_leaf_step cp) 0x02 mx t"

text \<open>The part of the initialisation that is bounded whatever the processor answers.\<close>

definition populate_bounded ::
  "(u32 \<Rightarrow> cpuid_regs) \<Rightarrow> (u32 \<Rightarrow> u32 \<Rightarrow> cpuid_regs) \<Rightarrow> cpuid_table" where
  "populate_bounded cp cpx =
     (let t = PopulateLeaf01 cp [];
          t = PopulateLeaf04 cpx t;
          t = PopulateLeaf07 cpx t;
          t = PopulateLeaf0B cpx t
      in PopulateLeaf0D cpx t)"

definition CpuidSpoofInit ::
  "(u32 \<Rightarrow> cpuid_regs) \<Rightarrow> (u32 \<Rightarrow> u32 \<Rightarrow> cpuid_regs) \<Rightarrow> cpuid_state option" where
  "CpuidSpoofInit cp cpx =
     (let r = cp 0x00; v = vendor_string r; mx = cr_Eax r;
          t = PopulateHypervisorLeaves (populate_bounded cp cpx)
      in case PopulateExtendedLeaves cp t of
           None \<Rightarrow> None
         | Some (t, ext) \<Rightarrow>
             (case PopulateOtherLeaves cp mx t of
                None \<Rightarrow> None
              | Some t \<Rightarrow>
                  Some \<lparr>cs_Overrides = t, cs_VendorString = v, cs_IsIntel = IS_INTEL v,
                        cs_IsAmd = IS_AMD v, cs_MaxStandardLeaf = mx, cs_MaxExtendedLeaf = ext\<rparr>))"

section \<open>Answering a query\<close>

definition CpuidSpoofHandler ::
  "(u32 \<Rightarrow> u32 \<Rightarrow> cpuid_regs) \<Rightarrow> cpuid_state \<Rightarrow> u32 \<Rightarrow> u32 \<Rightarrow> cpuid_regs" where
  "CpuidSpoofHandler cpx s leaf sub =
     (case find_override (leaf, sub) (cs_Overrides s) of
        Some i \<Rightarrow> co_Regs (cs_Overrides s ! i)
      | None \<Rightarrow>
          (let r = cpx leaf sub;
               r = (if leaf \<ge> 0x40000001 \<and> leaf \<le> 0x4FFFFFFF then zero_regs else r)
           in if leaf \<ge> 0x80000009 \<and> leaf \<le> 0x80000018 \<and> leaf \<noteq> 0x8000000A \<and>
                 leaf \<noteq> 0x80000019 \<and> leaf \<noteq> 0x8000001A \<and> leaf \<noteq> 0x8000001D \<and>
                 leaf \<noteq> 0x8000001E \<and> leaf \<noteq> 0x8000001F
              then zero_regs else r))"

section \<open>How the steps grow the table\<close>

text \<open>\<open>grows P n t t'\<close>: \<open>t'\<close> is \<open>t\<close> with at most \<open>n\<close> more entries, all with property \<open>P\<close>.\<close>

definition grows :: "(cpuid_override \<Rightarrow> bool) \<Rightarrow> nat \<Rightarrow> cpuid_table \<Rightarrow> cpuid_table \<Rightarrow> bool" where
  "grows P n t t' \<longleftrightarrow> (\<exists>es. t' = t @ es \<and> length es \<le> n \<and> (\<forall>e\<in>set es. P e))"

lemma grows_refl [simp]: "grows P n t t"
  by (simp add: grows_def)

lemma grows_trans: "grows P m t u \<Longrightarrow> grows P n u v \<Longrightarrow> grows P (m + n) t v"
  by (force simp: grows_def)

lemma grows_mono: "grows P m t u \<Longrightarrow> (\<And>e. P e \<Longrightarrow> Q e) \<Longrightarrow> m \<le> n \<Longrightarrow> grows Q n t u"
  by (force simp: grows_def)

lemma grows_add [simp]:
  "P \<lparr>co_Leaf = l, co_Subleaf = s, co_Regs = r\<rparr> \<Longrightarrow> grows P (Suc 0) t (AddOverride l s r t)"
  by (simp add: grows_def AddOverride_def override_put_def)

lemma grows_for_break:
  assumes "\<And>i t. grows P (Suc 0) t (fst (f i t))"
  shows "grows P (length is) t (for_break f is t)"
proof (induction "is" arbitrary: t)
  case (Cons i "is")
  have "grows P (Suc 0 + length is) t (for_break f is (fst (f i t)))"
    by (rule grows_trans [OF assms Cons.IH])
  moreover have "grows P (Suc 0 + length is) t (fst (f i t))"
    by (rule grows_mono [OF assms]) auto
  ultimately show ?case by (simp add: Let_def split_def)
qed (simp add: grows_refl)

lemma grows_fold:
  assumes "\<And>i t. grows P (Suc 0) t (f i t)"
  shows "grows P (length is) t (fold f is t)"
proof (induction "is" arbitrary: t)
  case (Cons i "is")
  show ?case using grows_trans [OF assms Cons.IH] by simp
qed (simp add: grows_refl)

lemma grows_lookup: "grows P n t u \<Longrightarrow> ovr.lookup k t = Some e \<Longrightarrow> ovr.lookup k u = Some e"
  by (auto simp: grows_def ovr.lookup_append)

lemma grows_lookup_new:
  assumes "grows P n t u" "ovr.lookup k t = None" "\<And>e. override_matches k e \<Longrightarrow> \<not> P e"
  shows "ovr.lookup k u = None"
  proof -
  obtain es where u: "u = t @ es" "\<forall>e\<in>set es. P e" using assms(1) by (auto simp: grows_def)
  then have "ovr.lookup k es = None" using assms(3) by (auto simp: ovr.lookup_None)
  with u(1) assms(2) show ?thesis by (simp add: ovr.lookup_append)
qed

lemma grows_length: "grows P n t u \<Longrightarrow> length u \<le> length t + n"
  by (auto simp: grows_def)

section \<open>What each entry holds\<close>

definition leaf01_regs :: "(u32 \<Rightarrow> cpuid_regs) \<Rightarrow> cpuid_regs" where
  "leaf01_regs cp = (cp 1)\<lparr>cr_Ecx := ((cr_Ecx (cp 1) OR BIT5) OR BIT31) AND NOT BIT15\<rparr>"

definition hv_leaf :: "u32 \<Rightarrow> bool" where
  "hv_leaf l \<longleftrightarrow> 0x40000000 \<le> l \<and> l \<le> 0x4FFFFFFF"

text \<open>An entry of a leaf the code does not change repeats the processor's answer.\<close>

definition entry_ok ::
  "(u32 \<Rightarrow> cpuid_regs) \<Rightarrow> (u32 \<Rightarrow> u32 \<Rightarrow> cpuid_regs) \<Rightarrow> cpuid_override \<Rightarrow> bool" where
  "entry_ok cp cpx e \<longleftrightarrow>
     (if co_Leaf e = 1 then co_Subleaf e = 0
      else co_Leaf e = 4 \<or> hv_leaf (co_Leaf e) \<or>
           co_Leaf e = 0x80000001 \<and> co_Subleaf e = 0 \<or>
           co_Regs e = cpx (co_Leaf e) (co_Subleaf e) \<or>
           co_Subleaf e = 0 \<and> co_Regs e = cp (co_Leaf e))"

abbreviation low_entry :: "(u32 \<Rightarrow> cpuid_regs) \<Rightarrow> (u32 \<Rightarrow> u32 \<Rightarrow> cpuid_regs) \<Rightarrow> cpuid_override \<Rightarrow> bool" where
  "low_entry cp cpx e \<equiv> entry_ok cp cpx e \<and> co_Leaf e < 0x40000000"

lemma leaf04_grows: "grows (low_entry cp cpx) 5 t (PopulateLeaf04 cpx t)"
proof -
  have "grows (low_entry cp cpx) (Suc 0) t (fst (leaf04_step cpx i t))" for i t
    unfolding leaf04_step_def Let_def
    by (simp add: entry_ok_def)
  from grows_for_break [of _ "leaf04_step cpx", OF this, of "map of_nat [0..<5]" t]
  show ?thesis by (simp add: PopulateLeaf04_def)
qed

lemma leaf0B_grows: "grows (low_entry cp cpx) 4 t (PopulateLeaf0B cpx t)"
proof -
  have "grows (low_entry cp cpx) (Suc 0) t (fst (leaf0B_step cpx i t))" for i t
    unfolding leaf0B_step_def Let_def by (simp add: entry_ok_def)
  from grows_for_break [of _ "leaf0B_step cpx", OF this, of "map of_nat [0..<4]" t]
  show ?thesis by (simp add: PopulateLeaf0B_def)
qed

lemma leaf0D_grows: "grows (low_entry cp cpx) 10 t (PopulateLeaf0D cpx t)"
proof -
  have "grows (low_entry cp cpx) (Suc 0) t (fst (leaf0D_step cpx i t))" for i t
    unfolding leaf0D_step_def Let_def
    by (simp add: entry_ok_def)
  from grows_for_break [of _ "leaf0D_step cpx", OF this, of "map of_nat [0..<10]" t]
  show ?thesis by (simp add: PopulateLeaf0D_def)
qed

lemma leaf01_table:
  "PopulateLeaf01 cp [] = [\<lparr>co_Leaf = 1, co_Subleaf = 0, co_Regs = leaf01_regs cp\<rparr>]"
  by (simp add: PopulateLeaf01_def AddOverride_def override_put_def MAX_CPUID_OVERRIDES_def
      leaf01_regs_def Let_def)

lemma bounded_grows:
  "grows (low_entry cp cpx) 20 (PopulateLeaf01 cp []) (populate_bounded cp cpx)"
proof -
  have l7: "grows (low_entry cp cpx) (Suc 0) t (PopulateLeaf07 cpx t)" for t
    by (simp add: PopulateLeaf07_def entry_ok_def)
  show ?thesis
    unfolding populate_bounded_def Let_def
    using grows_trans [OF grows_trans [OF grows_trans [OF leaf04_grows l7] leaf0B_grows] leaf0D_grows]
    by simp
qed

lemma hypervisor_grows:
  "grows (\<lambda>e. entry_ok cp cpx e \<and> hv_leaf (co_Leaf e)) 6 t (PopulateHypervisorLeaves t)"
proof -
  have a: "grows (\<lambda>e. entry_ok cp cpx e \<and> hv_leaf (co_Leaf e)) (Suc 0) t (AddOverride l 0 r t)"
    if "hv_leaf l" for l r t
    using that by (intro grows_add) (auto simp: entry_ok_def hv_leaf_def)
  show ?thesis
    unfolding PopulateHypervisorLeaves_def Let_def
    by (rule grows_mono [OF grows_trans [OF grows_trans [OF grows_trans [OF grows_trans
          [OF grows_trans [OF a a] a] a] a] a]]) (simp_all add: hv_leaf_def)
qed

lemma extended_step_grows: "0x80000000 \<le> i \<Longrightarrow> grows (entry_ok cp cpx) (Suc 0) t (extended_leaf_step cp i t)"
  unfolding extended_leaf_step_def Let_def
  by (simp add: entry_ok_def)

lemma other_step_grows: "2 \<le> i \<Longrightarrow> grows (entry_ok cp cpx) (Suc 0) t (other_leaf_step cp i t)"
  unfolding other_leaf_step_def
  by (simp add: entry_ok_def)

lemma put_bounded:
  "length t \<le> MAX_CPUID_OVERRIDES \<Longrightarrow> length (AddOverride l s r t) \<le> MAX_CPUID_OVERRIDES"
  unfolding AddOverride_def by (rule ovr.add_bounded)

text \<open>The table before the two open-ended loops: at most 27 entries.\<close>

definition base_table ::
  "(u32 \<Rightarrow> cpuid_regs) \<Rightarrow> (u32 \<Rightarrow> u32 \<Rightarrow> cpuid_regs) \<Rightarrow> cpuid_table" where
  "base_table cp cpx = PopulateHypervisorLeaves (populate_bounded cp cpx)"

lemma base_table_length: "length (populate_bounded cp cpx) \<le> 21" "length (base_table cp cpx) \<le> 27"
proof -
  show l: "length (populate_bounded cp cpx) \<le> 21"
    using grows_length [OF bounded_grows [of cp cpx]] by (simp add: leaf01_table)
  show "length (base_table cp cpx) \<le> 27"
    unfolding base_table_def
    using grows_length [OF hypervisor_grows [of cp cpx "populate_bounded cp cpx"]] l by simp
qed

lemma init_cases:
  "CpuidSpoofInit cp cpx =
     (if cr_Eax (cp 0x80000000) = - 1 \<or> cr_Eax (cp 0) = - 1 then None
      else Some \<lparr>cs_Overrides =
             fold (other_leaf_step cp) (word_range 2 (cr_Eax (cp 0)))
               (fold (extended_leaf_step cp) (word_range 0x80000000 (cr_Eax (cp 0x80000000)))
                  (base_table cp cpx)),
           cs_VendorString = vendor_string (cp 0), cs_IsIntel = IS_INTEL (vendor_string (cp 0)),
           cs_IsAmd = IS_AMD (vendor_string (cp 0)), cs_MaxStandardLeaf = cr_Eax (cp 0),
           cs_MaxExtendedLeaf = cr_Eax (cp 0x80000000)\<rparr>)"
proof (cases "cr_Eax (cp 0x80000000) = - 1 \<or> cr_Eax (cp 0) = - 1")
  case True
  then show ?thesis
    by (auto simp: CpuidSpoofInit_def PopulateExtendedLeaves_def PopulateOtherLeaves_def Let_def
        split: option.splits)
next
  case False
  then show ?thesis
    by (simp add: CpuidSpoofInit_def PopulateExtendedLeaves_def PopulateOtherLeaves_def Let_def
        word_for_fold base_table_def)
qed

lemma fold_grows:
  assumes "\<And>i t. i \<in> set is \<Longrightarrow> grows P (Suc 0) t (f i t)"
  shows "grows P (length is) t (fold f is t)"
  using assms
proof (induction "is" arbitrary: t)
  case (Cons i "is")
  show ?case using grows_trans [OF Cons.prems Cons.IH] Cons.prems by simp
qed (simp add: grows_refl)

lemma init_grows:
  assumes "CpuidSpoofInit cp cpx = Some s"
  shows "\<exists>n. grows (entry_ok cp cpx) n (base_table cp cpx) (cs_Overrides s)"
proof -
  let ?ext = "word_range 0x80000000 (cr_Eax (cp 0x80000000))" and ?std = "word_range 2 (cr_Eax (cp 0))"
  have ext: "grows (entry_ok cp cpx) (length ?ext) t (fold (extended_leaf_step cp) ?ext t)" for t
    by (rule fold_grows) (simp add: set_word_range extended_step_grows)
  have std: "grows (entry_ok cp cpx) (length ?std) t (fold (other_leaf_step cp) ?std t)" for t
    by (rule fold_grows) (simp add: set_word_range other_step_grows)
  have "cs_Overrides s = fold (other_leaf_step cp) ?std
      (fold (extended_leaf_step cp) ?ext (base_table cp cpx))"
    using assms by (auto simp: init_cases split: if_splits)
  then show ?thesis using grows_trans [OF ext std, of "base_table cp cpx"] by metis
qed

lemma init_entries_ok:
  assumes "CpuidSpoofInit cp cpx = Some s" "e \<in> set (cs_Overrides s)"
  shows "entry_ok cp cpx e"
proof -
  have "entry_ok cp cpx \<lparr>co_Leaf = 1, co_Subleaf = 0, co_Regs = leaf01_regs cp\<rparr>"
    by (simp add: entry_ok_def)
  then have "\<forall>e\<in>set (base_table cp cpx). entry_ok cp cpx e"
    using bounded_grows [of cp cpx] hypervisor_grows [of cp cpx "populate_bounded cp cpx"]
    unfolding base_table_def grows_def leaf01_table by auto
  then show ?thesis using init_grows [OF assms(1)] assms(2) by (auto simp: grows_def)
qed

section \<open>Looking up the changed leaves\<close>

lemma handler_hit:
  assumes "ovr.lookup (leaf, sub) (cs_Overrides s) = Some e"
  shows "CpuidSpoofHandler cpx s leaf sub = co_Regs e"
  using assms by (auto simp: CpuidSpoofHandler_def ovr.lookup_def)

lemma handler_leaf01:
  assumes "CpuidSpoofInit cp cpx = Some s"
  shows "CpuidSpoofHandler cpx s 1 0 = leaf01_regs cp"
proof -
  have "ovr.lookup (1, 0) (PopulateLeaf01 cp []) =
      Some \<lparr>co_Leaf = 1, co_Subleaf = 0, co_Regs = leaf01_regs cp\<rparr>"
    by (simp add: leaf01_table ovr.lookup_Cons)
  then have "ovr.lookup (1, 0) (base_table cp cpx) =
      Some \<lparr>co_Leaf = 1, co_Subleaf = 0, co_Regs = leaf01_regs cp\<rparr>"
    unfolding base_table_def
    using grows_lookup [OF bounded_grows] grows_lookup [OF hypervisor_grows] by blast
  with init_grows [OF assms] show ?thesis by (auto dest: grows_lookup simp: handler_hit)
qed

lemma base_no_leaf:
  assumes "1 < l" "0x40000000 \<le> l"
  shows "ovr.lookup (l, s) (populate_bounded cp cpx) = None"
proof (rule grows_lookup_new [OF bounded_grows])
  show "ovr.lookup (l, s) (PopulateLeaf01 cp []) = None"
    using assms by (auto simp: leaf01_table ovr.lookup_Cons)
  show "\<not> low_entry cp cpx e" if "override_matches (l, s) e" for e
    using that assms by auto
qed

lemma base_hypervisor:
  "ovr.lookup (0x40000000, 0) (base_table cp cpx) =
     Some \<lparr>co_Leaf = 0x40000000, co_Subleaf = 0,
       co_Regs = hv_regs BEMI_HV_MAX_LEAF BEMI_HV_SIGNATURE_EBX BEMI_HV_SIGNATURE_ECX
         BEMI_HV_SIGNATURE_EDX\<rparr>"
proof -
  have room: "length (populate_bounded cp cpx) < MAX_CPUID_OVERRIDES"
    using base_table_length(1) [of cp cpx] by (simp add: MAX_CPUID_OVERRIDES_def)
  show ?thesis
    unfolding base_table_def PopulateHypervisorLeaves_def AddOverride_def Let_def
    by (intro ovr.lookup_add_old ovr.lookup_add_new base_no_leaf room) simp_all
qed

lemma handler_hypervisor:
  assumes "CpuidSpoofInit cp cpx = Some s"
  shows "CpuidSpoofHandler cpx s 0x40000000 0 =
    hv_regs BEMI_HV_MAX_LEAF BEMI_HV_SIGNATURE_EBX BEMI_HV_SIGNATURE_ECX BEMI_HV_SIGNATURE_EDX"
  using init_grows [OF assms] base_hypervisor [of cp cpx]
  by (auto dest: grows_lookup simp: handler_hit)

lemma base_no_extended: "ovr.lookup (0x80000001, s) (base_table cp cpx) = None"
  unfolding base_table_def
  by (rule grows_lookup_new [OF hypervisor_grows base_no_leaf]) (auto simp: hv_leaf_def)

lemma word_range_Cons: "x \<le> mx \<Longrightarrow> mx \<noteq> - 1 \<Longrightarrow> word_range x mx = x # word_range (x + 1) mx"
proof -
  assume le: "x \<le> mx" and mx: "mx \<noteq> - 1"
  have "fold (\<lambda>y ys. ys @ [y]) l zs = zs @ l" for l zs :: "'a word list"
    by (induction l arbitrary: zs) simp_all
  then show ?thesis
    using word_for.simps [of "\<lambda>y ys. ys @ [y]" x mx "[]"] le
      word_for_fold [OF mx, of "\<lambda>y ys. ys @ [y]" _ "[]"]
      word_for_fold [OF mx, of "\<lambda>y ys. ys @ [y]" _ "[x]"]
    by simp
qed

lemma handler_svm:
  assumes "CpuidSpoofInit cp cpx = Some s" "0x80000001 \<le> cs_MaxExtendedLeaf s"
  shows "CpuidSpoofHandler cpx s 0x80000001 0 =
    (cp 0x80000001)\<lparr>cr_Ecx := cr_Ecx (cp 0x80000001) OR BIT2\<rparr>"
proof -
  let ?mx = "cr_Eax (cp 0x80000000)" and ?f = "extended_leaf_step cp" and ?b = "base_table cp cpx"
  have mx: "?mx \<noteq> - 1" "0x80000001 \<le> ?mx"
    and s: "cs_Overrides s = fold (other_leaf_step cp) (word_range 2 (cr_Eax (cp 0)))
      (fold ?f (word_range 0x80000000 ?mx) ?b)"
    using assms by (auto simp: init_cases split: if_splits)
  have "0x80000000 \<le> ?mx" using mx(2) by (rule order_trans [rotated]) simp
  then have r: "word_range 0x80000000 ?mx = 0x80000000 # 0x80000001 # word_range 0x80000002 ?mx"
    using mx by (simp add: word_range_Cons)
  let ?e = "\<lparr>co_Leaf = 0x80000001, co_Subleaf = 0,
    co_Regs = (cp 0x80000001)\<lparr>cr_Ecx := cr_Ecx (cp 0x80000001) OR BIT2\<rparr>\<rparr>"
  have len: "length ?b < MAX_CPUID_OVERRIDES" "length (?f 0x80000000 ?b) < MAX_CPUID_OVERRIDES"
    using base_table_length(2) [of cp cpx]
    by (simp_all add: MAX_CPUID_OVERRIDES_def extended_leaf_step_def AddOverride_def
        override_put_def Let_def)
  have "ovr.lookup (0x80000001, 0) (?f 0x80000000 ?b) = None"
    by (simp add: extended_leaf_step_def AddOverride_def ovr.lookup_add_other base_no_extended)
  then have "ovr.lookup (0x80000001, 0) (?f 0x80000001 (?f 0x80000000 ?b)) = Some ?e"
    unfolding extended_leaf_step_def [of _ "0x80000001"] AddOverride_def Let_def
    using len(2) by (subst ovr.lookup_add_new) simp_all
  moreover have "\<exists>n. grows (\<lambda>_. True) n t
      (fold (other_leaf_step cp) l' (fold ?f l t))" for t l l'
  proof -
    have "grows (\<lambda>_. True) (length l) t (fold ?f l t)" for t
      by (rule fold_grows) (simp add: extended_leaf_step_def Let_def)
    moreover have "grows (\<lambda>_. True) (length l') t (fold (other_leaf_step cp) l' t)" for t
      by (rule fold_grows) (simp add: other_leaf_step_def)
    ultimately show ?thesis using grows_trans by blast
  qed
  ultimately have "ovr.lookup (0x80000001, 0) (cs_Overrides s) = Some ?e"
    unfolding s r by (auto dest: grows_lookup)
  then show ?thesis by (simp add: handler_hit)
qed

section \<open>Properties\<close>

text \<open>\<open>CpuidSpoofInit\<close> returns unless the processor reports the largest 32-bit number as its
  highest standard or extended leaf; then one of the loops \<open>leaf <= max\<close> never ends.\<close>

theorem cpuid_init_hangs_iff:
  "CpuidSpoofInit cp cpx = None \<longleftrightarrow>
     cr_Eax (cp 0x80000000) = 0xFFFFFFFF \<or> cr_Eax (cp 0) = 0xFFFFFFFF"
proof -
  have "(0xFFFFFFFF :: u32) = - 1" by simp
  then show ?thesis unfolding init_cases by (simp only: if_split option.distinct) simp
qed

text \<open>C10: Whatever the processor answers, the initialised table has at most 128 entries and the
  guest sees: on leaf 1 the processor's answer with exactly VMX and hypervisor-present set
  and PDCM cleared in ECX; the BEMI signature on the hypervisor leaf; and SVM set on extended
  leaf 1 when the processor has that leaf. No overflow of the table can hide these.\<close>

theorem cpuid_forced_leaves:
  assumes "CpuidSpoofInit cp cpx = Some s"
  shows "length (cs_Overrides s) \<le> MAX_CPUID_OVERRIDES
    \<and> CpuidSpoofHandler cpx s 1 0 =
        (cp 1)\<lparr>cr_Ecx := ((cr_Ecx (cp 1) OR BIT5) OR BIT31) AND NOT BIT15\<rparr>
    \<and> CpuidSpoofHandler cpx s 0x40000000 0 = \<lparr>cr_Eax = 0x40000005, cr_Ebx = 0x494d4542,
        cr_Ecx = 0x494d4542, cr_Edx = 0x494d4542\<rparr>
    \<and> (0x80000001 \<le> cs_MaxExtendedLeaf s \<longrightarrow>
        CpuidSpoofHandler cpx s 0x80000001 0 =
          (cp 0x80000001)\<lparr>cr_Ecx := cr_Ecx (cp 0x80000001) OR BIT2\<rparr>)"
proof -
  have bound: "length (fold f l t) \<le> MAX_CPUID_OVERRIDES"
    if "length t \<le> MAX_CPUID_OVERRIDES"
      "\<And>i t. length t \<le> MAX_CPUID_OVERRIDES \<Longrightarrow> length (f i t) \<le> MAX_CPUID_OVERRIDES"
    for f :: "u32 \<Rightarrow> cpuid_table \<Rightarrow> cpuid_table" and l t
    using that by (induction l arbitrary: t) simp_all
  have "length (base_table cp cpx) \<le> MAX_CPUID_OVERRIDES"
    using base_table_length(2) [of cp cpx] by (simp add: MAX_CPUID_OVERRIDES_def)
  then have "length (cs_Overrides s) \<le> MAX_CPUID_OVERRIDES"
    using assms
    by (auto simp: init_cases extended_leaf_step_def other_leaf_step_def Let_def
        intro!: bound put_bounded split: if_splits)
  then show ?thesis
    using handler_leaf01 [OF assms] handler_hypervisor [OF assms] handler_svm [OF assms]
    by (simp add: leaf01_regs_def hv_regs_def BEMI_HV_MAX_LEAF_def BEMI_HV_SIGNATURE_EBX_def
        BEMI_HV_SIGNATURE_ECX_def BEMI_HV_SIGNATURE_EDX_def)
qed

theorem cpuid_forced_leaves_witness:
  "\<exists>s. CpuidSpoofInit (\<lambda>_. hv_regs 9 8 7 6) (\<lambda>_ _. hv_regs 9 8 7 6) = Some s \<and>
     cr_Ecx (CpuidSpoofHandler (\<lambda>_ _. hv_regs 9 8 7 6) s 1 0) = 0x80000027"
proof -
  obtain s where "CpuidSpoofInit (\<lambda>_. hv_regs 9 8 7 6) (\<lambda>_ _. hv_regs 9 8 7 6) = Some s"
    by (simp add: init_cases hv_regs_def)
  with cpuid_forced_leaves [OF this] show ?thesis by (simp add: hv_regs_def)
qed

text \<open>What the table holds for a leaf the code does not change is an answer of the processor: the
  one with the sub-leaf, or for sub-leaf 0 possibly the one of plain CPUID.\<close>

lemma handler_unchanged:
  assumes "CpuidSpoofInit cp cpx = Some s"
    and "leaf \<noteq> 4" "(leaf, sub) \<noteq> (1, 0)" "(leaf, sub) \<noteq> (0x80000001, 0)"
    and "\<not> (0x40000000 \<le> leaf \<and> leaf \<le> 0x4FFFFFFF)"
    and "\<not> (0x80000009 \<le> leaf \<and> leaf \<le> 0x80000018)"
  shows "CpuidSpoofHandler cpx s leaf sub = cpx leaf sub \<or>
    sub = 0 \<and> CpuidSpoofHandler cpx s leaf sub = cp leaf"
proof (cases "ovr.lookup (leaf, sub) (cs_Overrides s)")
  case None
  then have "find_override (leaf, sub) (cs_Overrides s) = None"
    by (simp add: ovr.search_None)
  moreover have "\<not> (0x40000001 \<le> leaf \<and> leaf \<le> 0x4FFFFFFF)"
    using assms(5) order_trans [of "0x40000000" "0x40000001" leaf] by auto
  ultimately show ?thesis
    using assms(6) by (auto simp: CpuidSpoofHandler_def Let_def)
next
  case (Some e)
  then have e: "e \<in> set (cs_Overrides s)" "co_Leaf e = leaf" "co_Subleaf e = sub"
    using ovr.lookup_Some by fastforce+
  have "entry_ok cp cpx e" by (rule init_entries_ok [OF assms(1) e(1)])
  moreover have "\<not> hv_leaf leaf" using assms(5) by (simp add: hv_leaf_def)
  ultimately have "co_Regs e = cpx leaf sub \<or> sub = 0 \<and> co_Regs e = cp leaf"
    using assms(2-4) unfolding entry_ok_def e(2,3) by (auto split: if_splits)
  with Some show ?thesis by (simp add: handler_hit)
qed

text \<open>On a processor whose sub-leaf 0 is the plain leaf, the table changes nothing else: every
  query is answered as the processor would, except the cache leaf 4, leaf 1 and extended leaf
  1 (sub-leaf 0), the hypervisor range, and the reserved extended leaves 0x80000009 to
  0x80000018.\<close>

theorem cpuid_otherwise_transparent:
  assumes "CpuidSpoofInit cp cpx = Some s" "\<And>l. cp l = cpx l 0"
    and "leaf \<noteq> 4" "(leaf, sub) \<noteq> (1, 0)" "(leaf, sub) \<noteq> (0x80000001, 0)"
    and "\<not> (0x40000000 \<le> leaf \<and> leaf \<le> 0x4FFFFFFF)"
    and "\<not> (0x80000009 \<le> leaf \<and> leaf \<le> 0x80000018)"
  shows "CpuidSpoofHandler cpx s leaf sub = cpx leaf sub"
  using handler_unchanged [OF assms(1,3-7)] assms(2) [of leaf] by auto

theorem cpuid_otherwise_transparent_witness:
  "\<exists>s. CpuidSpoofInit (\<lambda>l. hv_regs 9 l 7 6) (\<lambda>l _. hv_regs 9 l 7 6) = Some s \<and>
     CpuidSpoofHandler (\<lambda>l _. hv_regs 9 l 7 6) s 0 0 = hv_regs 9 0 7 6"
proof -
  obtain s where s: "CpuidSpoofInit (\<lambda>l. hv_regs 9 l 7 6) (\<lambda>l _. hv_regs 9 l 7 6) = Some s"
    by (simp add: init_cases hv_regs_def)
  from cpuid_otherwise_transparent [OF s refl, of 0 0] s show ?thesis by simp
qed

end
