(* ===== verification/GuestState.thy ===== *)
theory GuestState
  imports Hardware
begin

text \<open>
  The structures the hypervisor's exit handlers work on, \<open>hypervisor/common/hypervisorbackend.h\<close>.
  The first sixteen fields of \<open>GUEST_STATE\<close> are the general-purpose registers; the code also
  reads and writes them through \<open>(UINT64 *)GuestState\<close>, so they are one array here, indexed in
  the order of the struct.
\<close>

definition MAX_LOGICAL_PROCESSORS :: nat where "MAX_LOGICAL_PROCESSORS = 256"

datatype hypervisor_vendor = HypervisorIntel | HypervisorAmd | HypervisorUnknown

text \<open>Positions of the registers in the struct.\<close>

definition GuestRax :: nat where "GuestRax = 0"
definition GuestRbx :: nat where "GuestRbx = 1"
definition GuestRcx :: nat where "GuestRcx = 2"
definition GuestRdx :: nat where "GuestRdx = 3"
definition GuestRsi :: nat where "GuestRsi = 4"
definition GuestRdi :: nat where "GuestRdi = 5"
definition GuestRbp :: nat where "GuestRbp = 6"
definition GuestRsp :: nat where "GuestRsp = 7"

lemmas gpr_index = GuestRax_def GuestRbx_def GuestRcx_def GuestRdx_def GuestRsi_def GuestRdi_def
  GuestRbp_def GuestRsp_def

record guest_state =
  gs_Gpr :: "nat \<Rightarrow> u64"
  gs_Rip :: u64
  gs_Rflags :: u64
  gs_Cr0 :: u64
  gs_Cr2 :: u64
  gs_Cr3 :: u64
  gs_Cr4 :: u64
  gs_Efer :: u64

definition zero_guest :: guest_state where
  "zero_guest = \<lparr>gs_Gpr = (\<lambda>_. 0), gs_Rip = 0, gs_Rflags = 0, gs_Cr0 = 0, gs_Cr2 = 0, gs_Cr3 = 0,
     gs_Cr4 = 0, gs_Efer = 0\<rparr>"

record vm_exit_info =
  ei_ExitReason :: u64
  ei_ExitQualification :: u64
  ei_GuestRip :: u64
  ei_GuestRsp :: u64
  ei_InstructionLength :: u64
  ei_ExitInterruptInfo :: u64
  ei_ExitInterruptErrorCode :: u64

definition zero_exit :: vm_exit_info where
  "zero_exit = \<lparr>ei_ExitReason = 0, ei_ExitQualification = 0, ei_GuestRip = 0, ei_GuestRsp = 0,
     ei_InstructionLength = 0, ei_ExitInterruptInfo = 0, ei_ExitInterruptErrorCode = 0\<rparr>"

text \<open>The save area of the assembly stubs holds fifteen registers: the struct's without RSP.\<close>

definition load_gprs :: "(nat \<Rightarrow> u64) \<Rightarrow> guest_state \<Rightarrow> guest_state" where
  "load_gprs base g = g\<lparr>gs_Gpr := (\<lambda>i. if i < 7 then base i
     else if i = GuestRsp then gs_Gpr g GuestRsp
     else if i < 16 then base (i - 1) else gs_Gpr g i)\<rparr>"

definition store_gprs :: "guest_state \<Rightarrow> (nat \<Rightarrow> u64) \<Rightarrow> (nat \<Rightarrow> u64)" where
  "store_gprs g base = (\<lambda>i. if i < 7 then gs_Gpr g i
     else if i < 15 then gs_Gpr g (i + 1) else base i)"

lemma store_load_gprs: "store_gprs (load_gprs base g) base = base"
  by (auto simp: store_gprs_def load_gprs_def GuestRsp_def)

definition advance_rip :: "vm_exit_info \<Rightarrow> guest_state \<Rightarrow> guest_state" where
  "advance_rip ei g = g\<lparr>gs_Rip := gs_Rip g + ei_InstructionLength ei\<rparr>"

definition set_gpr :: "nat \<Rightarrow> u64 \<Rightarrow> guest_state \<Rightarrow> guest_state" where
  "set_gpr i v g = g\<lparr>gs_Gpr := (gs_Gpr g)(i := v)\<rparr>"

lemma set_gpr_simps [simp]:
  "gs_Gpr (set_gpr i v g) = (gs_Gpr g)(i := v)"
  "gs_Rip (set_gpr i v g) = gs_Rip g" "gs_Rflags (set_gpr i v g) = gs_Rflags g"
  "gs_Cr0 (set_gpr i v g) = gs_Cr0 g" "gs_Cr3 (set_gpr i v g) = gs_Cr3 g"
  "gs_Cr4 (set_gpr i v g) = gs_Cr4 g" "gs_Efer (set_gpr i v g) = gs_Efer g"
  by (simp_all add: set_gpr_def)

lemma advance_rip_simps [simp]:
  "gs_Gpr (advance_rip ei g) = gs_Gpr g"
  "gs_Rip (advance_rip ei g) = gs_Rip g + ei_InstructionLength ei"
  "gs_Rflags (advance_rip ei g) = gs_Rflags g"
  "gs_Cr0 (advance_rip ei g) = gs_Cr0 g" "gs_Cr3 (advance_rip ei g) = gs_Cr3 g"
  "gs_Cr4 (advance_rip ei g) = gs_Cr4 g" "gs_Efer (advance_rip ei g) = gs_Efer g"
  by (simp_all add: advance_rip_def)

end
