(* ===== verification/InterruptController.thy ===== *)
theory InterruptController
  imports Prelude
begin

text \<open>
  The contract of an interrupt controller as the exit handlers use it: requested and
  in-service interrupts are finite sets of vectors; a request adds a vector, an
  acknowledgement moves the highest requested vector into service, an end-of-interrupt
  retires the highest vector in service. The local APIC of \<open>hwcompat/apic/ApicShadow.c\<close>
  provides it (theory \<open>ApicShadow\<close>).
\<close>

fun ack_all :: "('s \<Rightarrow> nat option \<times> 's) \<Rightarrow> nat \<Rightarrow> 's \<Rightarrow> nat list \<times> 's" where
  "ack_all ack 0 s = ([], s)"
| "ack_all ack (Suc n) s =
     (case ack s of
        (None, s') \<Rightarrow> ([], s')
      | (Some v, s') \<Rightarrow> (let (vs, t) = ack_all ack n s' in (v # vs, t)))"

locale interrupt_controller =
  fixes irr :: "'s \<Rightarrow> nat set" and isr :: "'s \<Rightarrow> nat set"
    and request :: "nat \<Rightarrow> 's \<Rightarrow> 's"
    and ack :: "'s \<Rightarrow> nat option \<times> 's"
    and eoi :: "'s \<Rightarrow> 's"
  assumes finite_irr: "finite (irr s)"
    and finite_isr: "finite (isr s)"
    and request_irr: "v < 256 \<Longrightarrow> irr (request v s) = insert v (irr s)"
    and request_isr: "v < 256 \<Longrightarrow> isr (request v s) = isr s"
    and ack_none: "irr s = {} \<Longrightarrow> ack s = (None, s)"
    and ack_vector: "irr s \<noteq> {} \<Longrightarrow> fst (ack s) = Some (Max (irr s))"
    and ack_irr: "irr s \<noteq> {} \<Longrightarrow> irr (snd (ack s)) = irr s - {Max (irr s)}"
    and ack_isr: "irr s \<noteq> {} \<Longrightarrow> isr (snd (ack s)) = insert (Max (irr s)) (isr s)"
    and eoi_irr: "irr (eoi s) = irr s"
    and eoi_isr: "isr (eoi s) = (if isr s = {} then {} else isr s - {Max (isr s)})"
begin

lemma irr_requests:
  "(\<And>v. v \<in> set vs \<Longrightarrow> v < 256) \<Longrightarrow> irr (fold request vs s) = irr s \<union> set vs"
  by (induction vs arbitrary: s) (auto simp: request_irr)

lemma isr_requests:
  "(\<And>v. v \<in> set vs \<Longrightarrow> v < 256) \<Longrightarrow> isr (fold request vs s) = isr s"
  by (induction vs arbitrary: s) (auto simp: request_isr)

text \<open>Acknowledging as often as there are requests delivers every requested vector once, in
  descending order, and leaves none requested.\<close>

lemma ack_all_descending:
  "card (irr s) = n \<Longrightarrow>
     fst (ack_all ack n s) = rev (sorted_list_of_set (irr s)) \<and>
     irr (snd (ack_all ack n s)) = {} \<and>
     isr (snd (ack_all ack n s)) = isr s \<union> irr s"
proof (induction n arbitrary: s)
  case 0
  then show ?case using finite_irr [of s] by simp
next
  case (Suc n)
  let ?m = "Max (irr s)" and ?t = "snd (ack s)"
  have ne: "irr s \<noteq> {}" using Suc.prems by auto
  have m: "?m \<in> irr s" using finite_irr ne by (rule Max_in)
  have a: "ack s = (Some ?m, ?t)" using ack_vector [OF ne] by (metis prod.collapse)
  have "card (irr ?t) = n" using Suc.prems finite_irr m by (simp add: ack_irr [OF ne])
  note ih = Suc.IH [OF this]
  have "sorted_list_of_set (irr s) = sorted_list_of_set (irr s - {?m}) @ [?m]"
  proof (rule sorted_list_of_set_unique [THEN iffD1])
    show "finite (irr s)" by (rule finite_irr)
    have "x < ?m" if "x \<in> irr s - {?m}" for x
      using that Max_ge [OF finite_irr, of x s] by (auto simp: le_neq_implies_less)
    then show "sorted_wrt (<) (sorted_list_of_set (irr s - {?m}) @ [?m]) \<and>
        set (sorted_list_of_set (irr s - {?m}) @ [?m]) = irr s \<and>
        length (sorted_list_of_set (irr s - {?m}) @ [?m]) = card (irr s)"
      using m Suc.prems finite_irr by (auto simp: sorted_wrt_append)
  qed
  moreover have "ack_all ack (Suc n) s =
      (?m # fst (ack_all ack n ?t), snd (ack_all ack n ?t))"
    by (subst ack_all.simps(2), subst a) (simp add: split_def Let_def)
  moreover have "insert ?m (isr s \<union> (irr s - {?m})) = isr s \<union> irr s" using m by auto
  ultimately show ?case using ih by (simp add: ack_irr [OF ne] ack_isr [OF ne])
qed

text \<open>An acknowledgement followed at once by its end-of-interrupt restores the vectors in
  service when the acknowledged vector outranks them, and only then.\<close>

lemma ack_eoi_restores:
  assumes "irr s \<noteq> {}" "\<forall>v\<in>isr s. v < Max (irr s)"
  shows "isr (eoi (snd (ack s))) = isr s"
proof -
  let ?m = "Max (irr s)"
  have "Max (insert ?m (isr s)) = ?m"
    using finite_isr assms(2) by (intro Max_eqI) auto
  moreover have "?m \<notin> isr s" using assms(2) by auto
  ultimately show ?thesis by (simp add: eoi_isr ack_isr [OF assms(1)])
qed

lemma ack_eoi_wrong:
  assumes "irr s \<noteq> {}" "w \<in> isr s" "Max (irr s) < w"
  shows "Max (irr s) \<in> isr (eoi (snd (ack s))) \<and>
    Max (isr s) \<notin> isr (eoi (snd (ack s)))"
proof -
  let ?m = "Max (irr s)"
  have "w \<le> Max (isr s)" using finite_isr assms(2) by (rule Max_ge)
  moreover have "Max (insert ?m (isr s)) = max ?m (Max (isr s))"
    using finite_isr assms(2) by (intro Max_insert) auto
  moreover have "max ?m (Max (isr s)) = Max (isr s)"
    by (rule max_absorb2) (use calculation(1) assms(3) in linarith)
  ultimately show ?thesis using assms(3) by (auto simp: eoi_isr ack_isr [OF assms(1)])
qed

end

end
