(* ===== verification/ApicShadow.thy ===== *)
theory ApicShadow
  imports InterruptController
begin

text \<open>
  The shadow of the local APIC and of the two interrupt masks of the 8259,
  \<open>hwcompat/apic/ApicShadow.c\<close>. The file's static variables are the record \<open>apic_state\<close>; the
  register file \<open>gLapicRegs\<close> is a function on its 256 indices. \<open>AsmMsb32\<close> is not under src/:
  it is the parameter \<open>msb\<close>, and what the code needs of it (that \<open>31 - msb x\<close> is the highest
  bit of a non-zero \<open>x\<close>) is the predicate \<open>msb_law\<close>.
\<close>

section \<open>State and operations\<close>

definition LAPIC_REGS_SIZE :: nat where "LAPIC_REGS_SIZE = 0x400"

record apic_state =
  ap_Regs :: "nat \<Rightarrow> u32"
  ap_ApicId :: u32
  ap_TimerEnabled :: bool
  ap_TimerInitialCount :: u32
  ap_TimerCurrentCount :: u32
  ap_TimerLvt :: u32
  ap_PicMasterMask :: u8
  ap_PicSlaveMask :: u8

definition ApicShadowInit :: "u32 \<Rightarrow> apic_state" where
  "ApicShadowInit ApicId =
     \<lparr>ap_Regs = (\<lambda>_. 0)(0x20 div 4 := push_bit 24 ApicId, 0x30 div 4 := 0x50014,
        0xF0 div 4 := 0xFF),
      ap_ApicId = ApicId, ap_TimerEnabled = False, ap_TimerInitialCount = 0,
      ap_TimerCurrentCount = 0, ap_TimerLvt = 0x10000, ap_PicMasterMask = 0, ap_PicSlaveMask = 0\<rparr>"

definition ApicShadowRead :: "u32 \<Rightarrow> apic_state \<Rightarrow> u32" where
  "ApicShadowRead Offset s =
     (if unat Offset \<ge> LAPIC_REGS_SIZE then 0 else ap_Regs s (unat Offset div 4))"

text \<open>The register that holds the bit of a vector, in the bank of eight that starts at byte
  \<open>base\<close> (0x100: in service, 0x200: requested); \<open>i\<close> is the vector divided by 32.\<close>

definition bank_reg :: "nat \<Rightarrow> nat \<Rightarrow> nat" where
  "bank_reg base i = (base + i * 16) div 4"

definition ApicShadowInjectInterrupt :: "u32 \<Rightarrow> apic_state \<Rightarrow> u32 \<times> apic_state" where
  "ApicShadowInjectInterrupt Vector s =
     (let regIndex = bank_reg 0x200 (unat Vector div 32) in
      if regIndex < LAPIC_REGS_SIZE div 4 then
        (Vector, s\<lparr>ap_Regs := (ap_Regs s)(regIndex :=
                      ap_Regs s regIndex OR push_bit (unat Vector mod 32) 1)\<rparr>)
      else (0, s))"

text \<open>The downward loop over the eight registers of a bank stops at the first non-zero one.\<close>

definition bank_scan :: "nat \<Rightarrow> apic_state \<Rightarrow> nat option" where
  "bank_scan base s = find (\<lambda>i. ap_Regs s (bank_reg base i) \<noteq> 0) (rev [0..<8])"

definition ApicShadowEoi :: "(u32 \<Rightarrow> u32) \<Rightarrow> apic_state \<Rightarrow> apic_state" where
  "ApicShadowEoi msb s =
     (case bank_scan 0x100 s of
        None \<Rightarrow> s
      | Some i \<Rightarrow>
          (let r = bank_reg 0x100 i; bit = 31 - msb (ap_Regs s r)
           in s\<lparr>ap_Regs := (ap_Regs s)(r := ap_Regs s r AND NOT (push_bit (unat bit) 1))\<rparr>))"

definition ApicShadowWrite :: "(u32 \<Rightarrow> u32) \<Rightarrow> u32 \<Rightarrow> u32 \<Rightarrow> apic_state \<Rightarrow> apic_state" where
  "ApicShadowWrite msb Offset Value s =
     (if unat Offset \<ge> LAPIC_REGS_SIZE then s
      else
        (let s = s\<lparr>ap_Regs := (ap_Regs s)(unat Offset div 4 := Value)\<rparr> in
         if Offset = 0x320 then s\<lparr>ap_TimerLvt := Value\<rparr>
         else if Offset = 0x380 then
           s\<lparr>ap_TimerInitialCount := Value, ap_TimerCurrentCount := Value,
             ap_TimerEnabled := (Value > 0 \<and> ap_TimerLvt s AND BIT16 = 0)\<rparr>
         else if Offset = 0xB0 then ApicShadowEoi msb s
         else s))"

definition ApicShadowTimerTick :: "apic_state \<Rightarrow> apic_state" where
  "ApicShadowTimerTick s =
     (if ap_TimerEnabled s \<and> ap_TimerCurrentCount s > 0 then
        (let s = s\<lparr>ap_TimerCurrentCount := ap_TimerCurrentCount s - 1\<rparr> in
         if ap_TimerCurrentCount s = 0 then
           (let vector = ap_TimerLvt s AND 0xFF;
                s = (if vector \<ge> 16 then snd (ApicShadowInjectInterrupt vector s) else s)
            in if ap_TimerLvt s AND BIT17 \<noteq> 0
               then s\<lparr>ap_TimerCurrentCount := ap_TimerInitialCount s\<rparr>
               else s\<lparr>ap_TimerEnabled := False\<rparr>)
         else s)
      else s)"

text \<open>The out-parameter and the BOOLEAN result are one option. The callers pass a non-NULL
  pointer.\<close>

definition ApicGetPendingInterrupt :: "(u32 \<Rightarrow> u32) \<Rightarrow> apic_state \<Rightarrow> u32 option \<times> apic_state" where
  "ApicGetPendingInterrupt msb s =
     (case bank_scan 0x200 s of
        None \<Rightarrow> (None, s)
      | Some i \<Rightarrow>
          (let r = bank_reg 0x200 i; bit = 31 - msb (ap_Regs s r); v = of_nat i * 32 + bit;
               s = s\<lparr>ap_Regs := (ap_Regs s)(r := ap_Regs s r AND NOT (push_bit (unat bit) 1))\<rparr>;
               ir = bank_reg 0x100 i;
               s = s\<lparr>ap_Regs := (ap_Regs s)(ir := ap_Regs s ir OR push_bit (unat bit) 1)\<rparr>
           in (Some v, s)))"

definition ApicHandleMmioAccess ::
  "(u32 \<Rightarrow> u32) \<Rightarrow> u64 \<Rightarrow> bool \<Rightarrow> u64 \<Rightarrow> apic_state \<Rightarrow> bool \<times> u64 \<times> apic_state" where
  "ApicHandleMmioAccess msb gpa isWrite RegisterValue s =
     (if gpa < 0xFEE00000 \<or> gpa \<ge> 0xFEE01000 then (False, RegisterValue, s)
      else
        (let offset = ucast (gpa - 0xFEE00000) in
         if isWrite then (True, RegisterValue, ApicShadowWrite msb offset (ucast RegisterValue) s)
         else (True, ucast (ApicShadowRead offset s), s)))"

definition Pic8259Write :: "u16 \<Rightarrow> u8 \<Rightarrow> apic_state \<Rightarrow> apic_state" where
  "Pic8259Write Port Value s =
     (if Port = 0x21 then s\<lparr>ap_PicMasterMask := Value\<rparr>
      else if Port = 0xA1 then s\<lparr>ap_PicSlaveMask := Value\<rparr>
      else s)"

definition Pic8259Read :: "u16 \<Rightarrow> apic_state \<Rightarrow> u8" where
  "Pic8259Read Port s =
     (if Port = 0x21 then ap_PicMasterMask s
      else if Port = 0xA1 then ap_PicSlaveMask s
      else 0)"

section \<open>The banks as sets of vectors\<close>

definition bank_set :: "nat \<Rightarrow> apic_state \<Rightarrow> nat set" where
  "bank_set base s = {v. v < 256 \<and> bit (ap_Regs s (bank_reg base (v div 32))) (v mod 32)}"

definition apic_irr :: "apic_state \<Rightarrow> nat set" where "apic_irr = bank_set 0x200"
definition apic_isr :: "apic_state \<Rightarrow> nat set" where "apic_isr = bank_set 0x100"

lemma finite_bank_set: "finite (bank_set base s)"
  by (rule finite_subset [of _ "{..<256}"]) (auto simp: bank_set_def)

definition msb_law :: "(u32 \<Rightarrow> u32) \<Rightarrow> bool" where
  "msb_law msb \<longleftrightarrow> (\<forall>x. x \<noteq> 0 \<longrightarrow>
     unat (msb x) \<le> 31 \<and> bit x (31 - unat (msb x)) \<and> (\<forall>n>31 - unat (msb x). \<not> bit x n))"

text \<open>A function with that law: the number of leading zeros.\<close>

definition clz32 :: "u32 \<Rightarrow> u32" where
  "clz32 x = of_nat (case find (\<lambda>k. bit x (31 - k)) [0..<32] of Some k \<Rightarrow> k | None \<Rightarrow> 32)"

lemma clz32_law: "msb_law clz32"
proof -
  have "unat (clz32 x) \<le> 31 \<and> bit x (31 - unat (clz32 x)) \<and> (\<forall>n>31 - unat (clz32 x). \<not> bit x n)"
    if x: "x \<noteq> 0" for x
  proof -
    obtain n where n: "bit x n" using x by (auto simp: bit_eq_iff)
    then have "n < 32" using bit_imp_le_length [of x n] by simp
    with n have "find (\<lambda>k. bit x (31 - k)) [0..<32] \<noteq> None"
      by (auto simp: find_None_iff intro!: exI [of _ "31 - n"])
    then obtain k where k: "find (\<lambda>k. bit x (31 - k)) [0..<32] = Some k" by auto
    then have k': "k < 32" "bit x (31 - k)" "\<And>j. j < k \<Longrightarrow> \<not> bit x (31 - j)"
      by (auto simp: find_Some_iff)
    have "unat (clz32 x) = k" using k k'(1) by (simp add: clz32_def unat_of_nat)
    moreover have "\<not> bit x m" if "m > 31 - k" for m
      using that k'(3) [of "31 - m"] bit_imp_le_length [of x m] by (cases "m < 32") auto
    ultimately show ?thesis using k' by auto
  qed
  then show ?thesis by (simp add: msb_law_def)
qed

text \<open>Setting and clearing one bit of one register of a bank.\<close>

lemma bank_reg_inj: "4 dvd base \<Longrightarrow> bank_reg base i = bank_reg base j \<longleftrightarrow> i = j"
  by (auto simp: bank_reg_def elim!: dvdE)

lemma bank_reg_apart: "i < 8 \<Longrightarrow> j < 8 \<Longrightarrow> bank_reg 0x200 i \<noteq> bank_reg 0x100 j"
  by (simp add: bank_reg_def)

lemma bit_set1: "k < 32 \<Longrightarrow> bit (x OR push_bit k 1 :: u32) n \<longleftrightarrow> bit x n \<or> n = k"
  by (auto simp: bit_or_iff bit_exp_iff)

lemma bit_clear1: "k < 32 \<Longrightarrow> bit (x AND NOT (push_bit k 1) :: u32) n \<longleftrightarrow> bit x n \<and> n \<noteq> k"
  using bit_imp_le_length [of x n]
  by (auto simp: bit_and_iff bit_not_iff bit_exp_iff)

lemma vector_eq: "w = v \<longleftrightarrow> w div 32 = v div 32 \<and> w mod 32 = v mod 32" for w v :: nat
  by (metis div_mult_mod_eq)

lemma bank_set_upd:
  assumes "4 dvd base"
  shows "bank_set base (s\<lparr>ap_Regs := (ap_Regs s)(bank_reg base i := x)\<rparr>) =
    {v. v < 256 \<and> (if v div 32 = i then bit x (v mod 32) else v \<in> bank_set base s)}"
  using assms by (auto simp: bank_set_def bank_reg_inj)

lemma bank_set_set:
  assumes "4 dvd base" "v < 256"
  shows "bank_set base (s\<lparr>ap_Regs := (ap_Regs s)(bank_reg base (v div 32) :=
      ap_Regs s (bank_reg base (v div 32)) OR push_bit (v mod 32) 1)\<rparr>) = insert v (bank_set base s)"
proof (rule set_eqI)
  fix w
  have "w = v \<longleftrightarrow> w div 32 = v div 32 \<and> w mod 32 = v mod 32" by (rule vector_eq)
  then show "w \<in> bank_set base (s\<lparr>ap_Regs := (ap_Regs s)(bank_reg base (v div 32) :=
      ap_Regs s (bank_reg base (v div 32)) OR push_bit (v mod 32) 1)\<rparr>)
    \<longleftrightarrow> w \<in> insert v (bank_set base s)"
    unfolding bank_set_upd [OF assms(1)]
    using assms(2) by (auto simp: bit_set1 bank_set_def simp del: push_bit_of_1)
qed

lemma bank_set_clear:
  assumes "4 dvd base" "v < 256"
  shows "bank_set base (s\<lparr>ap_Regs := (ap_Regs s)(bank_reg base (v div 32) :=
      ap_Regs s (bank_reg base (v div 32)) AND NOT (push_bit (v mod 32) 1))\<rparr>) = bank_set base s - {v}"
proof (rule set_eqI)
  fix w
  have "w = v \<longleftrightarrow> w div 32 = v div 32 \<and> w mod 32 = v mod 32" by (rule vector_eq)
  then show "w \<in> bank_set base (s\<lparr>ap_Regs := (ap_Regs s)(bank_reg base (v div 32) :=
      ap_Regs s (bank_reg base (v div 32)) AND NOT (push_bit (v mod 32) 1))\<rparr>)
    \<longleftrightarrow> w \<in> bank_set base s - {v}"
    unfolding bank_set_upd [OF assms(1)]
    using assms(2) by (auto simp: bit_clear1 bank_set_def simp del: push_bit_of_1)
qed

lemma bank_set_other:
  assumes "\<And>i. i < 8 \<Longrightarrow> r \<noteq> bank_reg base i"
  shows "bank_set base (s\<lparr>ap_Regs := (ap_Regs s)(r := x)\<rparr>) = bank_set base s"
proof -
  have "bank_reg base (v div 32) \<noteq> r" if "v < 256" for v
    using assms [of "v div 32"] less_mult_imp_div_less [of v 8 32] that by auto
  then show ?thesis by (auto simp: bank_set_def)
qed

lemma bank_set_regs: "ap_Regs s = ap_Regs t \<Longrightarrow> bank_set base s = bank_set base t"
  by (simp add: bank_set_def)

section \<open>The scan finds the highest vector\<close>

lemma bank_scan_None:
  assumes "bank_scan base s = None"
  shows "bank_set base s = {}"
proof -
  have "ap_Regs s (bank_reg base (v div 32)) = 0" if "v < 256" for v
  proof -
    have "v div 32 < 8" using that less_mult_imp_div_less [of v 8 32] by simp
    then have "v div 32 \<in> set (rev [0..<8])" by simp
    with assms show ?thesis unfolding bank_scan_def find_None_iff by blast
  qed
  then show ?thesis by (auto simp: bank_set_def)
qed

lemma bank_scan_Some:
  assumes "bank_scan base s = Some i"
  shows "i < 8 \<and> ap_Regs s (bank_reg base i) \<noteq> 0 \<and>
    (\<forall>j. i < j \<and> j < 8 \<longrightarrow> ap_Regs s (bank_reg base j) = 0)"
proof -
  obtain k where k: "k < 8" "i = rev [0..<8] ! k" "ap_Regs s (bank_reg base i) \<noteq> 0"
    "\<forall>j<k. ap_Regs s (bank_reg base (rev [0..<8] ! j)) = 0"
    using assms by (auto simp: bank_scan_def find_Some_iff)
  have nth: "rev [0..<8] ! j = 7 - j" if "j < 8" for j :: nat
    using that by (simp add: rev_nth)
  have "ap_Regs s (bank_reg base j) = 0" if "i < j" "j < 8" for j
    using k that nth [of "7 - j"] nth [of k] by (auto dest!: spec [of _ "7 - j"])
  with k nth [of k] show ?thesis by auto
qed

text \<open>The vector the loop computes from the register it stops at.\<close>

definition bank_top :: "(u32 \<Rightarrow> u32) \<Rightarrow> nat \<Rightarrow> apic_state \<Rightarrow> nat \<Rightarrow> nat" where
  "bank_top msb base s i = i * 32 + (31 - unat (msb (ap_Regs s (bank_reg base i))))"

lemma bank_top_Max:
  assumes "msb_law msb" "bank_scan base s = Some i"
  shows "bank_top msb base s i < 256" and "bank_top msb base s i \<in> bank_set base s"
    and "Max (bank_set base s) = bank_top msb base s i"
proof -
  let ?x = "ap_Regs s (bank_reg base i)" and ?v = "bank_top msb base s i"
  note i = bank_scan_Some [OF assms(2)]
  have m: "unat (msb ?x) \<le> 31" "bit ?x (31 - unat (msb ?x))" "\<forall>n>31 - unat (msb ?x). \<not> bit ?x n"
    using assms(1) i by (auto simp: msb_law_def)
  have d: "?v div 32 = i" "?v mod 32 = 31 - unat (msb ?x)" by (simp_all add: bank_top_def)
  show lt: "?v < 256" using i unfolding bank_top_def by linarith
  then show mem: "?v \<in> bank_set base s" using m(2) by (simp add: bank_set_def d)
  have "w \<le> ?v" if w: "w \<in> bank_set base s" for w
  proof -
    have w': "w < 256" "bit (ap_Regs s (bank_reg base (w div 32))) (w mod 32)"
      using w by (auto simp: bank_set_def)
    have "w div 32 < 8" using w'(1) less_mult_imp_div_less [of w 8 32] by simp
    with i w'(2) have "w div 32 \<le> i" by (metis bit_0_eq bot_apply bot_bool_def not_le)
    moreover have "w mod 32 \<le> 31 - unat (msb ?x)" if "w div 32 = i"
      using m(3) w'(2) that by (metis not_le)
    ultimately have "w div 32 * 32 + w mod 32 \<le> i * 32 + (31 - unat (msb ?x))"
      by (cases "w div 32 = i") auto
    then show ?thesis by (simp add: bank_top_def)
  qed
  with mem show "Max (bank_set base s) = ?v" by (intro Max_eqI finite_bank_set)
qed

lemma msb_sub: "msb_law msb \<Longrightarrow> x \<noteq> 0 \<Longrightarrow> unat (31 - msb x) = 31 - unat (msb x)"
  by (simp add: msb_law_def unat_sub word_le_nat_alt)

lemma bank_top_parts:
  "bank_top msb base s i div 32 = i"
  "bank_top msb base s i mod 32 = 31 - unat (msb (ap_Regs s (bank_reg base i)))"
  by (simp_all add: bank_top_def)

lemma irr_isr_apart:
  "bank_set 0x100 (s\<lparr>ap_Regs := (ap_Regs s)(bank_reg 0x200 i := x)\<rparr>) = bank_set 0x100 s"
  if "i < 8"
  using that bank_reg_apart by (intro bank_set_other) simp

lemma isr_irr_apart:
  "bank_set 0x200 (s\<lparr>ap_Regs := (ap_Regs s)(bank_reg 0x100 i := x)\<rparr>) = bank_set 0x200 s"
  if "i < 8"
  using that bank_reg_apart by (intro bank_set_other) (metis)

text \<open>\<open>ApicGetPendingInterrupt\<close> on the sets.\<close>

lemma pending_cases:
  assumes "msb_law msb"
  obtains (idle) "apic_irr s = {}" "ApicGetPendingInterrupt msb s = (None, s)"
  | (vector) s' where "apic_irr s \<noteq> {}" "Max (apic_irr s) < 256"
      "ApicGetPendingInterrupt msb s = (Some (of_nat (Max (apic_irr s))), s')"
      "apic_irr s' = apic_irr s - {Max (apic_irr s)}"
      "apic_isr s' = insert (Max (apic_irr s)) (apic_isr s)"
      "s' = s\<lparr>ap_Regs := ap_Regs s'\<rparr>"
proof (cases "bank_scan 0x200 s")
  case None
  then show ?thesis
    by (intro idle) (simp_all add: apic_irr_def bank_scan_None ApicGetPendingInterrupt_def)
next
  case (Some i)
  note i = bank_scan_Some [OF Some] and top = bank_top_Max [OF assms Some]
  let ?x = "ap_Regs s (bank_reg 0x200 i)" and ?v = "bank_top msb 0x200 s i"
  have b: "unat (31 - msb ?x) = ?v mod 32"
    using msb_sub [OF assms] i by (simp add: bank_top_parts)
  let ?s1 = "s\<lparr>ap_Regs := (ap_Regs s)(bank_reg 0x200 (?v div 32) :=
      ap_Regs s (bank_reg 0x200 (?v div 32)) AND NOT (push_bit (?v mod 32) 1))\<rparr>"
  let ?s2 = "?s1\<lparr>ap_Regs := (ap_Regs ?s1)(bank_reg 0x100 (?v div 32) :=
      ap_Regs ?s1 (bank_reg 0x100 (?v div 32)) OR push_bit (?v mod 32) 1)\<rparr>"
  have w: "of_nat i * 32 + (31 - msb ?x) = (of_nat ?v :: u32)"
  proof -
    have "(of_nat ?v :: u32) = of_nat i * 32 + of_nat (31 - unat (msb ?x))"
      by (simp add: bank_top_def)
    also have "of_nat (31 - unat (msb ?x)) = 31 - msb ?x"
      using msb_sub [OF assms] i by (metis of_nat_unat ucast_id)
    finally show ?thesis by simp
  qed
  have g: "ApicGetPendingInterrupt msb s = (Some (of_nat ?v), ?s2)"
    using b w by (simp add: ApicGetPendingInterrupt_def Some Let_def bank_top_parts)
  have i8: "?v div 32 < 8" using i by (simp add: bank_top_parts)
  have irr: "bank_set 0x200 ?s2 = bank_set 0x200 s - {?v}"
    by (subst isr_irr_apart [OF i8], rule bank_set_clear) (simp_all add: top(1))
  have isr: "bank_set 0x100 ?s2 = insert ?v (bank_set 0x100 s)"
    by (subst bank_set_set) (simp_all add: top(1) irr_isr_apart [OF i8] del: push_bit_of_1)
  show ?thesis
    by (rule vector [of ?s2])
       (use top g irr isr in \<open>auto simp: apic_irr_def apic_isr_def simp del: push_bit_of_1\<close>)
qed

text \<open>\<open>ApicShadowEoi\<close> and \<open>ApicShadowInjectInterrupt\<close> on the sets.\<close>

lemma eoi_sets:
  assumes "msb_law msb"
  shows "apic_irr (ApicShadowEoi msb s) = apic_irr s"
    and "apic_isr (ApicShadowEoi msb s) =
      (if apic_isr s = {} then {} else apic_isr s - {Max (apic_isr s)})"
proof -
  have "apic_irr (ApicShadowEoi msb s) = apic_irr s \<and>
    apic_isr (ApicShadowEoi msb s) =
      (if apic_isr s = {} then {} else apic_isr s - {Max (apic_isr s)})"
  proof (cases "bank_scan 0x100 s")
    case None
    then show ?thesis by (simp add: apic_isr_def bank_scan_None ApicShadowEoi_def)
  next
    case (Some i)
    note i = bank_scan_Some [OF Some] and top = bank_top_Max [OF assms Some]
    let ?v = "bank_top msb 0x100 s i"
    have b: "unat (31 - msb (ap_Regs s (bank_reg 0x100 i))) = ?v mod 32"
      using msb_sub [OF assms] i by (simp add: bank_top_parts)
    have e: "ApicShadowEoi msb s = s\<lparr>ap_Regs := (ap_Regs s)(bank_reg 0x100 (?v div 32) :=
        ap_Regs s (bank_reg 0x100 (?v div 32)) AND NOT (push_bit (?v mod 32) 1))\<rparr>"
      using b by (simp add: ApicShadowEoi_def Some Let_def bank_top_parts)
    have i8: "?v div 32 < 8" using i by (simp add: bank_top_parts)
    have "bank_set 0x200 (ApicShadowEoi msb s) = bank_set 0x200 s"
      unfolding e by (rule isr_irr_apart [OF i8])
    moreover have "bank_set 0x100 (ApicShadowEoi msb s) = bank_set 0x100 s - {?v}"
      unfolding e by (rule bank_set_clear) (simp_all add: top(1))
    ultimately show ?thesis using top by (auto simp: apic_irr_def apic_isr_def)
  qed
  then show "apic_irr (ApicShadowEoi msb s) = apic_irr s"
    "apic_isr (ApicShadowEoi msb s) =
      (if apic_isr s = {} then {} else apic_isr s - {Max (apic_isr s)})"
    by simp_all
qed

lemma inject_fields:
  assumes "unat v < 256"
  shows "apic_irr (snd (ApicShadowInjectInterrupt v s)) = insert (unat v) (apic_irr s)"
    and "apic_isr (snd (ApicShadowInjectInterrupt v s)) = apic_isr s"
    and "fst (ApicShadowInjectInterrupt v s) = v"
    and "\<exists>r. snd (ApicShadowInjectInterrupt v s) = s\<lparr>ap_Regs := r\<rparr>"
proof -
  have i8: "unat v div 32 < 8" using assms less_mult_imp_div_less [of "unat v" 8 32] by simp
  then have r: "bank_reg 0x200 (unat v div 32) < LAPIC_REGS_SIZE div 4"
    by (simp add: bank_reg_def LAPIC_REGS_SIZE_def)
  then have e: "ApicShadowInjectInterrupt v s =
      (v, s\<lparr>ap_Regs := (ap_Regs s)(bank_reg 0x200 (unat v div 32) :=
        ap_Regs s (bank_reg 0x200 (unat v div 32)) OR push_bit (unat v mod 32) 1)\<rparr>)"
    by (simp add: ApicShadowInjectInterrupt_def Let_def)
  show "apic_irr (snd (ApicShadowInjectInterrupt v s)) = insert (unat v) (apic_irr s)"
    unfolding e apic_irr_def snd_conv by (rule bank_set_set) (simp_all add: assms)
  show "apic_isr (snd (ApicShadowInjectInterrupt v s)) = apic_isr s"
    unfolding e apic_isr_def snd_conv by (rule irr_isr_apart [OF i8])
  show "fst (ApicShadowInjectInterrupt v s) = v"
    "\<exists>r. snd (ApicShadowInjectInterrupt v s) = s\<lparr>ap_Regs := r\<rparr>"
    by (auto simp: e)
qed

section \<open>The shadow is an interrupt controller\<close>

definition apic_request :: "nat \<Rightarrow> apic_state \<Rightarrow> apic_state" where
  "apic_request v s = snd (ApicShadowInjectInterrupt (of_nat v) s)"

definition apic_ack :: "(u32 \<Rightarrow> u32) \<Rightarrow> apic_state \<Rightarrow> nat option \<times> apic_state" where
  "apic_ack msb s = map_prod (map_option unat) id (ApicGetPendingInterrupt msb s)"

lemma unat_vector: "v < 256 \<Longrightarrow> unat (of_nat v :: u32) = v"
  by (simp add: unat_of_nat)

lemma apic_controller:
  assumes "msb_law msb"
  shows "interrupt_controller apic_irr apic_isr apic_request (apic_ack msb) (ApicShadowEoi msb)"
proof
  fix s :: apic_state and v :: nat
  show "finite (apic_irr s)" "finite (apic_isr s)"
    by (simp_all add: apic_irr_def apic_isr_def finite_bank_set)
  show "v < 256 \<Longrightarrow> apic_irr (apic_request v s) = insert v (apic_irr s)"
    "v < 256 \<Longrightarrow> apic_isr (apic_request v s) = apic_isr s"
    using inject_fields [of "of_nat v" s] by (simp_all add: apic_request_def unat_vector)
  show "apic_irr (ApicShadowEoi msb s) = apic_irr s"
    "apic_isr (ApicShadowEoi msb s) =
      (if apic_isr s = {} then {} else apic_isr s - {Max (apic_isr s)})"
    using eoi_sets [OF assms] by auto
  show "apic_irr s = {} \<Longrightarrow> apic_ack msb s = (None, s)"
    "apic_irr s \<noteq> {} \<Longrightarrow> fst (apic_ack msb s) = Some (Max (apic_irr s))"
    "apic_irr s \<noteq> {} \<Longrightarrow> apic_irr (snd (apic_ack msb s)) = apic_irr s - {Max (apic_irr s)}"
    "apic_irr s \<noteq> {} \<Longrightarrow> apic_isr (snd (apic_ack msb s)) = insert (Max (apic_irr s)) (apic_isr s)"
    by (cases rule: pending_cases [OF assms, of s]; simp add: apic_ack_def unat_vector)+
qed

interpretation lapic: interrupt_controller apic_irr apic_isr apic_request "apic_ack clz32"
  "ApicShadowEoi clz32"
  by (rule apic_controller [OF clz32_law])

section \<open>The timer\<close>

text \<open>Programming the timer as a guest does: the vector register, then the initial count.\<close>

definition apic_program_timer :: "(u32 \<Rightarrow> u32) \<Rightarrow> u32 \<Rightarrow> u32 \<Rightarrow> apic_state \<Rightarrow> apic_state" where
  "apic_program_timer msb lvt n s = ApicShadowWrite msb 0x380 n (ApicShadowWrite msb 0x320 lvt s)"

definition timer_at :: "u32 \<Rightarrow> nat \<Rightarrow> nat \<Rightarrow> nat set \<Rightarrow> apic_state \<Rightarrow> bool" where
  "timer_at lvt n k irr t \<longleftrightarrow>
     ap_TimerLvt t = lvt \<and> unat (ap_TimerInitialCount t) = n \<and>
     apic_irr t = (if k < n then irr else insert (unat (lvt AND 0xFF)) irr) \<and>
     (if lvt AND BIT17 \<noteq> 0 \<or> k < n
      then ap_TimerEnabled t \<and> unat (ap_TimerCurrentCount t) = n - k mod n
      else \<not> ap_TimerEnabled t)"

lemma programmed_timer:
  assumes "0 < n" "lvt AND BIT16 = 0"
  shows "timer_at lvt (unat n) 0 (apic_irr s) (apic_program_timer msb lvt n s)"
proof -
  have a: "bank_set 0x200 (t\<lparr>ap_Regs := (ap_Regs t)(200 := x)\<rparr>) = bank_set 0x200 t"
    "bank_set 0x200 (t\<lparr>ap_Regs := (ap_Regs t)(224 := x)\<rparr>) = bank_set 0x200 t" for t x
    by (rule bank_set_other; simp add: bank_reg_def)+
  let ?s1 = "s\<lparr>ap_Regs := (ap_Regs s)(200 := lvt)\<rparr>"
  let ?s2 = "?s1\<lparr>ap_Regs := (ap_Regs ?s1)(224 := n)\<rparr>"
  have "ap_Regs (apic_program_timer msb lvt n s) = ap_Regs ?s2"
    by (simp add: apic_program_timer_def ApicShadowWrite_def LAPIC_REGS_SIZE_def Let_def)
  then have "apic_irr (apic_program_timer msb lvt n s) = bank_set 0x200 ?s2"
    unfolding apic_irr_def by (rule bank_set_regs)
  also have "\<dots> = apic_irr s" unfolding a apic_irr_def ..
  finally have "apic_irr (apic_program_timer msb lvt n s) = apic_irr s" .
  moreover have "0 < unat n" using assms(1) by (simp add: word_less_nat_alt)
  ultimately show ?thesis
    using assms
    by (simp add: timer_at_def apic_program_timer_def ApicShadowWrite_def LAPIC_REGS_SIZE_def Let_def)
qed

lemma timer_tick:
  assumes "timer_at lvt n k irr t" "0 < n" "16 \<le> lvt AND 0xFF"
  shows "timer_at lvt n (Suc k) irr (ApicShadowTimerTick t)"
proof (cases "lvt AND BIT17 \<noteq> 0 \<or> k < n")
  case False
  with assms(1) show ?thesis by (auto simp: timer_at_def ApicShadowTimerTick_def)
next
  case True
  let ?c = "ap_TimerCurrentCount t" and ?v = "lvt AND 0xFF"
  have en: "ap_TimerEnabled t" and c: "unat ?c = n - k mod n" and lvt: "ap_TimerLvt t = lvt"
    and ini: "unat (ap_TimerInitialCount t) = n"
    and irr: "apic_irr t = (if k < n then irr else insert (unat ?v) irr)"
    using assms(1) True by (auto simp: timer_at_def)
  have "k mod n < n" using assms(2) by simp
  then have pos: "0 < unat ?c" using c by simp
  then have pos': "?c > 0" by (simp add: word_less_nat_alt)
  then have dec: "unat (?c - 1) = unat ?c - 1" by (simp add: unat_minus_one)
  have v: "unat ?v < 256"
    using word_and_le1 [of lvt "0xFF"] by (simp add: word_le_nat_alt)
  let ?d = "t\<lparr>ap_TimerCurrentCount := ?c - 1\<rparr>"
  have regs: "apic_irr (x\<lparr>ap_TimerCurrentCount := y\<rparr>) = apic_irr x"
    "apic_irr (x\<lparr>ap_TimerEnabled := b\<rparr>) = apic_irr x" for x y b
    by (simp_all add: apic_irr_def bank_set_def)
  show ?thesis
  proof (cases "?c - 1 = 0")
    case zero: True
    then have "unat ?c = 1" using dec pos by simp
    then have m: "Suc (k mod n) = n" using c \<open>k mod n < n\<close> by simp
    then have sk: "Suc k mod n = 0" by (simp add: mod_Suc)
    have "k < n \<Longrightarrow> Suc k = n" using m by simp
    then have kn: "\<not> Suc k < n" by linarith
    obtain r where r: "snd (ApicShadowInjectInterrupt ?v ?d) = ?d\<lparr>ap_Regs := r\<rparr>"
      using inject_fields(4) [OF v] by blast
    have set: "apic_irr (?d\<lparr>ap_Regs := r\<rparr>) = insert (unat ?v) irr"
      using inject_fields(1) [OF v, of ?d] irr by (simp add: r regs)
    have tick: "ApicShadowTimerTick t = (if lvt AND BIT17 \<noteq> 0
        then ?d\<lparr>ap_Regs := r, ap_TimerCurrentCount := ap_TimerInitialCount t\<rparr>
        else ?d\<lparr>ap_Regs := r, ap_TimerEnabled := False\<rparr>)"
      using zero en pos' lvt assms(3) r by (simp add: ApicShadowTimerTick_def Let_def)
    show ?thesis
    proof (cases "lvt AND BIT17 \<noteq> 0")
      case True
      then have "ApicShadowTimerTick t = ?d\<lparr>ap_Regs := r, ap_TimerCurrentCount := ap_TimerInitialCount t\<rparr>"
        by (simp only: tick if_True not_False_eq_True)
      then show ?thesis
        unfolding timer_at_def
        using True sk kn ini en lvt regs(1) [where x = "?d\<lparr>ap_Regs := r\<rparr>"] set by simp
    next
      case False
      then have "ApicShadowTimerTick t = ?d\<lparr>ap_Regs := r, ap_TimerEnabled := False\<rparr>"
        by (simp only: tick if_False not_True_eq_False)
      then show ?thesis
        unfolding timer_at_def
        using False kn ini lvt regs(2) [where x = "?d\<lparr>ap_Regs := r\<rparr>"] set by simp
    qed
  next
    case nz: False
    then have "unat ?c \<noteq> 1" using dec by (metis diff_self_eq_0 unat_0_iff)
    then have m: "Suc (k mod n) < n" using c pos by linarith
    then have "Suc k mod n = Suc (k mod n)" by (simp add: mod_Suc)
    moreover have "k < n \<longleftrightarrow> Suc k < n" using m by (auto simp: less_Suc_eq)
    moreover have "ApicShadowTimerTick t = ?d"
      using nz en pos' by (simp add: ApicShadowTimerTick_def Let_def)
    ultimately show ?thesis
      unfolding timer_at_def using en lvt ini irr True dec c regs(1) [where x = t] by auto
  qed
qed

section \<open>Properties\<close>

text \<open>With a leading-zero count for \<open>AsmMsb32\<close>, \<open>ApicGetPendingInterrupt\<close> reports none
  exactly when no vector is requested; otherwise it reports the highest requested vector and
  moves it from the requested to the in-service set, changing nothing else but registers.\<close>

theorem apic_pending_refines:
  assumes "msb_law msb"
  shows "case ApicGetPendingInterrupt msb s of
      (None, s') \<Rightarrow> apic_irr s = {} \<and> s' = s
    | (Some v, s') \<Rightarrow> apic_irr s \<noteq> {} \<and> unat v = Max (apic_irr s) \<and>
        apic_irr s' = apic_irr s - {unat v} \<and> apic_isr s' = insert (unat v) (apic_isr s) \<and>
        s' = s\<lparr>ap_Regs := ap_Regs s'\<rparr>"
  by (cases rule: pending_cases [OF assms, of s]) (simp_all add: unat_vector)

theorem apic_pending_refines_witness:
  "msb_law clz32 \<and> fst (ApicGetPendingInterrupt clz32 (ApicShadowInit 0)) = None"
proof -
  have "apic_irr (ApicShadowInit 0) = {}"
    by (auto simp: apic_irr_def bank_set_def ApicShadowInit_def bank_reg_def)
  with apic_pending_refines [OF clz32_law, of "ApicShadowInit 0"] show ?thesis
    by (auto simp: clz32_law split: prod.splits option.splits)
qed

lemma delivers_descending:
  assumes "msb_law msb" "\<forall>v\<in>set vs. v < 256" "apic_irr s = {}"
  shows "case ack_all (apic_ack msb) (card (set vs)) (fold apic_request vs s) of
      (delivered, s') \<Rightarrow> delivered = rev (sorted_list_of_set (set vs)) \<and> apic_irr s' = {} \<and>
        apic_isr s' = apic_isr s \<union> set vs"
proof -
  note ic = apic_controller [OF assms(1)]
  have irr: "apic_irr (fold apic_request vs s) = set vs"
    using interrupt_controller.irr_requests [OF ic, of vs s] assms(2,3) by simp
  have isr: "apic_isr (fold apic_request vs s) = apic_isr s"
    using interrupt_controller.isr_requests [OF ic, of vs s] assms(2) by simp
  show ?thesis
    using interrupt_controller.ack_all_descending [OF ic, of "fold apic_request vs s"] irr isr
    by (simp add: split_def)
qed

lemma initial_irr: "apic_irr (ApicShadowInit 0) = {}"
  by (auto simp: apic_irr_def bank_set_def ApicShadowInit_def bank_reg_def)

text \<open>The vectors 32 to 63 as a word: whatever the word, they can be requested, and the first
  acknowledgement then asks \<open>AsmMsb32\<close> about it.\<close>

definition bank1_vectors :: "u32 \<Rightarrow> nat list" where
  "bank1_vectors x = map ((+) 32) (filter (bit x) [0..<32])"

lemma bank1_requested:
  assumes "x \<noteq> 0"
  defines "t \<equiv> fold apic_request (bank1_vectors x) (ApicShadowInit 0)"
  shows "apic_irr t = set (bank1_vectors x)" "apic_irr t \<noteq> {}"
    "fst (apic_ack msb t) = Some (unat (32 + (31 - msb x)))"
proof -
  note ic = apic_controller [OF clz32_law]
  show irr: "apic_irr t = set (bank1_vectors x)"
    unfolding t_def
    by (subst interrupt_controller.irr_requests [OF ic]) (auto simp: initial_irr bank1_vectors_def)
  obtain n where n: "bit x n" using assms(1) by (auto simp: bit_eq_iff)
  then have "n < 32" using bit_imp_le_length [of x n] by simp
  with n show ne: "apic_irr t \<noteq> {}" unfolding irr by (auto simp: bank1_vectors_def)
  have mem: "i * 32 + k \<in> apic_irr t \<longleftrightarrow> bit (ap_Regs t (bank_reg 0x200 i)) k" if "i < 8" "k < 32" for i k
  proof -
    have "i * 32 + k < 256" using that by simp
    then show ?thesis using that by (simp add: apic_irr_def bank_set_def)
  qed
  have "bit (ap_Regs t (bank_reg 0x200 1)) k = bit x k" if "k < 32" for k
    using that mem [of 1 k] unfolding irr by (auto simp: bank1_vectors_def)
  then have reg: "ap_Regs t (bank_reg 0x200 1) = x" by (intro bit_word_eqI) simp
  have "bank_scan 0x200 t = Some 1"
  proof (cases "bank_scan 0x200 t")
    case None
    then show ?thesis using bank_scan_None ne by (auto simp: apic_irr_def)
  next
    case (Some i)
    note i = bank_scan_Some [OF Some]
    then obtain k where k: "bit (ap_Regs t (bank_reg 0x200 i)) k" by (auto simp: bit_eq_iff)
    then have "k < 32" using bit_imp_le_length by fastforce
    then have "i * 32 + k \<in> set (bank1_vectors x)" using mem [of i k] i k irr by simp
    then have "i * 32 + k \<ge> 32" "i * 32 + k < 64" by (auto simp: bank1_vectors_def)
    then have "i = 1" using \<open>k < 32\<close> by linarith
    with Some show ?thesis by simp
  qed
  then show "fst (apic_ack msb t) = Some (unat (32 + (31 - msb x)))"
    by (simp add: apic_ack_def ApicGetPendingInterrupt_def Let_def reg [simplified])
qed

lemma msb_from_top:
  fixes y :: u32
  assumes "unat (32 + (31 - y)) = 32 + n" "n < 32"
  shows "unat y = 31 - n"
proof -
  have "32 + (31 - y) = (of_nat (32 + n) :: u32)"
    unfolding assms(1) [symmetric] by (simp only: of_nat_unat ucast_id)
  then have "31 - y = of_nat n" by (simp add: algebra_simps)
  then have "y = 31 - of_nat n" by (simp add: algebra_simps)
  moreover have "(of_nat (31 - n) :: u32) = 31 - of_nat n" using assms(2) by (simp add: of_nat_diff)
  ultimately have "y = of_nat (31 - n)" by simp
  moreover have "31 - n < 2 ^ 32" by simp
  ultimately show ?thesis by (simp add: unat_of_nat)
qed

text \<open>C28: the controller delivers requested interrupts in the order the APIC prescribes exactly when
  \<open>AsmMsb32\<close>, which the code calls and no file defines, counts leading zeros. If it does, then
  however interrupts were requested on an idle controller, acknowledging as often as there are
  distinct vectors delivers each of them exactly once, highest first, and leaves no request
  behind; with any other function, the index of the highest bit that the name suggests
  included, some requests are delivered wrongly.\<close>

theorem apic_delivers_descending:
  "(\<forall>s vs. (\<forall>v\<in>set vs. v < 256) \<and> apic_irr s = {} \<longrightarrow>
      (case ack_all (apic_ack msb) (card (set vs)) (fold apic_request vs s) of
        (delivered, s') \<Rightarrow> delivered = rev (sorted_list_of_set (set vs)) \<and> apic_irr s' = {} \<and>
          apic_isr s' = apic_isr s \<union> set vs)) \<longleftrightarrow> msb_law msb"
proof
  assume all: "\<forall>s vs. (\<forall>v\<in>set vs. v < 256) \<and> apic_irr s = {} \<longrightarrow>
      (case ack_all (apic_ack msb) (card (set vs)) (fold apic_request vs s) of
        (delivered, s') \<Rightarrow> delivered = rev (sorted_list_of_set (set vs)) \<and> apic_irr s' = {} \<and>
          apic_isr s' = apic_isr s \<union> set vs)"
  show "msb_law msb"
    unfolding msb_law_def
  proof (intro allI impI)
    fix x :: u32 assume x: "x \<noteq> 0"
    let ?t = "fold apic_request (bank1_vectors x) (ApicShadowInit 0)" and ?A = "set (bank1_vectors x)"
    note req = bank1_requested [OF x]
    have small: "\<forall>v\<in>?A. v < 256" by (auto simp: bank1_vectors_def)
    have "card ?A \<noteq> 0" using req(1,2) by auto
    then obtain k where k: "card ?A = Suc k" using not0_implies_Suc by blast
    have "fst (ack_all (apic_ack msb) (Suc k) ?t) = fst (ack_all (apic_ack clz32) (Suc k) ?t)"
      using all [rule_format, of "bank1_vectors x" "ApicShadowInit 0"] small
        delivers_descending [OF clz32_law small initial_irr] by (simp add: k initial_irr split_def)
    moreover have "fst (apic_ack clz32 ?t) = Some (Max ?A)"
      using interrupt_controller.ack_vector [OF apic_controller [OF clz32_law], of ?t] req(1,2) by simp
    ultimately have "unat (32 + (31 - msb x)) = Max ?A"
      using req(3) [of msb] by (auto simp: Let_def split: prod.splits option.splits)
    moreover have "Max ?A \<in> ?A" using req(1,2) by (intro Max_in) auto
    then obtain n where n: "Max ?A = 32 + n" "n < 32" "bit x n" by (auto simp: bank1_vectors_def)
    ultimately have u: "unat (msb x) = 31 - n" using msb_from_top by simp
    have "\<not> bit x i" if "n < i" for i
    proof
      assume b: "bit x i"
      then have "i < 32" using bit_imp_le_length by fastforce
      with b have "32 + i \<in> ?A" by (auto simp: bank1_vectors_def)
      then have "32 + i \<le> Max ?A" by (intro Max_ge) auto
      with n(1) that show False by simp
    qed
    with u n(2,3) show "unat (msb x) \<le> 31 \<and> bit x (31 - unat (msb x)) \<and> (\<forall>n>31 - unat (msb x). \<not> bit x n)"
      by simp
  qed
next
  assume "msb_law msb"
  from delivers_descending [OF this]
  show "\<forall>s vs. (\<forall>v\<in>set vs. v < 256) \<and> apic_irr s = {} \<longrightarrow>
      (case ack_all (apic_ack msb) (card (set vs)) (fold apic_request vs s) of
        (delivered, s') \<Rightarrow> delivered = rev (sorted_list_of_set (set vs)) \<and> apic_irr s' = {} \<and>
          apic_isr s' = apic_isr s \<union> set vs)" by simp
qed

theorem apic_delivers_descending_witness:
  "fst (ack_all (apic_ack clz32) 3 (fold apic_request [32, 200, 64, 32] (ApicShadowInit 0)))
     = [200, 64, 32]"
proof -
  have idle: "apic_irr (ApicShadowInit 0) = {}"
    by (auto simp: apic_irr_def bank_set_def ApicShadowInit_def bank_reg_def)
  have "card (set [32, 200, 64, 32 :: nat]) = 3" by (simp add: card_insert_if)
  moreover have "rev (sorted_list_of_set (set [32, 200, 64, 32 :: nat])) = [200, 64, 32]"
    by (subst sorted_list_of_set_sort_remdups) simp
  moreover have "\<forall>v\<in>set [32, 200, 64, 32 :: nat]. v < 256" by simp
  ultimately show ?thesis
    using apic_delivers_descending [THEN iffD2, rule_format, OF clz32_law, of "[32, 200, 64, 32]" "ApicShadowInit 0"] idle
    unfolding split_def by argo
qed

text \<open>\<open>ApicGetPendingInterrupt\<close> does not compare with the vectors in service. When a lower
  vector is requested while a higher one is in service it is delivered at once, and the
  end-of-interrupt of its handler retires the higher vector: the lower one stays in service
  although its handler has finished.\<close>

theorem apic_eoi_retires_wrong_vector:
  assumes "msb_law msb" "v < w" "w < 256" "apic_irr s = {}"
  shows "case apic_ack msb (apic_request v (snd (apic_ack msb (apic_request w s)))) of
      (delivered, s') \<Rightarrow> delivered = Some v \<and>
        v \<in> apic_isr (ApicShadowEoi msb s') \<and> Max (insert w (apic_isr s)) \<notin> apic_isr (ApicShadowEoi msb s')"
proof -
  note ic = apic_controller [OF assms(1)]
  let ?s1 = "snd (apic_ack msb (apic_request w s))"
  have irr: "apic_irr (apic_request w s) = {w}" "apic_isr (apic_request w s) = apic_isr s"
    using interrupt_controller.request_irr [OF ic] interrupt_controller.request_isr [OF ic] assms
    by auto
  have s1: "apic_irr ?s1 = {}" "apic_isr ?s1 = insert w (apic_isr s)"
    using interrupt_controller.ack_irr [OF ic] interrupt_controller.ack_isr [OF ic] irr by auto
  have s2: "apic_irr (apic_request v ?s1) = {v}" "apic_isr (apic_request v ?s1) = insert w (apic_isr s)"
    using interrupt_controller.request_irr [OF ic] interrupt_controller.request_isr [OF ic] assms s1
    by auto
  have "v \<in> apic_isr (ApicShadowEoi msb (snd (apic_ack msb (apic_request v ?s1)))) \<and>
      Max (insert w (apic_isr s)) \<notin> apic_isr (ApicShadowEoi msb (snd (apic_ack msb (apic_request v ?s1))))"
    using interrupt_controller.ack_eoi_wrong [OF ic, of "apic_request v ?s1" w] s2 assms(2) by simp
  moreover have "fst (apic_ack msb (apic_request v ?s1)) = Some v"
    using interrupt_controller.ack_vector [OF ic, of "apic_request v ?s1"] s2 by simp
  ultimately show ?thesis by (simp add: split_def)
qed

theorem apic_eoi_retires_wrong_vector_witness:
  "32 \<in> apic_isr (ApicShadowEoi clz32 (snd (apic_ack clz32 (apic_request 32
      (snd (apic_ack clz32 (apic_request 200 (ApicShadowInit 0))))))))"
proof -
  have idle: "apic_irr (ApicShadowInit 0) = {}"
    by (auto simp: apic_irr_def bank_set_def ApicShadowInit_def bank_reg_def)
  from apic_eoi_retires_wrong_vector [OF clz32_law _ _ this, of 32 200] show ?thesis
    by (simp add: split_def)
qed

text \<open>The timer: after the guest writes an unmasked vector register with a vector of at least
  16 and then a count \<open>n > 0\<close>, the vector is requested by tick \<open>n\<close> and not before; a periodic
  timer goes on counting down modulo \<open>n\<close>, a one-shot timer stops.\<close>

theorem apic_timer_fires:
  assumes "0 < n" "lvt AND BIT16 = 0" "16 \<le> lvt AND 0xFF"
    and "t = (ApicShadowTimerTick ^^ k) (apic_program_timer msb lvt n s)"
  shows "apic_irr t = (if k < unat n then apic_irr s else insert (unat (lvt AND 0xFF)) (apic_irr s))
    \<and> ap_TimerEnabled t = (lvt AND BIT17 \<noteq> 0 \<or> k < unat n)
    \<and> (ap_TimerEnabled t \<longrightarrow> unat (ap_TimerCurrentCount t) = unat n - k mod unat n)"
proof -
  have "0 < unat n" using assms(1) by (simp add: word_less_nat_alt)
  then have "timer_at lvt (unat n) k (apic_irr s)
      ((ApicShadowTimerTick ^^ k) (apic_program_timer msb lvt n s))"
    by (induction k) (simp_all add: programmed_timer [OF assms(1,2)] timer_tick assms(3))
  then show ?thesis unfolding assms(4) [symmetric] by (auto simp: timer_at_def split: if_splits)
qed

theorem apic_timer_fires_witness:
  "32 \<in> apic_irr ((ApicShadowTimerTick ^^ 10) (apic_program_timer clz32 0x20020 10 (ApicShadowInit 0)))"
  using apic_timer_fires [of 10 "0x20020" _ 10 clz32 "ApicShadowInit 0", OF _ _ _ refl] by simp

end
