(* ===== verification/VmxCore.thy ===== *)
theory VmxCore
  imports GuestState ApicShadow
begin

text \<open>
  The VT-x core, \<open>hypervisor/vmx/vmxcore.c\<close>: vCPU creation, the VMCS, and the VM-exit
  dispatcher with its handlers. The instructions the assembly helpers wrap are the fields of
  the record \<open>vmx_hw\<close>, functions on a hardware state \<open>'h\<close>; reads do not change it.
  \<open>hw_vmwrite\<close> is the VMWRITE instruction; the wrapper the code calls for it, \<open>BemiVmWrite\<close> of
  \<open>hypervisor/vmx/vmxasm.nasm\<close>, exchanges its operands and is modelled as it is written.
  \<open>hw_vmread\<close> is \<open>BemiVmRead\<close> as this file calls it, with a field and for its value, and
  \<open>hw_vmlaunch\<close> is \<open>BemiVmLaunch\<close>: no file defines functions of these types. A VMLAUNCH
  that succeeds does not come back (exits go to the host address of the VMCS): it is \<open>None\<close>. The exit
  handler is a function from the register save area, the APIC shadow and the hardware to
  their new values.
\<close>

text \<open>The carry and the zero flag after a VMX instruction.\<close>

record vm_flags =
  vf_CF :: bool
  vf_ZF :: bool

record 'h vmx_hw =
  hw_vmread :: "u32 \<Rightarrow> 'h \<Rightarrow> u64"
  hw_vmwrite :: "u64 \<Rightarrow> u64 \<Rightarrow> 'h \<Rightarrow> vm_flags \<times> 'h"
  hw_rdmsr :: "u32 \<Rightarrow> 'h \<Rightarrow> u64"
  hw_wrmsr :: "u32 \<Rightarrow> u64 \<Rightarrow> 'h \<Rightarrow> 'h"
  hw_wbinvd :: "'h \<Rightarrow> 'h"
  hw_cpuid :: "u32 \<Rightarrow> cpuid_regs"
  hw_cpuidex :: "u32 \<Rightarrow> u32 \<Rightarrow> cpuid_regs"
  hw_cr0 :: "'h \<Rightarrow> u64"
  hw_cr3 :: "'h \<Rightarrow> u64"
  hw_cr4 :: "'h \<Rightarrow> u64"
  hw_write_cr4 :: "u64 \<Rightarrow> 'h \<Rightarrow> 'h"
  hw_gdtr_base :: "'h \<Rightarrow> u64"
  hw_idtr_base :: "'h \<Rightarrow> u64"
  hw_alloc_page :: "'h \<Rightarrow> u64 option \<times> 'h"
  hw_free_page :: "u64 \<Rightarrow> 'h \<Rightarrow> 'h"
  hw_stamp_page :: "u64 \<Rightarrow> u32 \<Rightarrow> 'h \<Rightarrow> 'h"
  hw_vmxon :: "u64 \<Rightarrow> 'h \<Rightarrow> bool \<times> 'h"
  hw_vmclear :: "u64 \<Rightarrow> 'h \<Rightarrow> bool \<times> 'h"
  hw_vmptrld :: "u64 \<Rightarrow> 'h \<Rightarrow> bool \<times> 'h"
  hw_vmlaunch :: "'h \<Rightarrow> 'h option"
  hw_msb :: "u32 \<Rightarrow> u32"

section \<open>The wrapper of VMWRITE\<close>

text \<open>\<open>jbe .fail\<close>, and the value in EAX.\<close>

definition vm_status :: "vm_flags \<times> 'h \<Rightarrow> u8 \<times> 'h" where
  "vm_status x = (if vf_CF (fst x) \<or> vf_ZF (fst x) then 1 else 0, snd x)"

text \<open>\<open>vmwrite rdx, rcx\<close>: the first operand of VMWRITE is the register with the field's encoding,
  the second the value, and \<open>vmwrite field value\<close> takes them in this order. The caller puts its
  first argument, the field, into RCX.\<close>

definition BemiVmWrite :: "(u64 \<Rightarrow> u64 \<Rightarrow> 'h \<Rightarrow> vm_flags \<times> 'h) \<Rightarrow> u64 \<Rightarrow> u64 \<Rightarrow> 'h \<Rightarrow> u8 \<times> 'h" where
  "BemiVmWrite vmwrite Rcx Rdx h = vm_status (vmwrite Rdx Rcx h)"

text \<open>\<open>(VOID)BemiVmWrite(f, v)\<close>\<close>

definition vm_write :: "'h vmx_hw \<Rightarrow> u32 \<Rightarrow> u64 \<Rightarrow> 'h \<Rightarrow> 'h" where
  "vm_write hw f v h = snd (BemiVmWrite (hw_vmwrite hw) (ucast f) v h)"

section \<open>Constants\<close>

definition VMX_BASIC_MSR :: u32 where "VMX_BASIC_MSR = 0x480"
definition VMX_ENTRY_CTRL_MSR :: u32 where "VMX_ENTRY_CTRL_MSR = 0x484"
definition VMX_EXIT_CTRL_MSR :: u32 where "VMX_EXIT_CTRL_MSR = 0x485"
definition VMX_PINBASED_CTRL_MSR :: u32 where "VMX_PINBASED_CTRL_MSR = 0x481"
definition VMX_PROCBASED_CTRL_MSR :: u32 where "VMX_PROCBASED_CTRL_MSR = 0x482"
definition VMX_PROCBASED2_CTRL_MSR :: u32 where "VMX_PROCBASED2_CTRL_MSR = 0x48B"

definition VMX_GUEST_RSP :: u32 where "VMX_GUEST_RSP = 0x681C"
definition VMX_GUEST_RIP :: u32 where "VMX_GUEST_RIP = 0x681E"
definition VMX_GUEST_CR0 :: u32 where "VMX_GUEST_CR0 = 0x6800"
definition VMX_GUEST_CR3 :: u32 where "VMX_GUEST_CR3 = 0x6802"
definition VMX_GUEST_CR4 :: u32 where "VMX_GUEST_CR4 = 0x6804"
definition VMX_GUEST_RFLAGS :: u32 where "VMX_GUEST_RFLAGS = 0x6820"
definition VMX_GUEST_EFER :: u32 where "VMX_GUEST_EFER = 0x2806"
definition VM_EXIT_REASON :: u32 where "VM_EXIT_REASON = 0x4402"
definition VM_EXIT_QUALIFICATION :: u32 where "VM_EXIT_QUALIFICATION = 0x6400"
definition VM_EXIT_INSTRUCTION_LEN :: u32 where "VM_EXIT_INSTRUCTION_LEN = 0x440C"
definition VM_ENTRY_INTR_INFO :: u32 where "VM_ENTRY_INTR_INFO = 0x4016"

lemmas vmcs_fields = VMX_GUEST_RSP_def VMX_GUEST_RIP_def VMX_GUEST_CR0_def VMX_GUEST_CR3_def
  VMX_GUEST_CR4_def VMX_GUEST_RFLAGS_def VMX_GUEST_EFER_def VM_EXIT_REASON_def
  VM_EXIT_QUALIFICATION_def VM_EXIT_INSTRUCTION_LEN_def VM_ENTRY_INTR_INFO_def

definition EXIT_REASON_EXTERNAL_INT :: u64 where "EXIT_REASON_EXTERNAL_INT = 0x01"
definition EXIT_REASON_INT_WINDOW :: u64 where "EXIT_REASON_INT_WINDOW = 0x07"
definition EXIT_REASON_CPUID :: u64 where "EXIT_REASON_CPUID = 0x0A"
definition EXIT_REASON_HLT :: u64 where "EXIT_REASON_HLT = 0x0C"
definition EXIT_REASON_INVD :: u64 where "EXIT_REASON_INVD = 0x0D"
definition EXIT_REASON_VMCALL :: u64 where "EXIT_REASON_VMCALL = 0x12"
definition EXIT_REASON_CR_ACCESS :: u64 where "EXIT_REASON_CR_ACCESS = 0x1C"
definition EXIT_REASON_IO_INSTRUCTION :: u64 where "EXIT_REASON_IO_INSTRUCTION = 0x1E"
definition EXIT_REASON_RDMSR :: u64 where "EXIT_REASON_RDMSR = 0x1F"
definition EXIT_REASON_WRMSR :: u64 where "EXIT_REASON_WRMSR = 0x20"
definition EXIT_REASON_EPT_VIOLATION :: u64 where "EXIT_REASON_EPT_VIOLATION = 0x30"
definition EXIT_REASON_EPT_MISCONFIG :: u64 where "EXIT_REASON_EPT_MISCONFIG = 0x31"
definition EXIT_REASON_PREEMPTION :: u64 where "EXIT_REASON_PREEMPTION = 0x34"
definition EXIT_REASON_XSETBV :: u64 where "EXIT_REASON_XSETBV = 0x37"

lemmas exit_reasons = EXIT_REASON_EXTERNAL_INT_def EXIT_REASON_INT_WINDOW_def
  EXIT_REASON_CPUID_def EXIT_REASON_HLT_def EXIT_REASON_INVD_def EXIT_REASON_VMCALL_def
  EXIT_REASON_CR_ACCESS_def EXIT_REASON_IO_INSTRUCTION_def EXIT_REASON_RDMSR_def
  EXIT_REASON_WRMSR_def EXIT_REASON_EPT_VIOLATION_def EXIT_REASON_EPT_MISCONFIG_def
  EXIT_REASON_PREEMPTION_def EXIT_REASON_XSETBV_def

section \<open>Exit handlers\<close>

definition HandleCpuidExit :: "'h vmx_hw \<Rightarrow> vm_exit_info \<Rightarrow> guest_state \<Rightarrow> guest_state" where
  "HandleCpuidExit hw ei g =
     (let Leaf = ucast (gs_Gpr g GuestRax); Subleaf = ucast (gs_Gpr g GuestRcx);
          r = hw_cpuidex hw Leaf Subleaf;
          ecx = (if Leaf = 1 then (cr_Ecx r AND NOT BIT31) AND NOT BIT5 else cr_Ecx r);
          eax = (if Leaf = 0 \<and> cr_Eax r > 0x1F then 0x1F else cr_Eax r);
          g = set_gpr GuestRax (ucast eax) g;
          g = set_gpr GuestRbx (ucast (cr_Ebx r)) g;
          g = set_gpr GuestRcx (ucast ecx) g;
          g = set_gpr GuestRdx (ucast (cr_Edx r)) g
      in advance_rip ei g)"

definition HandleMsrExit ::
  "'h vmx_hw \<Rightarrow> vm_exit_info \<Rightarrow> guest_state \<Rightarrow> 'h \<Rightarrow> guest_state \<times> 'h" where
  "HandleMsrExit hw ei g h =
     (let MsrIndex = ucast (gs_Gpr g GuestRcx) in
      if ei_ExitReason ei = EXIT_REASON_RDMSR then
        (let MsrValue = hw_rdmsr hw MsrIndex h;
             g = set_gpr GuestRax (MsrValue AND 0xFFFFFFFF) g;
             g = set_gpr GuestRdx (drop_bit 32 MsrValue) g
         in (advance_rip ei g, h))
      else
        (let MsrValue = (gs_Gpr g GuestRax AND 0xFFFFFFFF) OR push_bit 32 (gs_Gpr g GuestRdx);
             h = (if MsrIndex = 0x3A \<or> MsrIndex = 0x13C then h else hw_wrmsr hw MsrIndex MsrValue h)
         in (advance_rip ei g, h)))"

definition HandleCrAccess :: "vm_exit_info \<Rightarrow> guest_state \<Rightarrow> guest_state" where
  "HandleCrAccess ei g =
     (let q = ei_ExitQualification ei; CrNum = q AND 0x0F; AccessType = drop_bit 4 q AND 0x03;
          RegNum = unat (drop_bit 8 q AND 0x0F);
          g = (if AccessType = 0 then
                 (let Val = gs_Gpr g RegNum in
                  if CrNum = 0 then g\<lparr>gs_Cr0 := Val\<rparr>
                  else if CrNum = 3 then g\<lparr>gs_Cr3 := Val\<rparr>
                  else if CrNum = 4 then g\<lparr>gs_Cr4 := Val\<rparr>
                  else g)
               else
                 (let Val = (if CrNum = 0 then gs_Cr0 g else if CrNum = 3 then gs_Cr3 g
                             else if CrNum = 4 then gs_Cr4 g else 0)
                  in set_gpr RegNum Val g))
      in advance_rip ei g)"

definition HandleIoExit :: "vm_exit_info \<Rightarrow> guest_state \<Rightarrow> guest_state" where
  "HandleIoExit ei g = advance_rip ei g"

section \<open>The dispatcher\<close>

definition VmxReadGuestState :: "'h vmx_hw \<Rightarrow> 'h \<Rightarrow> guest_state \<Rightarrow> guest_state" where
  "VmxReadGuestState hw h g =
     (set_gpr GuestRsp (hw_vmread hw VMX_GUEST_RSP h) g)
       \<lparr>gs_Rip := hw_vmread hw VMX_GUEST_RIP h,
        gs_Rflags := hw_vmread hw VMX_GUEST_RFLAGS h,
        gs_Cr0 := hw_vmread hw VMX_GUEST_CR0 h,
        gs_Cr3 := hw_vmread hw VMX_GUEST_CR3 h,
        gs_Cr4 := hw_vmread hw VMX_GUEST_CR4 h,
        gs_Efer := hw_vmread hw VMX_GUEST_EFER h\<rparr>"

definition VmxWriteGuestState :: "'h vmx_hw \<Rightarrow> guest_state \<Rightarrow> 'h \<Rightarrow> 'h" where
  "VmxWriteGuestState hw g h =
     fold (\<lambda>(f, v) h. vm_write hw f v h)
       [(VMX_GUEST_RIP, gs_Rip g), (VMX_GUEST_RSP, gs_Gpr g GuestRsp), (VMX_GUEST_CR0, gs_Cr0 g),
        (VMX_GUEST_CR3, gs_Cr3 g), (VMX_GUEST_CR4, gs_Cr4 g), (VMX_GUEST_EFER, gs_Efer g),
        (VMX_GUEST_RFLAGS, gs_Rflags g)] h"

definition vmx_exit_info :: "'h vmx_hw \<Rightarrow> 'h \<Rightarrow> guest_state \<Rightarrow> vm_exit_info" where
  "vmx_exit_info hw h g =
     \<lparr>ei_ExitReason = hw_vmread hw VM_EXIT_REASON h,
      ei_ExitQualification = hw_vmread hw VM_EXIT_QUALIFICATION h,
      ei_GuestRip = gs_Rip g, ei_GuestRsp = gs_Gpr g GuestRsp,
      ei_InstructionLength = hw_vmread hw VM_EXIT_INSTRUCTION_LEN h,
      ei_ExitInterruptInfo = hw_vmread hw 0x4404 h,
      ei_ExitInterruptErrorCode = hw_vmread hw 0x4406 h\<rparr>"

definition vmx_dispatch ::
  "'h vmx_hw \<Rightarrow> vm_exit_info \<Rightarrow> guest_state \<Rightarrow> 'h \<Rightarrow> guest_state \<times> 'h" where
  "vmx_dispatch hw ei g h =
     (let reason = ei_ExitReason ei in
      if reason = EXIT_REASON_CPUID then (HandleCpuidExit hw ei g, h)
      else if reason = EXIT_REASON_RDMSR \<or> reason = EXIT_REASON_WRMSR then HandleMsrExit hw ei g h
      else if reason = EXIT_REASON_CR_ACCESS then (HandleCrAccess ei g, h)
      else if reason = EXIT_REASON_IO_INSTRUCTION then (HandleIoExit ei g, h)
      else if reason = EXIT_REASON_EXTERNAL_INT then (g, h)
      else if reason = EXIT_REASON_INT_WINDOW then (g, h)
      else if reason = EXIT_REASON_HLT then (advance_rip ei g, h)
      else if reason = EXIT_REASON_INVD then (advance_rip ei g, hw_wbinvd hw h)
      else if reason = EXIT_REASON_XSETBV then (advance_rip ei g, h)
      else if reason = EXIT_REASON_EPT_VIOLATION then (advance_rip ei g, h)
      else if reason = EXIT_REASON_EPT_MISCONFIG then (advance_rip ei g, h)
      else if reason = EXIT_REASON_PREEMPTION then (g, h)
      else if reason = EXIT_REASON_VMCALL then (advance_rip ei g, h)
      else (advance_rip ei g, h))"

definition BemiVmxExitHandler ::
  "'h vmx_hw \<Rightarrow> (nat \<Rightarrow> u64) \<Rightarrow> apic_state \<Rightarrow> 'h \<Rightarrow> (nat \<Rightarrow> u64) \<times> apic_state \<times> 'h" where
  "BemiVmxExitHandler hw GuestGprBase apic h =
     (let g = VmxReadGuestState hw h (load_gprs GuestGprBase zero_guest);
          ei = vmx_exit_info hw h g;
          (g, h) = vmx_dispatch hw ei g h;
          GuestGprBase = store_gprs g GuestGprBase;
          h = VmxWriteGuestState hw g h;
          (pending, apic) = ApicGetPendingInterrupt (hw_msb hw) apic;
          h = (case pending of
                 Some v \<Rightarrow>
                   if gs_Rflags g AND BIT9 \<noteq> 0
                   then vm_write hw VM_ENTRY_INTR_INFO (ucast v OR 0x700) h else h
               | None \<Rightarrow> h)
      in (GuestGprBase, apic, h))"

section \<open>vCPU creation\<close>

definition AdjustCtrl :: "'h vmx_hw \<Rightarrow> 'h \<Rightarrow> u32 \<Rightarrow> u64 \<Rightarrow> u64" where
  "AdjustCtrl hw h Msr Requested =
     (let v = hw_rdmsr hw Msr h; AllowedZero = v AND 0xFFFFFFFF;
          AllowedOne = drop_bit 32 v AND 0xFFFFFFFF
      in (Requested OR AllowedZero) AND AllowedOne)"

text \<open>A block of \<open>BemiVmWrite\<close> calls whose values were read before, and one whose values are read
  between two writes.\<close>

definition vmcs_writes :: "'h vmx_hw \<Rightarrow> (u32 \<times> u64) list \<Rightarrow> 'h \<Rightarrow> 'h" where
  "vmcs_writes hw ws h = fold (\<lambda>(f, v) h. vm_write hw f v h) ws h"

definition vmcs_reads_writes :: "'h vmx_hw \<Rightarrow> (u32 \<times> ('h \<Rightarrow> u64)) list \<Rightarrow> 'h \<Rightarrow> 'h" where
  "vmcs_reads_writes hw ws h = fold (\<lambda>(f, val) h. vm_write hw f (val h) h) ws h"

definition vmcs_controls :: "'h vmx_hw \<Rightarrow> 'h \<Rightarrow> (u32 \<times> u64) list" where
  "vmcs_controls hw h =
     (let PinCtrl = AdjustCtrl hw h VMX_PINBASED_CTRL_MSR (BIT0 OR BIT3);
          ProcCtrl = AdjustCtrl hw h VMX_PROCBASED_CTRL_MSR (BIT28 OR BIT24);
          ProcCtrl2 = AdjustCtrl hw h VMX_PROCBASED2_CTRL_MSR ((BIT1 OR BIT5) OR BIT20);
          ExitCtrl = AdjustCtrl hw h VMX_EXIT_CTRL_MSR ((BIT9 OR BIT21) OR BIT2);
          EntryCtrl = AdjustCtrl hw h VMX_ENTRY_CTRL_MSR BIT15
      in [(0x4000, PinCtrl), (0x4002, ProcCtrl), (0x401E, ProcCtrl2), (0x400C, ExitCtrl),
          (0x4012, EntryCtrl), (0x4004, 0), (0x4006, 0)])"

definition vmcs_segments :: "(u32 \<times> u64) list" where
  "vmcs_segments =
     [(0x802, 0x08), (0x806, 0x10), (0x800, 0x10), (0x804, 0x10), (0x808, 0x10), (0x80A, 0x10),
      (0x80C, 0x00), (0x80E, 0x18),
      (0x608, 0), (0x618, 0), (0x600, 0), (0x610, 0), (0x620, 0), (0x628, 0), (0x630, 0), (0x638, 0)]"

definition VmxSetupVmcs :: "'h vmx_hw \<Rightarrow> u64 \<Rightarrow> u64 \<Rightarrow> 'h \<Rightarrow> efi_status \<times> 'h" where
  "VmxSetupVmcs hw EntryPoint StackPointer h =
     (let h = vmcs_writes hw (vmcs_controls hw h) h;
          HostCr3 = hw_cr3 hw h;
          h = vmcs_reads_writes hw [(0x6C00, hw_cr0 hw), (0x6C02, \<lambda>_. HostCr3),
                (0x6C04, hw_cr4 hw), (0x2C02, hw_rdmsr hw 0xC0000080)] h;
          h = vmcs_writes hw vmcs_segments h;
          Gdtr = hw_gdtr_base hw h;
          Idtr = hw_idtr_base hw h;
          h = vmcs_writes hw [(0x658, Gdtr), (0x65C, Idtr)] h;
          h = vmcs_reads_writes hw [(VMX_GUEST_CR0, hw_cr0 hw), (VMX_GUEST_CR3, \<lambda>_. HostCr3),
                (VMX_GUEST_CR4, hw_cr4 hw), (VMX_GUEST_RFLAGS, \<lambda>_. BIT1),
                (VMX_GUEST_EFER, hw_rdmsr hw 0xC0000080), (VMX_GUEST_RIP, \<lambda>_. EntryPoint),
                (VMX_GUEST_RSP, \<lambda>_. StackPointer)] h
      in (EFI_SUCCESS, h))"

record vcpu_state =
  vc_VmcsPhysAddr :: u64
  vc_VmxonRegionPhys :: u64
  vc_Active :: bool

text \<open>The functions the backend record may point to.\<close>

datatype exit_fn = NullFn | VmxHandleExitFn

record vmx_state =
  vx_Vcpu :: "nat \<Rightarrow> vcpu_state"
  vx_CpuCount :: u64
  vx_Vendor :: hypervisor_vendor
  vx_HandleExit :: exit_fn
  vx_PageTableHost :: u64

definition zero_vcpu :: vcpu_state where
  "zero_vcpu = \<lparr>vc_VmcsPhysAddr = 0, vc_VmxonRegionPhys = 0, vc_Active = False\<rparr>"

definition HypervisorDetectVendor_vmx ::
  "'h vmx_hw \<Rightarrow> efi_status \<times> hypervisor_vendor" where
  "HypervisorDetectVendor_vmx hw =
     (if cr_Ecx (hw_cpuid hw 1) AND BIT5 \<noteq> 0 then (EFI_SUCCESS, HypervisorIntel)
      else if cr_Ecx (hw_cpuid hw 0x80000001) AND BIT2 \<noteq> 0 then (EFI_SUCCESS, HypervisorAmd)
      else (EFI_UNSUPPORTED, HypervisorUnknown))"

definition HypervisorBackendInit_vmx ::
  "'h vmx_hw \<Rightarrow> u64 \<Rightarrow> vmx_state \<Rightarrow> 'h \<Rightarrow> efi_status \<times> vmx_state \<times> 'h" where
  "HypervisorBackendInit_vmx hw CpuCount s h =
     (let s = s\<lparr>vx_CpuCount := CpuCount, vx_Vcpu := (\<lambda>_. zero_vcpu)\<rparr>;
          Cr4 = hw_cr4 hw h;
          h = (if Cr4 AND BIT13 = 0 then hw_write_cr4 hw (Cr4 OR BIT13) h else h);
          Cr0 = hw_cr0 hw h
      in if Cr0 AND BIT31 = 0 \<or> Cr0 AND BIT0 = 0 then (EFI_UNSUPPORTED, s, h)
         else
           (let FeatureCtrl = hw_rdmsr hw 0x3A h in
            if FeatureCtrl AND BIT0 = 0 then (EFI_UNSUPPORTED, s, h)
            else if FeatureCtrl AND BIT2 = 0 then (EFI_UNSUPPORTED, s, h)
            else (EFI_SUCCESS,
                  s\<lparr>vx_Vendor := HypervisorIntel, vx_HandleExit := VmxHandleExitFn,
                    vx_PageTableHost := hw_cr3 hw h\<rparr>, h)))"

definition VmxVcpuCreate ::
  "'h vmx_hw \<Rightarrow> u64 \<Rightarrow> u64 \<Rightarrow> u64 \<Rightarrow> vmx_state \<Rightarrow> 'h \<Rightarrow> efi_status \<times> vmx_state \<times> 'h" where
  "VmxVcpuCreate hw VcpuId EntryPoint StackPointer s h =
     (if unat VcpuId \<ge> MAX_LOGICAL_PROCESSORS then (EFI_INVALID_PARAMETER, s, h)
      else
        (let id = unat VcpuId; RevId = ucast (hw_rdmsr hw VMX_BASIC_MSR h AND 0x7FFFFFFF);
             (vmxon, h) = hw_alloc_page hw h
         in case vmxon of
              None \<Rightarrow> (EFI_OUT_OF_RESOURCES, s, h)
            | Some VmxonRegion \<Rightarrow>
                (let h = hw_stamp_page hw VmxonRegion RevId h;
                     (vmcs, h) = hw_alloc_page hw h
                 in case vmcs of
                      None \<Rightarrow> (EFI_OUT_OF_RESOURCES, s, hw_free_page hw VmxonRegion h)
                    | Some VmcsRegion \<Rightarrow>
                        (let h = hw_stamp_page hw VmcsRegion RevId h;
                             v = \<lparr>vc_VmcsPhysAddr = VmcsRegion, vc_VmxonRegionPhys = VmxonRegion,
                                  vc_Active = False\<rparr>;
                             s = s\<lparr>vx_Vcpu := (vx_Vcpu s)(id := v)\<rparr>;
                             (ok, h) = hw_vmxon hw VmxonRegion h
                         in if \<not> ok then (EFI_DEVICE_ERROR, s, h)
                            else
                              (let (ok, h) = hw_vmclear hw VmcsRegion h
                               in if \<not> ok then (EFI_DEVICE_ERROR, s, h)
                                  else
                                    (let (ok, h) = hw_vmptrld hw VmcsRegion h
                                     in if \<not> ok then (EFI_DEVICE_ERROR, s, h)
                                        else
                                          (let (st, h) = VmxSetupVmcs hw EntryPoint StackPointer h
                                           in if EFI_ERROR st then (st, s, h)
                                              else (EFI_SUCCESS,
                                                s\<lparr>vx_Vcpu := (vx_Vcpu s)(id :=
                                                   v\<lparr>vc_Active := True\<rparr>)\<rparr>, h))))))))"

definition VmxVcpuRun :: "'h vmx_hw \<Rightarrow> u64 \<Rightarrow> vmx_state \<Rightarrow> 'h \<Rightarrow> (efi_status \<times> 'h) outcome" where
  "VmxVcpuRun hw VcpuId s h =
     (if unat VcpuId \<ge> MAX_LOGICAL_PROCESSORS \<or> \<not> vc_Active (vx_Vcpu s (unat VcpuId))
      then Done (EFI_INVALID_PARAMETER, h)
      else
        (let (ok, h) = hw_vmptrld hw (vc_VmcsPhysAddr (vx_Vcpu s (unat VcpuId))) h
         in if \<not> ok then Done (EFI_DEVICE_ERROR, h)
            else (case hw_vmlaunch hw h of None \<Rightarrow> Hangs | Some h \<Rightarrow> Done (EFI_DEVICE_ERROR, h))))"

text \<open>\<open>VmxHandleExit\<close> calls the function the backend record points to; \<open>None\<close> when that never
  returns, or calls NULL.\<close>

partial_function (option) VmxHandleExit ::
  "vmx_state \<Rightarrow> vm_exit_info \<Rightarrow> guest_state \<Rightarrow> (efi_status \<times> guest_state) option" where
  "VmxHandleExit s ei g =
     (case vx_HandleExit s of NullFn \<Rightarrow> None | VmxHandleExitFn \<Rightarrow> VmxHandleExit s ei g)"

section \<open>What an exit does\<close>

text \<open>The state the handler hands to the dispatcher.\<close>

definition vmx_entry_state :: "'h vmx_hw \<Rightarrow> (nat \<Rightarrow> u64) \<Rightarrow> 'h \<Rightarrow> guest_state" where
  "vmx_entry_state hw base h = VmxReadGuestState hw h (load_gprs base zero_guest)"

lemma vmx_entry_fields:
  "gs_Rip (vmx_entry_state hw base h) = hw_vmread hw VMX_GUEST_RIP h"
  "gs_Rflags (vmx_entry_state hw base h) = hw_vmread hw VMX_GUEST_RFLAGS h"
  "gs_Cr0 (vmx_entry_state hw base h) = hw_vmread hw VMX_GUEST_CR0 h"
  "gs_Cr3 (vmx_entry_state hw base h) = hw_vmread hw VMX_GUEST_CR3 h"
  "gs_Cr4 (vmx_entry_state hw base h) = hw_vmread hw VMX_GUEST_CR4 h"
  "gs_Efer (vmx_entry_state hw base h) = hw_vmread hw VMX_GUEST_EFER h"
  "gs_Gpr (vmx_entry_state hw base h) GuestRsp = hw_vmread hw VMX_GUEST_RSP h"
  by (simp_all add: vmx_entry_state_def VmxReadGuestState_def)

lemma store_entry_gprs: "store_gprs (vmx_entry_state hw base h) base = base"
  by (auto simp: store_gprs_def vmx_entry_state_def VmxReadGuestState_def load_gprs_def GuestRsp_def)

lemma exit_handler_parts:
  assumes "BemiVmxExitHandler hw base apic h = (base', apic', h')"
    and "vmx_dispatch hw (vmx_exit_info hw h (vmx_entry_state hw base h)) (vmx_entry_state hw base h) h
      = (g, h1)"
  shows "base' = store_gprs g base" "apic' = snd (ApicGetPendingInterrupt (hw_msb hw) apic)"
    and "h' = (case fst (ApicGetPendingInterrupt (hw_msb hw) apic) of
        None \<Rightarrow> VmxWriteGuestState hw g h1
      | Some v \<Rightarrow> if gs_Rflags g AND BIT9 \<noteq> 0
          then vm_write hw VM_ENTRY_INTR_INFO (ucast v OR 0x700) (VmxWriteGuestState hw g h1)
          else VmxWriteGuestState hw g h1)"
  using assms
  by (auto simp: BemiVmxExitHandler_def Let_def vmx_entry_state_def split: prod.splits)

text \<open>Exits whose handler moves no register: everything but CPUID, RDMSR and CR accesses.\<close>

definition vmx_quiet :: "u64 \<Rightarrow> bool" where
  "vmx_quiet r \<longleftrightarrow> r \<notin> {EXIT_REASON_CPUID, EXIT_REASON_RDMSR, EXIT_REASON_CR_ACCESS}"

definition vmx_stays :: "u64 \<Rightarrow> bool" where
  "vmx_stays r \<longleftrightarrow> r \<in> {EXIT_REASON_EXTERNAL_INT, EXIT_REASON_INT_WINDOW, EXIT_REASON_PREEMPTION}"

lemma vmx_dispatch_effect:
  assumes "vmx_dispatch hw ei g h = (g', h')"
  shows "gs_Rip g' = gs_Rip g + (if vmx_stays (ei_ExitReason ei) then 0 else ei_InstructionLength ei)"
    and "gs_Rflags g' = gs_Rflags g" and "gs_Efer g' = gs_Efer g"
    and "vmx_quiet (ei_ExitReason ei) \<Longrightarrow> gs_Gpr g' = gs_Gpr g \<and> gs_Cr0 g' = gs_Cr0 g \<and>
      gs_Cr3 g' = gs_Cr3 g \<and> gs_Cr4 g' = gs_Cr4 g"
    and "h' = h \<or> h' = hw_wbinvd hw h \<or> (\<exists>i v. h' = hw_wrmsr hw i v h)"
proof -
  have cr: "gs_Rip (HandleCrAccess ei g) = gs_Rip g + ei_InstructionLength ei"
    "gs_Rflags (HandleCrAccess ei g) = gs_Rflags g" "gs_Efer (HandleCrAccess ei g) = gs_Efer g"
    by (simp_all add: HandleCrAccess_def Let_def)
  have cpu: "gs_Rip (HandleCpuidExit hw ei g) = gs_Rip g + ei_InstructionLength ei"
    "gs_Rflags (HandleCpuidExit hw ei g) = gs_Rflags g" "gs_Efer (HandleCpuidExit hw ei g) = gs_Efer g"
    by (simp_all add: HandleCpuidExit_def Let_def)
  have msr: "gs_Rip (fst (HandleMsrExit hw ei g h)) = gs_Rip g + ei_InstructionLength ei"
    "gs_Rflags (fst (HandleMsrExit hw ei g h)) = gs_Rflags g"
    "gs_Efer (fst (HandleMsrExit hw ei g h)) = gs_Efer g"
    "ei_ExitReason ei \<noteq> EXIT_REASON_RDMSR \<Longrightarrow> fst (HandleMsrExit hw ei g h) = advance_rip ei g"
    "snd (HandleMsrExit hw ei g h) = h \<or> (\<exists>i v. snd (HandleMsrExit hw ei g h) = hw_wrmsr hw i v h)"
    by (auto simp: HandleMsrExit_def Let_def)
  note [simp] = cr cpu msr
  show "gs_Rip g' = gs_Rip g + (if vmx_stays (ei_ExitReason ei) then 0 else ei_InstructionLength ei)"
    "gs_Rflags g' = gs_Rflags g" "gs_Efer g' = gs_Efer g"
    using assms
    by (auto simp: vmx_dispatch_def vmx_stays_def Let_def HandleIoExit_def exit_reasons
        split: if_splits dest!: arg_cong [of _ _ fst])
  show "vmx_quiet (ei_ExitReason ei) \<Longrightarrow> gs_Gpr g' = gs_Gpr g \<and> gs_Cr0 g' = gs_Cr0 g \<and>
      gs_Cr3 g' = gs_Cr3 g \<and> gs_Cr4 g' = gs_Cr4 g"
    using assms msr(4)
    by (auto simp: vmx_dispatch_def vmx_quiet_def Let_def HandleIoExit_def
        split: if_splits dest!: arg_cong [of _ _ fst])
  show "h' = h \<or> h' = hw_wbinvd hw h \<or> (\<exists>i v. h' = hw_wrmsr hw i v h)"
    using assms msr(5)
    by (cases "HandleMsrExit hw ei g h") (auto simp: vmx_dispatch_def Let_def split: if_splits)
qed

lemma dispatch_registers:
  assumes "vmx_dispatch hw ei g h = (g', h')" "ei_ExitReason ei \<noteq> EXIT_REASON_CR_ACCESS"
  shows "gs_Cr0 g' = gs_Cr0 g" "gs_Cr3 g' = gs_Cr3 g" "gs_Cr4 g' = gs_Cr4 g"
    "r \<notin> (if ei_ExitReason ei = EXIT_REASON_CPUID then {GuestRax, GuestRbx, GuestRcx, GuestRdx}
       else if ei_ExitReason ei = EXIT_REASON_RDMSR then {GuestRax, GuestRdx} else {}) \<Longrightarrow>
     gs_Gpr g' r = gs_Gpr g r"
  using assms
  by (auto simp: vmx_dispatch_def Let_def HandleCpuidExit_def HandleMsrExit_def HandleIoExit_def exit_reasons
      split: if_splits)

lemma dispatch_hardware:
  assumes "vmx_dispatch hw ei g h = (g', h')"
  shows "h' = (if ei_ExitReason ei = EXIT_REASON_INVD then hw_wbinvd hw h
    else if ei_ExitReason ei = EXIT_REASON_WRMSR \<and> ucast (gs_Gpr g GuestRcx) \<notin> {0x3A, 0x13C :: u32}
    then hw_wrmsr hw (ucast (gs_Gpr g GuestRcx))
      ((gs_Gpr g GuestRax AND 0xFFFFFFFF) OR push_bit 32 (gs_Gpr g GuestRdx)) h
    else h)"
  using assms
  by (auto simp: vmx_dispatch_def Let_def HandleMsrExit_def exit_reasons split: if_splits)

lemma exit_handler_dispatch:
  obtains g h1 where
    "vmx_dispatch hw (vmx_exit_info hw h (vmx_entry_state hw base h)) (vmx_entry_state hw base h) h
      = (g, h1)"
  by (cases "vmx_dispatch hw (vmx_exit_info hw h (vmx_entry_state hw base h))
      (vmx_entry_state hw base h) h")

lemma pending_small:
  assumes "msb_law msb" "fst (ApicGetPendingInterrupt msb s) = Some v"
  shows "unat v < 256"
  using assms(2)
  by (cases rule: pending_cases [OF assms(1), of s]) (auto simp: unat_vector)

section \<open>Round trip of RDMSR and WRMSR\<close>

lemma split_halves: "(v AND 0xFFFFFFFF) OR push_bit 32 (drop_bit 32 v) = (v :: u64)"
proof (rule bit_word_eqI)
  fix n assume n: "n < LENGTH(64)"
  have m: "(0xFFFFFFFF :: u64) = mask 32" by (simp add: mask_eq_exp_minus_1)
  show "bit ((v AND 0xFFFFFFFF) OR push_bit 32 (drop_bit 32 v)) n = bit v n"
    unfolding m using n
    by (cases "n < 32")
       (auto simp: bit_or_iff bit_and_iff bit_mask_iff bit_push_bit_iff bit_drop_bit_eq)
qed

section \<open>A concrete processor\<close>

text \<open>A processor for the witnesses: the hardware state is the VMCS, every model-specific register
  reads 5 and paging is on.\<close>

definition sample_vmx_hw :: "(u32 \<Rightarrow> u64) vmx_hw" where
  "sample_vmx_hw =
     \<lparr>hw_vmread = (\<lambda>f h. h f), 
      hw_vmwrite = (\<lambda>field v h. if drop_bit 32 field \<noteq> 0 then (\<lparr>vf_CF = False, vf_ZF = True\<rparr>, h)
        else (\<lparr>vf_CF = False, vf_ZF = False\<rparr>, h(ucast field := v))),
      hw_rdmsr = (\<lambda>_ _. 5),
      hw_wrmsr = (\<lambda>_ _ h. h), hw_wbinvd = (\<lambda>h. h), hw_cpuid = (\<lambda>_. zero_regs),
      hw_cpuidex = (\<lambda>_ _. zero_regs), hw_cr0 = (\<lambda>_. 0x80000001), hw_cr3 = (\<lambda>_. 0),
      hw_cr4 = (\<lambda>_. 0), hw_write_cr4 = (\<lambda>_ h. h), hw_gdtr_base = (\<lambda>_. 0), hw_idtr_base = (\<lambda>_. 0),
      hw_alloc_page = (\<lambda>h. (Some 0x1000, h)), hw_free_page = (\<lambda>_ h. h),
      hw_stamp_page = (\<lambda>_ _ h. h), hw_vmxon = (\<lambda>_ h. (True, h)), hw_vmclear = (\<lambda>_ h. (True, h)),
      hw_vmptrld = (\<lambda>_ h. (True, h)), hw_vmlaunch = (\<lambda>h. Some h), hw_msb = clz32\<rparr>"

text \<open>A VMCS after a HLT at 0x1000.\<close>

definition halt_exit :: "u32 \<Rightarrow> u64" where
  "halt_exit = (\<lambda>_. 0)(VM_EXIT_REASON := EXIT_REASON_HLT, VMX_GUEST_RIP := 0x1000,
     VM_EXIT_INSTRUCTION_LEN := 1)"

section \<open>Properties\<close>

text \<open>C14: what the VM-exit dispatcher does to the guest's state, for every exit reason. RIP moves past
  the instruction except after an external interrupt, an interrupt window or a
  preemption-timer exit; RFLAGS and EFER stay; a general register changes only in a CPUID exit
  (RAX to RDX), a RDMSR exit (RAX, RDX) or a control-register access, and the control registers
  only in the last. The processor is touched in two cases: WBINVD for an INVD exit, and for a
  WRMSR exit one WRMSR of EDX:EAX to the register in ECX, which is left out for 0x3A and 0x13C.
  The exit handler hands the resulting general registers back to the stub. (What becomes of
  the rest is C17.)\<close>

theorem vmx_dispatch_resumes:
  assumes "vmx_dispatch hw ei g h = (g', h')"
    and "g = VmxReadGuestState hw h (load_gprs base zero_guest)" "ei = vmx_exit_info hw h g"
  defines "reason \<equiv> ei_ExitReason ei"
  shows "gs_Rip g' = gs_Rip g +
      (if reason \<in> {EXIT_REASON_EXTERNAL_INT, EXIT_REASON_INT_WINDOW, EXIT_REASON_PREEMPTION}
       then 0 else ei_InstructionLength ei)
    \<and> gs_Rflags g' = gs_Rflags g \<and> gs_Efer g' = gs_Efer g
    \<and> (reason \<noteq> EXIT_REASON_CR_ACCESS \<longrightarrow> gs_Cr0 g' = gs_Cr0 g \<and> gs_Cr3 g' = gs_Cr3 g \<and> gs_Cr4 g' = gs_Cr4 g \<and>
        (\<forall>r. r \<notin> (if reason = EXIT_REASON_CPUID then {GuestRax, GuestRbx, GuestRcx, GuestRdx}
                  else if reason = EXIT_REASON_RDMSR then {GuestRax, GuestRdx} else {}) \<longrightarrow>
             gs_Gpr g' r = gs_Gpr g r))
    \<and> h' = (if reason = EXIT_REASON_INVD then hw_wbinvd hw h
           else if reason = EXIT_REASON_WRMSR \<and> ucast (gs_Gpr g GuestRcx) \<notin> {0x3A, 0x13C :: u32}
           then hw_wrmsr hw (ucast (gs_Gpr g GuestRcx))
             ((gs_Gpr g GuestRax AND 0xFFFFFFFF) OR push_bit 32 (gs_Gpr g GuestRdx)) h
           else h)
    \<and> fst (BemiVmxExitHandler hw base apic h) = store_gprs g' base"
proof -
  have "fst (BemiVmxExitHandler hw base apic h) = store_gprs g' base"
    using assms(1) unfolding assms(3) assms(2)
    by (simp add: BemiVmxExitHandler_def Let_def split: prod.splits)
  moreover note vmx_dispatch_effect [OF assms(1)] dispatch_registers [OF assms(1)] dispatch_hardware [OF assms(1)]
  ultimately show ?thesis by (simp add: reason_def vmx_stays_def)
qed

theorem vmx_dispatch_resumes_witness:
  "case vmx_dispatch sample_vmx_hw
      (vmx_exit_info sample_vmx_hw halt_exit (VmxReadGuestState sample_vmx_hw halt_exit (load_gprs (\<lambda>_. 7) zero_guest)))
      (VmxReadGuestState sample_vmx_hw halt_exit (load_gprs (\<lambda>_. 7) zero_guest)) halt_exit of
     (g', h') \<Rightarrow> gs_Rip g' = 0x1001 \<and> h' = halt_exit \<and> gs_Gpr g' GuestRax = 7"
proof -
  let ?g = "VmxReadGuestState sample_vmx_hw halt_exit (load_gprs (\<lambda>_. 7) zero_guest)"
  obtain g' h' where d: "vmx_dispatch sample_vmx_hw (vmx_exit_info sample_vmx_hw halt_exit ?g) ?g halt_exit = (g', h')"
    by (rule prod.exhaust)
  from vmx_dispatch_resumes [OF d refl refl] show ?thesis
    unfolding d by (simp add: sample_vmx_hw_def halt_exit_def vmx_exit_info_def VmxReadGuestState_def
        load_gprs_def vmcs_fields exit_reasons gpr_index)
qed

text \<open>Reading a model-specific register and writing the result back, through two exits, is
  exact: the WRMSR exit hands the hardware the very 64-bit value the RDMSR exit split over
  EDX:EAX, except that a write to the feature-control register 0x3A or to 0x13C is dropped.\<close>

theorem vmx_msr_roundtrip:
  "case HandleMsrExit hw (rd_exit\<lparr>ei_ExitReason := EXIT_REASON_RDMSR\<rparr>) g h of
     (g1, h1) \<Rightarrow> snd (HandleMsrExit hw (wr_exit\<lparr>ei_ExitReason := EXIT_REASON_WRMSR\<rparr>) g1 h1) =
       (if ucast (gs_Gpr g GuestRcx) \<in> {0x3A, 0x13C :: u32} then h
        else hw_wrmsr hw (ucast (gs_Gpr g GuestRcx))
               (hw_rdmsr hw (ucast (gs_Gpr g GuestRcx)) h) h)"
  by (simp add: HandleMsrExit_def Let_def exit_reasons gpr_index split_halves)

text \<open>The processor's numbering of the general registers, as a position in \<open>GUEST_STATE\<close>.\<close>

definition x86_register :: "nat \<Rightarrow> nat" where
  "x86_register n = (if n = 0 then GuestRax else if n = 1 then GuestRcx else if n = 2 then GuestRdx
     else if n = 3 then GuestRbx else if n = 4 then GuestRsp else if n = 5 then GuestRbp
     else if n = 6 then GuestRsi else if n = 7 then GuestRdi else n)"

text \<open>The exit qualification of \<open>MOV CR3, reg\<close>.\<close>

definition mov_to_cr3 :: "nat \<Rightarrow> vm_exit_info" where
  "mov_to_cr3 n = zero_exit\<lparr>ei_ExitQualification := 3 OR push_bit 8 (of_nat n)\<rparr>"

text \<open>\<open>HandleCrAccess\<close> indexes \<open>GUEST_STATE\<close> with the processor's register number, but the
  struct has its own order. A guest's \<open>MOV CR3, reg\<close> loads the named register only for RAX
  and R8 to R15; for the seven others CR3 gets the value of a different register.\<close>

theorem vmx_mov_cr_register:
  assumes "n < 16"
  shows "gs_Cr3 (HandleCrAccess (mov_to_cr3 n) g) = gs_Gpr g n
    \<and> (x86_register n = n \<longleftrightarrow> n = 0 \<or> 8 \<le> n)"
proof -
  have "n = 0 \<or> n = 1 \<or> n \<in> set [2..<16]"
    unfolding set_upt using assms by fastforce
  then show ?thesis
    by (simp add: upt_rec_numeral, elim disjE)
       (simp_all add: HandleCrAccess_def mov_to_cr3_def zero_exit_def Let_def x86_register_def gpr_index)
qed

theorem vmx_mov_cr_register_witness:
  "gs_Cr3 (HandleCrAccess (mov_to_cr3 1) (zero_guest\<lparr>gs_Gpr := (\<lambda>_. 0)(GuestRbx := 5, GuestRcx := 7)\<rparr>))
     = 5 \<and> x86_register 1 \<noteq> 1"
  using vmx_mov_cr_register [of 1 "zero_guest\<lparr>gs_Gpr := (\<lambda>_. 0)(GuestRbx := 5, GuestRcx := 7)\<rparr>"]
  by (simp add: gpr_index)

text \<open>No interrupt the APIC shadow holds is announced to the guest. At an exit with a vector
  requested, the handler moves the highest one into service, and the value it has for the
  VM-entry interruption field then has its valid bit clear, which the processor ignores (and
  with the guest's interrupts off it does not write at all: the vector is lost).\<close>

theorem vmx_interrupts_never_injected:
  assumes "msb_law (hw_msb hw)" "apic_irr apic \<noteq> {}"
    and "BemiVmxExitHandler hw base apic h = (base', apic', h')"
  shows "apic_irr apic' = apic_irr apic - {Max (apic_irr apic)}
    \<and> Max (apic_irr apic) \<in> apic_isr apic'
    \<and> fst (ApicGetPendingInterrupt (hw_msb hw) apic) = Some (of_nat (Max (apic_irr apic)))
    \<and> \<not> bit ((ucast (of_nat (Max (apic_irr apic)) :: u32) :: u64) OR 0x700) 31"
proof -
  obtain g h1 where d: "vmx_dispatch hw (vmx_exit_info hw h (vmx_entry_state hw base h))
      (vmx_entry_state hw base h) h = (g, h1)"
    by (rule exit_handler_dispatch)
  note parts = exit_handler_parts [OF assms(3) d]
  show ?thesis
    using assms(1)
  proof (cases rule: pending_cases [where s = apic])
    case idle
    with assms(2) show ?thesis by simp
  next
    case (vector s')
    let ?v = "of_nat (Max (apic_irr apic)) :: u32"
    have small: "unat ?v < 256" using vector(2) by (simp add: unat_vector)
    have "\<not> bit (ucast ?v :: u64) 31"
    proof
      assume "bit (ucast ?v :: u64) 31"
      then have "bit (unat ?v) 31" by (simp add: bit_ucast_iff bit_unsigned_iff)
      then have "2 ^ 31 \<le> unat ?v"
        by (simp add: bit_iff_odd) (metis div_less even_zero not_le)
      with small show False by simp
    qed
    then have "\<not> bit ((ucast ?v :: u64) OR 0x700) 31"
      by (simp add: bit_or_iff)
    then show ?thesis using vector by (auto simp: parts(2))
  qed
qed

theorem vmx_interrupts_never_injected_witness:
  "case BemiVmxExitHandler sample_vmx_hw (\<lambda>_. 0) (apic_request 32 (ApicShadowInit 0))
      ((\<lambda>_. 0)(VMX_GUEST_RFLAGS := 0x202)) of
     (base', apic', h') \<Rightarrow> 32 \<in> apic_isr apic' \<and> apic_irr apic' = {}"
proof -
  let ?a = "apic_request 32 (ApicShadowInit 0)" and ?h = "(\<lambda>_. 0)(VMX_GUEST_RFLAGS := 0x202) :: u32 \<Rightarrow> u64"
  have "apic_irr (ApicShadowInit 0) = {}"
    by (auto simp: apic_irr_def bank_set_def ApicShadowInit_def bank_reg_def)
  then have irr: "apic_irr ?a = {32}" using lapic.request_irr [of 32] by simp
  obtain base' apic' h' where e: "BemiVmxExitHandler sample_vmx_hw (\<lambda>_. 0) ?a ?h = (base', apic', h')"
    using prod_cases3 by blast
  have "msb_law (hw_msb sample_vmx_hw)" by (simp add: sample_vmx_hw_def clz32_law)
  from vmx_interrupts_never_injected [OF this _ e] show ?thesis
    unfolding e by (simp add: irr)
qed

text \<open>After a successful \<open>HypervisorBackendInit\<close> the backend's exit function is \<open>VmxHandleExit\<close>,
  which calls the backend's exit function: a call never returns, whatever the exit.\<close>

theorem vmx_handle_exit_never_returns:
  assumes "HypervisorBackendInit_vmx hw n s h = (EFI_SUCCESS, s', h')"
  shows "VmxHandleExit s' ei g = None"
proof -
  have "vx_HandleExit s' = VmxHandleExitFn"
    using assms by (auto simp: HypervisorBackendInit_vmx_def Let_def split: if_splits)
  moreover have "VmxHandleExit s' ei g = Some r \<Longrightarrow> vx_HandleExit s' \<noteq> VmxHandleExitFn" for r
  proof (erule VmxHandleExit.raw_induct
      [where P = "\<lambda>s ei g r. vx_HandleExit s \<noteq> VmxHandleExitFn", rotated])
    show "vx_HandleExit s \<noteq> VmxHandleExitFn"
      if "\<And>s ei g y. f s ei g = Some y \<Longrightarrow> vx_HandleExit s \<noteq> VmxHandleExitFn"
        "(case vx_HandleExit s of NullFn \<Rightarrow> None | VmxHandleExitFn \<Rightarrow> f s ei g) = Some y"
      for f s ei g y
      using that by (cases "vx_HandleExit s") auto
  qed
  ultimately show ?thesis by (cases "VmxHandleExit s' ei g") auto
qed

theorem vmx_handle_exit_never_returns_witness:
  "\<forall>s. \<exists>s' h'. HypervisorBackendInit_vmx sample_vmx_hw 4 s (\<lambda>_. 0) = (EFI_SUCCESS, s', h') \<and>
     VmxHandleExit s' zero_exit zero_guest = None"
proof
  fix s
  obtain s' h' where i: "HypervisorBackendInit_vmx sample_vmx_hw 4 s (\<lambda>_. 0) = (EFI_SUCCESS, s', h')"
    by (simp add: HypervisorBackendInit_vmx_def sample_vmx_hw_def Let_def)
  with vmx_handle_exit_never_returns [OF i]
  show "\<exists>s' h'. HypervisorBackendInit_vmx sample_vmx_hw 4 s (\<lambda>_. 0) = (EFI_SUCCESS, s', h') \<and>
     VmxHandleExit s' zero_exit zero_guest = None" by blast
qed

text \<open>A control word \<open>AdjustCtrl\<close> computes is one the processor accepts: when the capability
  register is consistent (a bit that must be 1 may be 1), a bit is set exactly if it must be,
  or it was requested and may be.\<close>

theorem adjust_ctrl_allowed:
  assumes "\<forall>i<32. bit (hw_rdmsr hw m h) i \<longrightarrow> bit (hw_rdmsr hw m h) (32 + i)"
  shows "bit (AdjustCtrl hw h m req) i \<longleftrightarrow>
    i < 32 \<and> (bit (hw_rdmsr hw m h) i \<or> bit req i \<and> bit (hw_rdmsr hw m h) (32 + i))"
proof -
  have m: "(0xFFFFFFFF :: u64) = mask 32" by (simp add: mask_eq_exp_minus_1)
  show ?thesis
    unfolding AdjustCtrl_def Let_def m
    using assms by (auto simp: bit_or_iff bit_and_iff bit_mask_iff bit_drop_bit_eq add.commute)
qed

theorem adjust_ctrl_allowed_witness:
  "\<not> bit (AdjustCtrl (sample_vmx_hw\<lparr>hw_rdmsr := \<lambda>_ _. push_bit 32 8\<rparr>) (\<lambda>_. 0)
      VMX_PINBASED_CTRL_MSR 9) 0"
proof -
  let ?hw = "sample_vmx_hw\<lparr>hw_rdmsr := \<lambda>_ _. push_bit 32 8\<rparr>"
  have z: "\<not> bit (push_bit 32 8 :: u64) i" if "i < 32" for i
    using that by (simp only: bit_push_bit_iff) simp
  then have "\<forall>i<32. bit (hw_rdmsr ?hw VMX_PINBASED_CTRL_MSR (\<lambda>_. 0)) i \<longrightarrow>
      bit (hw_rdmsr ?hw VMX_PINBASED_CTRL_MSR (\<lambda>_. 0)) (32 + i)"
    by simp
  from adjust_ctrl_allowed [OF this, of 9 0] z [of 0] show ?thesis by simp
qed

lemma setup_status: "VmxSetupVmcs hw e sp h = (st, h') \<Longrightarrow> st = EFI_SUCCESS"
  by (simp add: VmxSetupVmcs_def Let_def)

text \<open>When \<open>VmxVcpuCreate\<close> succeeds the vCPU is active; when VMXON, VMCLEAR or
  VMPTRLD fails it is not, and \<open>VmxVcpuRun\<close> refuses it.\<close>

theorem vmx_create_vcpu:
  assumes "VmxVcpuCreate hw vid e sp s h = (st, s', h')"
  shows "(st = EFI_SUCCESS \<longrightarrow> unat vid < MAX_LOGICAL_PROCESSORS \<and> vc_Active (vx_Vcpu s' (unat vid)))
    \<and> (st = EFI_DEVICE_ERROR \<longrightarrow> VmxVcpuRun hw vid s' h' = Done (EFI_INVALID_PARAMETER, h'))
    \<and> (\<forall>j. j \<noteq> unat vid \<longrightarrow> vx_Vcpu s' j = vx_Vcpu s j)"
  using assms
  by (auto simp: VmxVcpuCreate_def VmxVcpuRun_def Let_def
      dest!: setup_status split: if_splits prod.splits option.splits)

theorem vmx_create_vcpu_witness:
  "\<forall>s. case VmxVcpuCreate sample_vmx_hw 3 0x7C00 0x7000 s (\<lambda>_. 0) of
     (st, s', h') \<Rightarrow> st = EFI_SUCCESS \<and> vc_Active (vx_Vcpu s' 3)"
proof
  fix s
  obtain st s' h' where c: "VmxVcpuCreate sample_vmx_hw 3 0x7C00 0x7000 s (\<lambda>_. 0) = (st, s', h')"
    using prod_cases3 by blast
  have "st = EFI_SUCCESS"
    using c by (auto simp: VmxVcpuCreate_def sample_vmx_hw_def MAX_LOGICAL_PROCESSORS_def Let_def
        VmxSetupVmcs_def)
  with vmx_create_vcpu [OF c]
  show "case VmxVcpuCreate sample_vmx_hw 3 0x7C00 0x7000 s (\<lambda>_. 0) of
     (st, s', h') \<Rightarrow> st = EFI_SUCCESS \<and> vc_Active (vx_Vcpu s' 3)"
    unfolding c by simp
qed

end
