(* ===== verification/SvmCore.thy ===== *)
theory SvmCore
  imports VmxCore
begin

text \<open>
  The AMD-V core, \<open>hypervisor/svm/svmcore.c\<close>: initialisation, vCPU creation, the exit handler
  and the run loop. The register and MSR handlers are those of \<open>VmxCore\<close>, which the code
  shares. A control block is the record \<open>vmcb\<close>: its 64-bit fields and its two 32-bit
  intercept words, by byte offset (no access of the code overlaps another). \<open>VMRUN\<close> is the
  parameter \<open>vmrun\<close>; it may change the control blocks and the hardware. An access
  to \<open>gSvmVcpuState\<close> outside its 256 elements is \<open>Corrupts\<close>.
\<close>

section \<open>State\<close>

definition SVM_MSR_VM_HSAVE_PA :: u32 where "SVM_MSR_VM_HSAVE_PA = 0xC0010117"
definition SVM_VMCB_CR_INTERCEPTS :: nat where "SVM_VMCB_CR_INTERCEPTS = 0x000"
definition SVM_VMCB_INSTRUCTION_INTERCEPTS :: nat where "SVM_VMCB_INSTRUCTION_INTERCEPTS = 0x00C"
definition SVM_VMCB_GUEST_CR0 :: nat where "SVM_VMCB_GUEST_CR0 = 0x100"
definition SVM_VMCB_GUEST_CR3 :: nat where "SVM_VMCB_GUEST_CR3 = 0x110"
definition SVM_VMCB_GUEST_CR4 :: nat where "SVM_VMCB_GUEST_CR4 = 0x118"
definition SVM_VMCB_GUEST_RIP :: nat where "SVM_VMCB_GUEST_RIP = 0x138"
definition SVM_VMCB_GUEST_RFLAGS :: nat where "SVM_VMCB_GUEST_RFLAGS = 0x140"
definition SVM_VMCB_GUEST_RSP :: nat where "SVM_VMCB_GUEST_RSP = 0x148"

lemmas vmcb_offsets = SVM_VMCB_GUEST_CR0_def SVM_VMCB_GUEST_CR3_def SVM_VMCB_GUEST_CR4_def
  SVM_VMCB_GUEST_RIP_def SVM_VMCB_GUEST_RFLAGS_def SVM_VMCB_GUEST_RSP_def

record vmcb =
  vb_Quad :: "nat \<Rightarrow> u64"
  vb_Word :: "nat \<Rightarrow> u32"

definition zero_vmcb :: vmcb where "zero_vmcb = \<lparr>vb_Quad = (\<lambda>_. 0), vb_Word = (\<lambda>_. 0)\<rparr>"

record svm_vcpu =
  sv_VmcbPhysAddr :: u64
  sv_HsavePhysAddr :: u64
  sv_Active :: bool

record svm_state =
  ss_Vcpu :: "nat \<Rightarrow> svm_vcpu"
  ss_CpuCount :: u64
  ss_Pages :: "u64 \<Rightarrow> vmcb"

definition zero_svm_vcpu :: svm_vcpu where
  "zero_svm_vcpu = \<lparr>sv_VmcbPhysAddr = 0, sv_HsavePhysAddr = 0, sv_Active = False\<rparr>"

section \<open>Initialisation and creation\<close>

definition SvmInit :: "'h vmx_hw \<Rightarrow> u64 \<Rightarrow> svm_state \<Rightarrow> 'h \<Rightarrow> efi_status \<times> svm_state \<times> 'h" where
  "SvmInit hw CpuCount s h =
     (let s = s\<lparr>ss_CpuCount := CpuCount, ss_Vcpu := (\<lambda>_. zero_svm_vcpu)\<rparr> in
      if cr_Ecx (hw_cpuid hw 0x80000001) AND BIT2 = 0 then (EFI_UNSUPPORTED, s, h)
      else
        (let efer = hw_rdmsr hw 0xC0000080 h;
             h = (if efer AND BIT12 = 0 then hw_wrmsr hw 0xC0000080 (efer OR BIT12) h else h)
         in (EFI_SUCCESS, s, h)))"

definition svm_initial_vmcb :: "'h vmx_hw \<Rightarrow> u64 \<Rightarrow> u64 \<Rightarrow> 'h \<Rightarrow> vmcb" where
  "svm_initial_vmcb hw EntryPoint StackPointer h =
     \<lparr>vb_Quad = (\<lambda>_. 0)(SVM_VMCB_GUEST_RIP := EntryPoint, SVM_VMCB_GUEST_RSP := StackPointer,
        SVM_VMCB_GUEST_CR0 := hw_cr0 hw h, SVM_VMCB_GUEST_CR3 := hw_cr3 hw h,
        SVM_VMCB_GUEST_CR4 := hw_cr4 hw h, SVM_VMCB_GUEST_RFLAGS := 0x02),
      vb_Word = (\<lambda>_. 0)(SVM_VMCB_CR_INTERCEPTS := 0x00 OR 0x01,
        SVM_VMCB_INSTRUCTION_INTERCEPTS := ((BIT5 OR BIT11) OR BIT10) OR BIT7)\<rparr>"

definition SvmCreateVcpu ::
  "'h vmx_hw \<Rightarrow> u64 \<Rightarrow> u64 \<Rightarrow> u64 \<Rightarrow> svm_state \<Rightarrow> 'h \<Rightarrow> (efi_status \<times> svm_state \<times> 'h) outcome" where
  "SvmCreateVcpu hw VcpuId EntryPoint StackPointer s h =
     (if VcpuId \<ge> ss_CpuCount s then Done (EFI_INVALID_PARAMETER, s, h)
      else
        (let (vmcb, h) = hw_alloc_page hw h in
         case vmcb of
           None \<Rightarrow> Done (EFI_OUT_OF_RESOURCES, s, h)
         | Some vmcb \<Rightarrow>
             (let (hsave, h) = hw_alloc_page hw h in
              case hsave of
                None \<Rightarrow> Done (EFI_OUT_OF_RESOURCES, s, hw_free_page hw vmcb h)
              | Some hsave \<Rightarrow>
                  if unat VcpuId \<ge> MAX_LOGICAL_PROCESSORS then Corrupts
                  else
                    (let h = hw_wrmsr hw SVM_MSR_VM_HSAVE_PA hsave h
                     in Done (EFI_SUCCESS,
                          s\<lparr>ss_Vcpu := (ss_Vcpu s)(unat VcpuId :=
                               \<lparr>sv_VmcbPhysAddr = vmcb, sv_HsavePhysAddr = hsave, sv_Active = True\<rparr>),
                            ss_Pages := (ss_Pages s)(vmcb :=
                               svm_initial_vmcb hw EntryPoint StackPointer h)\<rparr>, h)))))"

section \<open>The exit handler\<close>

definition svm_entry_state :: "vmcb \<Rightarrow> (nat \<Rightarrow> u64) \<Rightarrow> guest_state" where
  "svm_entry_state vmcb base =
     (set_gpr GuestRsp (vb_Quad vmcb SVM_VMCB_GUEST_RSP) (load_gprs base zero_guest))
       \<lparr>gs_Rip := vb_Quad vmcb SVM_VMCB_GUEST_RIP, gs_Cr0 := vb_Quad vmcb SVM_VMCB_GUEST_CR0,
        gs_Cr3 := vb_Quad vmcb SVM_VMCB_GUEST_CR3, gs_Cr4 := vb_Quad vmcb SVM_VMCB_GUEST_CR4,
        gs_Rflags := vb_Quad vmcb SVM_VMCB_GUEST_RFLAGS\<rparr>"

definition svm_exit_info :: "vmcb \<Rightarrow> guest_state \<Rightarrow> vm_exit_info" where
  "svm_exit_info vmcb g =
     (let nextRip = vb_Quad vmcb 0x90 in
      zero_exit\<lparr>ei_ExitReason := vb_Quad vmcb 0x70, ei_ExitQualification := vb_Quad vmcb 0x78,
        ei_InstructionLength := (if nextRip > gs_Rip g then nextRip - gs_Rip g else 3),
        ei_GuestRip := gs_Rip g, ei_GuestRsp := gs_Gpr g GuestRsp\<rparr>)"

text \<open>The nested-page-fault branch.\<close>

definition svm_page_fault ::
  "'h vmx_hw \<Rightarrow> vm_exit_info \<Rightarrow> guest_state \<Rightarrow> apic_state \<Rightarrow> guest_state \<times> apic_state" where
  "svm_page_fault hw ei g apic =
     (let gpa = ei_ExitQualification ei AND 0xFFFFFFFFFFFFF000;
          (g, apic) =
            (if gpa \<ge> 0xFEC00000 \<and> gpa < 0xFF000000 then
               (let isWrite = (ei_ExitQualification ei AND BIT5 \<noteq> 0);
                    (hit, value, apic) =
                      ApicHandleMmioAccess (hw_msb hw) gpa isWrite (gs_Gpr g GuestRax) apic
                in if hit \<and> \<not> isWrite
                   then (set_gpr GuestRax ((gs_Gpr g GuestRax AND NOT 0xFFFFFFFF)
                           OR (value AND 0xFFFFFFFF)) g, apic)
                   else (g, apic))
             else (g, apic))
      in (g\<lparr>gs_Rip := gs_Rip g + 1\<rparr>, apic))"

definition svm_dispatch ::
  "'h vmx_hw \<Rightarrow> vm_exit_info \<Rightarrow> guest_state \<Rightarrow> apic_state \<Rightarrow> 'h \<Rightarrow> guest_state \<times> apic_state \<times> 'h" where
  "svm_dispatch hw ei g apic h =
     (let reason = ei_ExitReason ei in
      if reason = 0x72 then (HandleCpuidExit hw ei g, apic, h)
      else if reason = 0x7C then (let (g, h) = HandleMsrExit hw ei g h in (g, apic, h))
      else if reason \<in> {0x00, 0x03, 0x04, 0x10, 0x13, 0x14} then (HandleCrAccess ei g, apic, h)
      else if reason = 0x7B then (HandleIoExit ei g, apic, h)
      else if reason = 0x78 then (advance_rip ei g, apic, h)
      else if reason = 0x400 then (let (g, apic) = svm_page_fault hw ei g apic in (g, apic, h))
      else (g\<lparr>gs_Rip := gs_Rip g + 1\<rparr>, apic, h))"

definition svm_write_back :: "guest_state \<Rightarrow> vmcb \<Rightarrow> vmcb" where
  "svm_write_back g vmcb =
     vmcb\<lparr>vb_Quad := (vb_Quad vmcb)(SVM_VMCB_GUEST_RIP := gs_Rip g,
        SVM_VMCB_GUEST_RSP := gs_Gpr g GuestRsp, SVM_VMCB_GUEST_CR0 := gs_Cr0 g,
        SVM_VMCB_GUEST_CR3 := gs_Cr3 g, SVM_VMCB_GUEST_CR4 := gs_Cr4 g,
        SVM_VMCB_GUEST_RFLAGS := gs_Rflags g)\<rparr>"

definition BemiSvmExitHandler ::
  "'h vmx_hw \<Rightarrow> vmcb \<Rightarrow> (nat \<Rightarrow> u64) \<Rightarrow> apic_state \<Rightarrow> 'h \<Rightarrow>
     efi_status \<times> vmcb \<times> (nat \<Rightarrow> u64) \<times> apic_state \<times> 'h" where
  "BemiSvmExitHandler hw vmcb GuestGprBase apic h =
     (let g = svm_entry_state vmcb GuestGprBase;
          ei = svm_exit_info vmcb g;
          (g, apic, h) = svm_dispatch hw ei g apic h
      in (EFI_SUCCESS, svm_write_back g vmcb, store_gprs g GuestGprBase, apic, h))"

section \<open>The run loop\<close>

record 'h svm_machine =
  sm_State :: svm_state
  sm_Gpr :: "nat \<Rightarrow> u64"
  sm_Apic :: apic_state
  sm_Hw :: 'h

text \<open>One turn: VMRUN, then the exit handler. \<open>Inl\<close> is a return of the loop.\<close>

definition svm_turn ::
  "'h vmx_hw \<Rightarrow> (u64 \<Rightarrow> svm_state \<times> 'h \<Rightarrow> u8 \<times> svm_state \<times> 'h) \<Rightarrow> u64 \<Rightarrow> 'h svm_machine \<Rightarrow>
     (efi_status \<times> 'h svm_machine) + 'h svm_machine" where
  "svm_turn hw vmrun addr m =
     (let (result, s, h) = vmrun addr (sm_State m, sm_Hw m);
          m = m\<lparr>sm_State := s, sm_Hw := h\<rparr>
      in if result \<noteq> 0 then Inl (EFI_DEVICE_ERROR, m)
         else
           (let (status, vmcb, gpr, apic, h) =
                  BemiSvmExitHandler hw (ss_Pages s addr) (sm_Gpr m) (sm_Apic m) h;
                m = m\<lparr>sm_State := s\<lparr>ss_Pages := (ss_Pages s)(addr := vmcb)\<rparr>, sm_Gpr := gpr,
                      sm_Apic := apic, sm_Hw := h\<rparr>
            in if EFI_ERROR status then Inl (status, m) else Inr m))"

partial_function (option) svm_loop ::
  "'h vmx_hw \<Rightarrow> (u64 \<Rightarrow> svm_state \<times> 'h \<Rightarrow> u8 \<times> svm_state \<times> 'h) \<Rightarrow> u64 \<Rightarrow> 'h svm_machine \<Rightarrow>
     (efi_status \<times> 'h svm_machine) option" where
  "svm_loop hw vmrun addr m =
     (case svm_turn hw vmrun addr m of Inl r \<Rightarrow> Some r | Inr m' \<Rightarrow> svm_loop hw vmrun addr m')"

definition SvmRunVcpu ::
  "'h vmx_hw \<Rightarrow> (u64 \<Rightarrow> svm_state \<times> 'h \<Rightarrow> u8 \<times> svm_state \<times> 'h) \<Rightarrow> u64 \<Rightarrow> svm_state \<Rightarrow> apic_state \<Rightarrow>
     'h \<Rightarrow> (efi_status \<times> 'h svm_machine) outcome" where
  "SvmRunVcpu hw vmrun VcpuId s apic h =
     (let m = \<lparr>sm_State = s, sm_Gpr = (\<lambda>_. 0), sm_Apic = apic, sm_Hw = h\<rparr> in
      if VcpuId \<ge> ss_CpuCount s then Done (EFI_INVALID_PARAMETER, m)
      else if unat VcpuId \<ge> MAX_LOGICAL_PROCESSORS then Corrupts
      else if \<not> sv_Active (ss_Vcpu s (unat VcpuId)) then Done (EFI_INVALID_PARAMETER, m)
      else outcome_of_option (svm_loop hw vmrun (sv_VmcbPhysAddr (ss_Vcpu s (unat VcpuId))) m))"

text \<open>The wrapper of the instruction in \<open>SvmAsm.nasm\<close>: it loads the block's address, runs the
  guest and always returns 0.\<close>

definition BemiSvmVmRun :: "(u64 \<Rightarrow> 'm \<Rightarrow> 'm) \<Rightarrow> u64 \<Rightarrow> 'm \<Rightarrow> u8 \<times> 'm" where
  "BemiSvmVmRun vmrun addr m = (0, vmrun addr m)"

section \<open>The states of the run loop\<close>

text \<open>\<open>svm_reach hw vmrun addr m0 n m\<close>: after \<open>n\<close> turns that began in \<open>m0\<close> the loop is in \<open>m\<close>.\<close>

inductive svm_reach ::
  "'h vmx_hw \<Rightarrow> (u64 \<Rightarrow> svm_state \<times> 'h \<Rightarrow> u8 \<times> svm_state \<times> 'h) \<Rightarrow> u64 \<Rightarrow> 'h svm_machine \<Rightarrow> nat \<Rightarrow>
     'h svm_machine \<Rightarrow> bool"
  for hw vmrun addr m0 where
  start: "svm_reach hw vmrun addr m0 0 m0"
| turn: "svm_reach hw vmrun addr m0 n m \<Longrightarrow> svm_turn hw vmrun addr m = Inr m' \<Longrightarrow>
    svm_reach hw vmrun addr m0 (Suc n) m'"

inductive_cases svm_reach_0E: "svm_reach hw vmrun addr m0 0 m"
inductive_cases svm_reach_SucE: "svm_reach hw vmrun addr m0 (Suc n) m"

lemma svm_reach_first:
  assumes "svm_reach hw vmrun addr m0 n m" "n = Suc k"
  obtains m1 where "svm_turn hw vmrun addr m0 = Inr m1" "svm_reach hw vmrun addr m1 k m"
  using assms
proof (induction arbitrary: k thesis)
  case (turn n m m')
  show ?case
  proof (cases n)
    case 0
    with turn.hyps have "m = m0" by (auto elim: svm_reach_0E)
    with turn 0 show ?thesis by (auto intro: svm_reach.start)
  next
    case (Suc j)
    with turn show ?thesis by (metis Suc_inject svm_reach.turn)
  qed
qed simp

text \<open>The loop runs for ever exactly when it has a state after every number of turns.\<close>

lemma svm_loop_None_iff:
  "svm_loop hw vmrun addr m0 = None \<longleftrightarrow> (\<forall>n. \<exists>m. svm_reach hw vmrun addr m0 n m)"
proof
  assume none: "svm_loop hw vmrun addr m0 = None"
  have "\<exists>m. svm_reach hw vmrun addr m0 n m \<and> svm_loop hw vmrun addr m = None" for n
  proof (induction n)
    case 0
    then show ?case using none svm_reach.start by blast
  next
    case (Suc n)
    then obtain m where m: "svm_reach hw vmrun addr m0 n m" "svm_loop hw vmrun addr m = None" by blast
    have "(case svm_turn hw vmrun addr m of Inl r \<Rightarrow> Some r | Inr m' \<Rightarrow> svm_loop hw vmrun addr m') = None"
      using m(2) by (subst (asm) svm_loop.simps)
    then obtain m' where "svm_turn hw vmrun addr m = Inr m'" "svm_loop hw vmrun addr m' = None"
      by (cases "svm_turn hw vmrun addr m") auto
    with m(1) show ?case by (blast intro: svm_reach.turn)
  qed
  then show "\<forall>n. \<exists>m. svm_reach hw vmrun addr m0 n m" by blast
next
  assume all: "\<forall>n. \<exists>m. svm_reach hw vmrun addr m0 n m"
  have step: "\<exists>n. \<forall>m'. \<not> svm_reach hw vmrun addr m n m'"
    if ih: "\<And>hw vmrun addr m r. f hw vmrun addr m = Some r \<Longrightarrow> \<exists>n. \<forall>m'. \<not> svm_reach hw vmrun addr m n m'"
      and it: "(case svm_turn hw vmrun addr m of Inl r \<Rightarrow> Some r | Inr m' \<Rightarrow> f hw vmrun addr m') = Some r"
    for f :: "'a vmx_hw \<Rightarrow> (u64 \<Rightarrow> svm_state \<times> 'a \<Rightarrow> u8 \<times> svm_state \<times> 'a) \<Rightarrow> u64 \<Rightarrow> 'a svm_machine \<Rightarrow>
        (efi_status \<times> 'a svm_machine) option" and hw vmrun addr m r
  proof (cases "svm_turn hw vmrun addr m")
    case (Inl x)
    then have "\<not> svm_reach hw vmrun addr m (Suc 0) m'" for m'
      by (auto elim!: svm_reach_SucE svm_reach_0E)
    then show ?thesis by blast
  next
    case (Inr m1)
    with it have "f hw vmrun addr m1 = Some r" by simp
    then obtain n where n: "\<forall>m'. \<not> svm_reach hw vmrun addr m1 n m'" by (elim exE [OF ih])
    have "\<not> svm_reach hw vmrun addr m (Suc n) m'" for m'
    proof
      assume "svm_reach hw vmrun addr m (Suc n) m'"
      then show False
      proof (rule svm_reach_first [OF _ refl])
        fix m2 assume "svm_turn hw vmrun addr m = Inr m2" "svm_reach hw vmrun addr m2 n m'"
        with n Inr show False by simp
      qed
    qed
    then show ?thesis by blast
  qed
  have "\<exists>n. \<forall>m'. \<not> svm_reach hw vmrun addr m0 n m'" if "svm_loop hw vmrun addr m0 = Some r" for r
    using that
    by (rule svm_loop.raw_induct
        [where P = "\<lambda>hw vmrun addr m r. \<exists>n. \<forall>m'. \<not> svm_reach hw vmrun addr m n m'", rotated])
      (rule step)
  with all show "svm_loop hw vmrun addr m0 = None" by (cases "svm_loop hw vmrun addr m0") blast+
qed

section \<open>Properties\<close>

lemma svm_turn_ok:
  assumes "svm_turn hw vmrun addr m = Inl (st, m')"
  shows "st = EFI_DEVICE_ERROR"
  using assms
  by (auto simp: svm_turn_def BemiSvmExitHandler_def Let_def split: prod.splits if_splits)

lemma svm_loop_result:
  assumes "svm_loop hw vmrun addr m = Some r"
  shows "fst r = EFI_DEVICE_ERROR \<and> \<not> (\<forall>a x. fst (vmrun a x) = 0)"
proof -
  have step: "fst r = EFI_DEVICE_ERROR \<and> \<not> (\<forall>a x. fst (vmrun a x) = 0)"
    if ih: "\<And>hw vmrun addr m r. f hw vmrun addr m = Some r \<Longrightarrow>
        fst r = EFI_DEVICE_ERROR \<and> \<not> (\<forall>a x. fst (vmrun a x) = 0)"
      and it: "(case svm_turn hw vmrun addr m of Inl r \<Rightarrow> Some r | Inr m' \<Rightarrow> f hw vmrun addr m') = Some r"
    for f :: "'a vmx_hw \<Rightarrow> (u64 \<Rightarrow> svm_state \<times> 'a \<Rightarrow> u8 \<times> svm_state \<times> 'a) \<Rightarrow> u64 \<Rightarrow> 'a svm_machine \<Rightarrow>
        (efi_status \<times> 'a svm_machine) option" and hw vmrun addr m r
  proof (cases "svm_turn hw vmrun addr m")
    case (Inl x)
    then have "\<not> (\<forall>a x. fst (vmrun a x) = 0)"
      by (auto simp: svm_turn_def BemiSvmExitHandler_def Let_def split: prod.splits if_splits)
         (metis fst_conv)
    with Inl it svm_turn_ok [of hw vmrun addr m "fst x" "snd x"] show ?thesis by auto
  next
    case (Inr m')
    with it ih [of hw vmrun addr m' r] show ?thesis by simp
  qed
  show ?thesis
    using assms
    by (rule svm_loop.raw_induct
        [where P = "\<lambda>hw vmrun addr m r. fst r = EFI_DEVICE_ERROR \<and> \<not> (\<forall>a x. fst (vmrun a x) = 0)",
          rotated]) (rule step)
qed

text \<open>\<open>SvmRunVcpu\<close> never returns success. On an active vCPU it returns only \<open>EFI_DEVICE_ERROR\<close>,
  and only if VMRUN reports a failure; with the wrapper \<open>BemiSvmVmRun\<close>, which always reports
  0, it runs for ever.\<close>

lemma svm_run_never_succeeds:
  assumes "ss_CpuCount s > i" "unat i < MAX_LOGICAL_PROCESSORS" "sv_Active (ss_Vcpu s (unat i))"
  shows "case SvmRunVcpu hw vmrun i s apic h of
      Hangs \<Rightarrow> True
    | Corrupts \<Rightarrow> False
    | Done (st, _) \<Rightarrow> st = EFI_DEVICE_ERROR \<and> \<not> (\<forall>a x. fst (vmrun a x) = 0)"
proof -
  define r where "r = svm_loop hw vmrun (sv_VmcbPhysAddr (ss_Vcpu s (unat i)))
    \<lparr>sm_State = s, sm_Gpr = (\<lambda>_. 0), sm_Apic = apic, sm_Hw = h\<rparr>"
  have "SvmRunVcpu hw vmrun i s apic h = outcome_of_option r"
    using assms by (simp add: SvmRunVcpu_def Let_def r_def not_le [symmetric])
  moreover have "r = Some x \<Longrightarrow> fst x = EFI_DEVICE_ERROR \<and> \<not> (\<forall>a x. fst (vmrun a x) = 0)" for x
    unfolding r_def by (rule svm_loop_result)
  ultimately show ?thesis by (cases r) auto
qed

lemma svm_run_forever:
  assumes "ss_CpuCount s > i" "unat i < MAX_LOGICAL_PROCESSORS" "sv_Active (ss_Vcpu s (unat i))"
  shows "SvmRunVcpu hw (BemiSvmVmRun f) i s apic h = Hangs"
  using svm_run_never_succeeds [OF assms, where hw = hw and vmrun = "BemiSvmVmRun f" and apic = apic and h = h]
  by (simp add: BemiSvmVmRun_def split: outcome.splits prod.splits)

lemma svm_run_outcomes:
  "SvmRunVcpu hw (BemiSvmVmRun f) i s apic h =
     (if i \<ge> ss_CpuCount s then Done (EFI_INVALID_PARAMETER, \<lparr>sm_State = s, sm_Gpr = (\<lambda>_. 0), sm_Apic = apic, sm_Hw = h\<rparr>)
      else if unat i \<ge> MAX_LOGICAL_PROCESSORS then Corrupts
      else if \<not> sv_Active (ss_Vcpu s (unat i)) then Done (EFI_INVALID_PARAMETER, \<lparr>sm_State = s, sm_Gpr = (\<lambda>_. 0), sm_Apic = apic, sm_Hw = h\<rparr>)
      else Hangs)"
proof (cases "i < ss_CpuCount s \<and> unat i < MAX_LOGICAL_PROCESSORS \<and> sv_Active (ss_Vcpu s (unat i))")
  case True
  then show ?thesis using svm_run_forever [of i s hw f apic h] by (auto simp: not_le [symmetric])
qed (auto simp: SvmRunVcpu_def Let_def)

text \<open>Every MSR exit on AMD is handled as a write. The handler passes the AMD exit code 0x7C
  to \<open>HandleMsrExit\<close>, which recognises only the Intel code of RDMSR: a guest that reads a
  register overwrites it with its EDX:EAX and gets no value.\<close>

theorem svm_rdmsr_writes:
  assumes "vb_Quad vmcb 0x70 = 0x7C"
    and "BemiSvmExitHandler hw vmcb base apic h = (st, vmcb', base', apic', h')"
  defines "i \<equiv> ucast (base 2) :: u32"
  shows "base' = base \<and> h' = (if i = 0x3A \<or> i = 0x13C then h
     else hw_wrmsr hw i ((base 0 AND 0xFFFFFFFF) OR push_bit 32 (base 3)) h)"
proof -
  let ?g = "svm_entry_state vmcb base"
  have g: "gs_Gpr (svm_entry_state vmcb b) GuestRax = b 0"
    "gs_Gpr (svm_entry_state vmcb b) GuestRcx = b 2"
    "gs_Gpr (svm_entry_state vmcb b) GuestRdx = b 3" for b
    by (simp_all add: svm_entry_state_def load_gprs_def gpr_index)
  have "store_gprs ?g base = base"
    by (auto simp: store_gprs_def svm_entry_state_def load_gprs_def GuestRsp_def)
  moreover have "store_gprs (advance_rip ei g) base = store_gprs g base" for ei g
    unfolding store_gprs_def advance_rip_simps ..
  ultimately show ?thesis
    using assms(1,2)
    by (auto simp: BemiSvmExitHandler_def svm_dispatch_def HandleMsrExit_def svm_exit_info_def Let_def
        EXIT_REASON_RDMSR_def g i_def)
qed

theorem svm_rdmsr_writes_witness:
  "snd (snd (snd (snd (BemiSvmExitHandler (sample_vmx_hw\<lparr>hw_wrmsr := \<lambda>i v h. h(i := v)\<rparr>)
      (zero_vmcb\<lparr>vb_Quad := (\<lambda>_. 0)(0x70 := 0x7C)\<rparr>) ((\<lambda>_. 0)(0 := 9, 2 := 0x10))
      (ApicShadowInit 0) (\<lambda>_. 0))))) 0x10 = 9"
proof -
  let ?hw = "sample_vmx_hw\<lparr>hw_wrmsr := \<lambda>i v h. h(i := v)\<rparr>"
    and ?b = "zero_vmcb\<lparr>vb_Quad := (\<lambda>_. 0)(0x70 := 0x7C)\<rparr>" and ?r = "(\<lambda>_. 0)(0 := 9, 2 := 0x10) :: nat \<Rightarrow> u64"
  obtain st vmcb' base' apic' h' where
    e: "BemiSvmExitHandler ?hw ?b ?r (ApicShadowInit 0) (\<lambda>_. 0) = (st, vmcb', base', apic', h')"
    using prod_cases5 by blast
  have "vb_Quad ?b 0x70 = 0x7C" by simp
  from svm_rdmsr_writes [OF this e] show ?thesis unfolding e by simp
qed

text \<open>\<open>SvmCreateVcpu\<close> compares the vCPU number with the processor count it was initialised
  with, not with its table of 256: it writes outside the table exactly when the number is
  below the count, at least 256, and both pages could be allocated.\<close>

theorem svm_create_out_of_bounds:
  "SvmCreateVcpu hw i e sp s h = Corrupts \<longleftrightarrow>
     i < ss_CpuCount s \<and> 256 \<le> unat i \<and> fst (hw_alloc_page hw h) \<noteq> None \<and>
     fst (hw_alloc_page hw (snd (hw_alloc_page hw h))) \<noteq> None"
  by (auto simp: SvmCreateVcpu_def MAX_LOGICAL_PROCESSORS_def Let_def not_less
      split: option.splits prod.splits)



text \<open>The processor refuses a control block whose VMRUN intercept (bit 0 of the word at 0x10) is
  clear: exit code -1, nothing else changed.\<close>

definition vmrun_checks :: "(u64 \<Rightarrow> svm_state \<times> 'h \<Rightarrow> svm_state \<times> 'h) \<Rightarrow> bool" where
  "vmrun_checks f \<longleftrightarrow>
     (\<forall>a s h. vb_Word (ss_Pages s a) 0x10 AND 1 = 0 \<longrightarrow>
        f a (s, h) = (s\<lparr>ss_Pages := (ss_Pages s)(a :=
          (ss_Pages s a)\<lparr>vb_Quad := (vb_Quad (ss_Pages s a))(0x70 := - 1)\<rparr>)\<rparr>, h))"

text \<open>One turn of a guest that the processor refuses.\<close>

definition svm_refused :: "u64 \<Rightarrow> u64 \<Rightarrow> 'h svm_machine \<Rightarrow> bool" where
  "svm_refused a sp m \<longleftrightarrow> vb_Word (ss_Pages (sm_State m) a) 0x10 = 0 \<and>
     vb_Quad (ss_Pages (sm_State m) a) SVM_VMCB_GUEST_RSP = sp \<and> sm_Gpr m = (\<lambda>_. 0)"

lemma svm_turn_refused:
  assumes "vmrun_checks f" "svm_refused a sp m" "svm_turn hw (BemiSvmVmRun f) a m = Inr m'"
  shows "svm_refused a sp m'" "sm_Apic m' = sm_Apic m" "sm_Hw m' = sm_Hw m"
    "vb_Quad (ss_Pages (sm_State m') a) SVM_VMCB_GUEST_RIP =
       vb_Quad (ss_Pages (sm_State m) a) SVM_VMCB_GUEST_RIP + 1"
proof -
  define page where "page = (ss_Pages (sm_State m) a)\<lparr>vb_Quad := (vb_Quad (ss_Pages (sm_State m) a))(0x70 := - 1)\<rparr>"
  have run: "f a (sm_State m, sm_Hw m) =
      ((sm_State m)\<lparr>ss_Pages := (ss_Pages (sm_State m))(a := page)\<rparr>, sm_Hw m)"
    using assms(1,2) by (simp add: vmrun_checks_def svm_refused_def page_def)
  let ?g = "svm_entry_state page (sm_Gpr m)"
  have "svm_dispatch hw (svm_exit_info page ?g) ?g (sm_Apic m) (sm_Hw m) =
      (?g\<lparr>gs_Rip := gs_Rip ?g + 1\<rparr>, sm_Apic m, sm_Hw m)"
    by (simp add: svm_dispatch_def svm_exit_info_def page_def Let_def)
  moreover have "store_gprs (?g\<lparr>gs_Rip := gs_Rip ?g + 1\<rparr>) (sm_Gpr m) = sm_Gpr m"
    by (auto simp: store_gprs_def svm_entry_state_def load_gprs_def GuestRsp_def)
  ultimately have m': "m' = m\<lparr>sm_State := (sm_State m)\<lparr>ss_Pages := (ss_Pages (sm_State m))(a :=
      svm_write_back (?g\<lparr>gs_Rip := gs_Rip ?g + 1\<rparr>) page)\<rparr>\<rparr>"
    using assms(3) by (auto simp: svm_turn_def BemiSvmVmRun_def run BemiSvmExitHandler_def Let_def)
  show "svm_refused a sp m'" "sm_Apic m' = sm_Apic m" "sm_Hw m' = sm_Hw m"
    "vb_Quad (ss_Pages (sm_State m') a) SVM_VMCB_GUEST_RIP =
       vb_Quad (ss_Pages (sm_State m) a) SVM_VMCB_GUEST_RIP + 1"
    using assms(2)
    by (simp_all add: m' svm_refused_def svm_write_back_def svm_entry_state_def vmcb_offsets page_def)
qed

lemma svm_create_fields:
  assumes "SvmCreateVcpu hw i e sp s h = Done (EFI_SUCCESS, s', h')"
  shows "i < ss_CpuCount s'" "unat i < MAX_LOGICAL_PROCESSORS" "sv_Active (ss_Vcpu s' (unat i))"
    "ss_Pages s' (sv_VmcbPhysAddr (ss_Vcpu s' (unat i))) = svm_initial_vmcb hw e sp h'"
  using assms
  by (auto simp: SvmCreateVcpu_def Let_def not_le [symmetric] split: if_splits option.splits prod.splits)

text \<open>C7: an AMD guest never executes an instruction. The processor refuses a control block whose
  VMRUN intercept (bit 0 of the word at 0x10) is clear, with exit code -1 and nothing else
  changed, and \<open>SvmCreateVcpu\<close> leaves that word zero. The exit handler answers the unknown code by
  adding 1 to RIP, so the loop runs for ever while RIP walks from the entry point on, and after
  \<open>n\<close> turns the registers, the APIC and the hardware are as they were.\<close>

theorem svm_guest_never_starts:
  fixes apic :: apic_state
  assumes "vmrun_checks f" "SvmCreateVcpu hw i e sp s h = Done (EFI_SUCCESS, s', h')"
  defines "a \<equiv> sv_VmcbPhysAddr (ss_Vcpu s' (unat i))"
  defines "m0 \<equiv> \<lparr>sm_State = s', sm_Gpr = (\<lambda>_. 0), sm_Apic = apic, sm_Hw = h'\<rparr>"
  shows "SvmRunVcpu hw (BemiSvmVmRun f) i s' apic h' = Hangs \<and>
    (\<forall>n. \<exists>m. svm_reach hw (BemiSvmVmRun f) a m0 n m) \<and>
    (\<forall>n m. svm_reach hw (BemiSvmVmRun f) a m0 n m \<longrightarrow>
       vb_Quad (ss_Pages (sm_State m) a) SVM_VMCB_GUEST_RIP = e + of_nat n \<and>
       vb_Quad (ss_Pages (sm_State m) a) SVM_VMCB_GUEST_RSP = sp \<and>
       sm_Gpr m = (\<lambda>_. 0) \<and> sm_Apic m = apic \<and> sm_Hw m = h')"
proof -
  note c = svm_create_fields [OF assms(2)]
  have init: "svm_refused a sp m0" "vb_Quad (ss_Pages (sm_State m0) a) SVM_VMCB_GUEST_RIP = e"
    by (simp_all add: svm_refused_def m0_def a_def c svm_initial_vmcb_def vmcb_offsets
        SVM_VMCB_CR_INTERCEPTS_def SVM_VMCB_INSTRUCTION_INTERCEPTS_def)
  have reach: "svm_refused a sp m \<and> sm_Apic m = apic \<and> sm_Hw m = h' \<and>
      vb_Quad (ss_Pages (sm_State m) a) SVM_VMCB_GUEST_RIP = e + of_nat n"
    if "svm_reach hw (BemiSvmVmRun f) a m0 n m" for n m
    using that
  proof induction
    case start
    then show ?case using init by (simp add: m0_def)
  next
    case (turn n m m')
    then have r: "svm_refused a sp m" by simp
    with turn svm_turn_refused [OF assms(1) r turn.hyps(2)] show ?case by (simp add: ac_simps)
  qed
  have "SvmRunVcpu hw (BemiSvmVmRun f) i s' apic h' = Hangs" by (rule svm_run_forever [OF c(1-3)])
  moreover have "svm_loop hw (BemiSvmVmRun f) a m0 = None"
    using calculation c(1-3) by (simp add: SvmRunVcpu_def Let_def a_def m0_def not_le [symmetric])
  ultimately show ?thesis
    using reach by (simp add: svm_loop_None_iff svm_refused_def)
qed

definition refusing_vmrun :: "u64 \<Rightarrow> svm_state \<times> 'h \<Rightarrow> svm_state \<times> 'h" where
  "refusing_vmrun a x = ((fst x)\<lparr>ss_Pages := (ss_Pages (fst x))(a :=
     (ss_Pages (fst x) a)\<lparr>vb_Quad := (vb_Quad (ss_Pages (fst x) a))(0x70 := - 1)\<rparr>)\<rparr>, snd x)"

theorem svm_guest_never_starts_witness:
  "let s = \<lparr>ss_Vcpu = (\<lambda>_. zero_svm_vcpu), ss_CpuCount = 1, ss_Pages = (\<lambda>_. zero_vmcb)\<rparr>
   in \<exists>s' h' m. SvmCreateVcpu sample_vmx_hw 0 0x7C00 0x7000 s (\<lambda>_. 0) = Done (EFI_SUCCESS, s', h') \<and>
      SvmRunVcpu sample_vmx_hw (BemiSvmVmRun refusing_vmrun) 0 s' (ApicShadowInit 0) h' = Hangs \<and>
      svm_reach sample_vmx_hw (BemiSvmVmRun refusing_vmrun) (sv_VmcbPhysAddr (ss_Vcpu s' 0))
        \<lparr>sm_State = s', sm_Gpr = (\<lambda>_. 0), sm_Apic = ApicShadowInit 0, sm_Hw = h'\<rparr> 2 m \<and>
      vb_Quad (ss_Pages (sm_State m) (sv_VmcbPhysAddr (ss_Vcpu s' 0))) SVM_VMCB_GUEST_RIP = 0x7C02"
proof -
  let ?s = "\<lparr>ss_Vcpu = (\<lambda>_. zero_svm_vcpu), ss_CpuCount = 1, ss_Pages = (\<lambda>_. zero_vmcb)\<rparr>"
  have f: "vmrun_checks refusing_vmrun" by (simp add: vmrun_checks_def refusing_vmrun_def)
  obtain s' h' where c: "SvmCreateVcpu sample_vmx_hw 0 0x7C00 0x7000 ?s (\<lambda>_. 0) = Done (EFI_SUCCESS, s', h')"
    by (simp add: SvmCreateVcpu_def sample_vmx_hw_def MAX_LOGICAL_PROCESSORS_def Let_def)
  note r = svm_guest_never_starts [OF f c, of "ApicShadowInit 0"]
  obtain m where m: "svm_reach sample_vmx_hw (BemiSvmVmRun refusing_vmrun) (sv_VmcbPhysAddr (ss_Vcpu s' (unat (0 :: u64))))
      \<lparr>sm_State = s', sm_Gpr = (\<lambda>_. 0), sm_Apic = ApicShadowInit 0, sm_Hw = h'\<rparr> 2 m"
    using r by blast
  then have "vb_Quad (ss_Pages (sm_State m) (sv_VmcbPhysAddr (ss_Vcpu s' (unat (0 :: u64))))) SVM_VMCB_GUEST_RIP
      = 0x7C00 + of_nat 2"
    using r by blast
  then have rip: "vb_Quad (ss_Pages (sm_State m) (sv_VmcbPhysAddr (ss_Vcpu s' 0))) SVM_VMCB_GUEST_RIP = 0x7C02"
    by simp
  have hang: "SvmRunVcpu sample_vmx_hw (BemiSvmVmRun refusing_vmrun) 0 s' (ApicShadowInit 0) h' = Hangs"
    using r by (rule conjunct1)
  show ?thesis unfolding Let_def
    by (rule exI [of _ s'], rule exI [of _ h'], rule exI [of _ m]) (use m in \<open>simp add: c hang rip\<close>)
qed

end
