(* ===== verification/HypervisorBackend.thy ===== *)
theory HypervisorBackend
  imports SvmCore
begin

text \<open>
  The vendor-neutral backend, \<open>hypervisor/common/hypervisorbackend.c\<close>: vendor detection, the
  choice of the backend, and its own handlers for control-register and I/O exits (named
  \<open>backend_\<close> here: \<open>vmxcore.c\<close> defines functions of the same names). Port input changes the
  hardware state.
\<close>

record 'h port_hw =
  io_in8 :: "u16 \<Rightarrow> 'h \<Rightarrow> u8 \<times> 'h"
  io_in16 :: "u16 \<Rightarrow> 'h \<Rightarrow> u16 \<times> 'h"
  io_in32 :: "u16 \<Rightarrow> 'h \<Rightarrow> u32 \<times> 'h"
  io_out8 :: "u16 \<Rightarrow> u8 \<Rightarrow> 'h \<Rightarrow> 'h"

definition backend_HypervisorDetectVendor :: "(u32 \<Rightarrow> cpuid_regs) \<Rightarrow> efi_status \<times> hypervisor_vendor" where
  "backend_HypervisorDetectVendor cp =
     (let vendor = vendor_string (cp 0x00) in
      (EFI_SUCCESS,
       if IS_INTEL vendor then HypervisorIntel
       else if IS_AMD vendor then HypervisorAmd
       else HypervisorUnknown))"

text \<open>The functions the record \<open>gHypervisorBackend\<close> points to; a zeroed record has null pointers
  and the vendor with code 0, Intel. \<open>VmxInit\<close>, \<open>VmxCreateVcpu\<close> and \<open>VmxRunVcpu\<close> are declared
  extern and defined nowhere under src/: they are the fields of \<open>vmx_externs\<close>.\<close>

datatype backend_fns = BackendNull | BackendVmx | BackendSvm

record 'h backend_state =
  bk_Vendor :: hypervisor_vendor
  bk_Fns :: backend_fns
  bk_Svm :: svm_state
  bk_Apic :: apic_state
  bk_Hw :: 'h

record 'h vmx_externs =
  ve_Init :: "u64 \<Rightarrow> 'h \<Rightarrow> efi_status \<times> 'h"
  ve_CreateVcpu :: "u64 \<Rightarrow> u64 \<Rightarrow> u64 \<Rightarrow> 'h \<Rightarrow> (efi_status \<times> 'h) outcome"
  ve_RunVcpu :: "u64 \<Rightarrow> 'h \<Rightarrow> (efi_status \<times> 'h) outcome"

definition backend_HypervisorBackendInit ::
  "'h vmx_hw \<Rightarrow> 'h vmx_externs \<Rightarrow> u64 \<Rightarrow> 'h backend_state \<Rightarrow> efi_status \<times> 'h backend_state" where
  "backend_HypervisorBackendInit hw ext CpuCount s =
     (let s = s\<lparr>bk_Vendor := HypervisorIntel, bk_Fns := BackendNull\<rparr>;
          (status, vendor) = backend_HypervisorDetectVendor (hw_cpuid hw)
      in if EFI_ERROR status then (status, s)
         else
           (let s = s\<lparr>bk_Vendor := vendor\<rparr> in
            if vendor = HypervisorIntel then
              (let (status, h) = ve_Init ext CpuCount (bk_Hw s)
               in (status, s\<lparr>bk_Fns := BackendVmx, bk_Hw := h\<rparr>))
            else if vendor = HypervisorAmd then
              (let (status, svm, h) = SvmInit hw CpuCount (bk_Svm s) (bk_Hw s)
               in (status, s\<lparr>bk_Fns := BackendSvm, bk_Svm := svm, bk_Hw := h\<rparr>))
            else (EFI_UNSUPPORTED, s)))"

text \<open>The calls through \<open>VcpuCreate\<close> and \<open>VcpuRun\<close>; a call of NULL is \<open>Corrupts\<close>.\<close>

definition backend_VcpuCreate ::
  "'h vmx_hw \<Rightarrow> 'h vmx_externs \<Rightarrow> u64 \<Rightarrow> u64 \<Rightarrow> u64 \<Rightarrow> 'h backend_state \<Rightarrow>
     (efi_status \<times> 'h backend_state) outcome" where
  "backend_VcpuCreate hw ext VcpuId EntryPoint StackPointer s =
     (case bk_Fns s of
        BackendNull \<Rightarrow> Corrupts
      | BackendVmx \<Rightarrow>
          (case ve_CreateVcpu ext VcpuId EntryPoint StackPointer (bk_Hw s) of
             Done (status, h) \<Rightarrow> Done (status, s\<lparr>bk_Hw := h\<rparr>)
           | Corrupts \<Rightarrow> Corrupts
           | Hangs \<Rightarrow> Hangs)
      | BackendSvm \<Rightarrow>
          (case SvmCreateVcpu hw VcpuId EntryPoint StackPointer (bk_Svm s) (bk_Hw s) of
             Done (status, svm, h) \<Rightarrow> Done (status, s\<lparr>bk_Svm := svm, bk_Hw := h\<rparr>)
           | Corrupts \<Rightarrow> Corrupts
           | Hangs \<Rightarrow> Hangs))"

definition backend_VcpuRun ::
  "'h vmx_hw \<Rightarrow> 'h vmx_externs \<Rightarrow> (u64 \<Rightarrow> svm_state \<times> 'h \<Rightarrow> svm_state \<times> 'h) \<Rightarrow> u64 \<Rightarrow> 'h backend_state \<Rightarrow>
     (efi_status \<times> 'h backend_state) outcome" where
  "backend_VcpuRun hw ext vmrun VcpuId s =
     (case bk_Fns s of
        BackendNull \<Rightarrow> Corrupts
      | BackendVmx \<Rightarrow>
          (case ve_RunVcpu ext VcpuId (bk_Hw s) of
             Done (status, h) \<Rightarrow> Done (status, s\<lparr>bk_Hw := h\<rparr>)
           | Corrupts \<Rightarrow> Corrupts
           | Hangs \<Rightarrow> Hangs)
      | BackendSvm \<Rightarrow>
          (case SvmRunVcpu hw (BemiSvmVmRun vmrun) VcpuId (bk_Svm s) (bk_Apic s) (bk_Hw s) of
             Done (status, m) \<Rightarrow>
               Done (status, s\<lparr>bk_Svm := sm_State m, bk_Apic := sm_Apic m, bk_Hw := sm_Hw m\<rparr>)
           | Corrupts \<Rightarrow> Corrupts
           | Hangs \<Rightarrow> Hangs))"

definition backend_HandleCrAccess :: "vm_exit_info \<Rightarrow> guest_state \<Rightarrow> guest_state" where
  "backend_HandleCrAccess ei g =
     (let crNumber = ei_ExitQualification ei AND 0x0F;
          accessType = drop_bit 4 (ei_ExitQualification ei) AND 0x03;
          g = (if accessType = 0 then
                 (if crNumber = 0 then set_gpr GuestRax (gs_Cr0 g) g
                  else if crNumber = 3 then set_gpr GuestRax (gs_Cr3 g) g
                  else if crNumber = 4 then set_gpr GuestRax (gs_Cr4 g) g
                  else g)
               else
                 (let newValue = gs_Gpr g GuestRax in
                  if crNumber = 0 then g\<lparr>gs_Cr0 := newValue\<rparr>
                  else if crNumber = 3 then g\<lparr>gs_Cr3 := newValue\<rparr>
                  else if crNumber = 4 then g\<lparr>gs_Cr4 := newValue\<rparr>
                  else g))
      in advance_rip ei g)"

definition backend_HandleIoExit ::
  "'h port_hw \<Rightarrow> vm_exit_info \<Rightarrow> guest_state \<Rightarrow> 'h \<Rightarrow> guest_state \<times> 'h" where
  "backend_HandleIoExit io ei g h =
     (let q = ei_ExitQualification ei;
          port = (ucast (drop_bit 16 q) :: u16) AND 0xFFFF;
          isWrite = (q AND 0x08 = 0);
          size = (ucast (q AND 0x07) :: u8);
          rax = gs_Gpr g GuestRax
      in if port = 0x3F8 then
           (if isWrite then (advance_rip ei g, io_out8 io port (ucast (rax AND 0xFF)) h)
            else (let (v, h) = io_in8 io port h
                  in (advance_rip ei (set_gpr GuestRax (ucast v) g), h)))
         else
           (let (g, h) =
              (if isWrite then (g, h)
               else if size = 0 then
                 (let (v, h) = io_in8 io port h
                  in (set_gpr GuestRax ((rax AND NOT 0xFF) OR (ucast v AND 0xFF)) g, h))
               else if size = 1 then
                 (let (v, h) = io_in16 io port h
                  in (set_gpr GuestRax ((rax AND NOT 0xFFFF) OR (ucast v AND 0xFFFF)) g, h))
               else if size = 2 then
                 (let (v, h) = io_in32 io port h in (set_gpr GuestRax (ucast v) g, h))
               else (g, h))
            in (advance_rip ei g, h)))"

section \<open>An AMD processor\<close>

text \<open>On an AMD processor with SVM the backend starts and points to the functions of \<open>svmcore.c\<close>.\<close>

definition amd_svm :: "'h vmx_hw \<Rightarrow> bool" where
  "amd_svm hw \<longleftrightarrow> IS_AMD (vendor_string (hw_cpuid hw 0)) \<and> cr_Ecx (hw_cpuid hw 0x80000001) AND BIT2 \<noteq> 0"

lemma backend_init_amd:
  assumes "amd_svm hw"
  obtains s' where "backend_HypervisorBackendInit hw ext n s = (EFI_SUCCESS, s')" "bk_Fns s' = BackendSvm"
    "ss_CpuCount (bk_Svm s') = n"
proof -
  have "\<not> IS_INTEL (vendor_string (hw_cpuid hw 0))"
    using assms not_intel_and_amd by (auto simp: amd_svm_def)
  with assms show ?thesis
    by (intro that [of "snd (backend_HypervisorBackendInit hw ext n s)"])
      (auto simp: backend_HypervisorBackendInit_def backend_HypervisorDetectVendor_def amd_svm_def
        SvmInit_def Let_def prod_eq_iff)
qed

text \<open>A vCPU that could be created runs for ever.\<close>

lemma backend_amd_runs_forever:
  assumes "bk_Fns s = BackendSvm" "backend_VcpuCreate hw ext i e sp s = Done (EFI_SUCCESS, s')"
  shows "backend_VcpuRun hw ext vmrun i s' = Hangs"
proof -
  obtain svm h where c: "SvmCreateVcpu hw i e sp (bk_Svm s) (bk_Hw s) = Done (EFI_SUCCESS, svm, h)"
    and s': "s' = s\<lparr>bk_Svm := svm, bk_Hw := h\<rparr>"
    using assms by (auto simp: backend_VcpuCreate_def split: outcome.splits)
  have "SvmRunVcpu hw (BemiSvmVmRun vmrun) i svm (bk_Apic s) h = Hangs"
    by (rule svm_run_forever [OF svm_create_fields(1-3) [OF c]])
  then show ?thesis using assms(1) by (simp add: backend_VcpuRun_def s')
qed

lemma backend_amd_creates:
  assumes "bk_Fns s = BackendSvm" "i < ss_CpuCount (bk_Svm s)" "unat i < MAX_LOGICAL_PROCESSORS"
    and "\<And>h. fst (hw_alloc_page hw h) \<noteq> None"
  obtains s' where "backend_VcpuCreate hw ext i e sp s = Done (EFI_SUCCESS, s')"
proof -
  obtain p h1 where p: "hw_alloc_page hw (bk_Hw s) = (Some p, h1)"
    using assms(4) [of "bk_Hw s"] by (cases "hw_alloc_page hw (bk_Hw s)") auto
  obtain q h2 where q: "hw_alloc_page hw h1 = (Some q, h2)"
    using assms(4) [of h1] by (cases "hw_alloc_page hw h1") auto
  show ?thesis
    using assms(1-3) p q
    by (intro that [OF iffD2]) (auto simp: backend_VcpuCreate_def SvmCreateVcpu_def Let_def not_le [symmetric])
qed

section \<open>Properties\<close>

text \<open>The two handlers of a control-register exit disagree on the direction. For access
  type 0 (move to the control register) the one of \<open>vmxcore.c\<close> writes the register, the
  backend's copies it into RAX and leaves CR0, CR3 and CR4 alone; for type 1 the backend
  writes the control register. And the backend ignores a guest's four-byte port input (size
  code 3), changing nothing but RIP.\<close>

theorem backend_cr_direction_reversed:
  "(let mov = zero_exit\<lparr>ei_ExitQualification := 3\<rparr>; from = zero_exit\<lparr>ei_ExitQualification := 0x13\<rparr> in
     gs_Cr3 (HandleCrAccess mov g) = gs_Gpr g GuestRax \<and>
     gs_Cr3 (backend_HandleCrAccess mov g) = gs_Cr3 g \<and>
     gs_Gpr (backend_HandleCrAccess mov g) GuestRax = gs_Cr3 g \<and>
     gs_Cr3 (HandleCrAccess from g) = gs_Cr3 g \<and>
     gs_Cr3 (backend_HandleCrAccess from g) = gs_Gpr g GuestRax) \<and>
   backend_HandleIoExit io (ei\<lparr>ei_ExitQualification := 0x1F0000B\<rparr>) g h =
     (g\<lparr>gs_Rip := gs_Rip g + ei_InstructionLength ei\<rparr>, h)"
  by (simp add: HandleCrAccess_def backend_HandleCrAccess_def backend_HandleIoExit_def Let_def
      zero_exit_def gpr_index advance_rip_def)

end
