(* ===== verification/TraceCache.thy ===== *)
theory TraceCache
  imports Prelude
begin

text \<open>
  The trace cache, \<open>performance/tcache/tracecache.c\<close>: a hash table whose header, entries and
  bucket array share one region of memory. Entries are addressed by 64-bit pointers, 0 is
  NULL; an entry takes 64 bytes, the header 56, and the 65536 bucket pointers are the last
  512 KB of the region. The header and the two globals are the record \<open>tc_state\<close>, \<open>None\<close> when
  \<open>gTraceCache\<close> is NULL. An operation is \<open>Done\<close>, or \<open>Corrupts\<close> when the C code would write
  outside the memory meant for what it writes or read through a NULL header, or \<open>Hangs\<close> when a walk along a chain never
  ends. The debug output is left out.

  Here are the operations as they run while the spin lock \<open>gTraceLock\<close> is held: a definition
  named \<open>_body\<close> is the C function without its two lock calls, guards included. The functions
  themselves, with the lock, are in \<open>TraceCacheLock\<close>.
\<close>

section \<open>State\<close>

definition TRACE_CACHE_DEFAULT_SIZE :: u64 where "TRACE_CACHE_DEFAULT_SIZE = 0x400000"
definition TRACE_CACHE_HASH_BUCKETS :: nat where "TRACE_CACHE_HASH_BUCKETS = 65536"
definition TRACE_CACHE_MAX_ENTRIES :: u32 where "TRACE_CACHE_MAX_ENTRIES = 131072"
definition TRACE_CACHE_LRU_SCAN :: u32 where "TRACE_CACHE_LRU_SCAN = 64"

definition sizeof_header :: nat where "sizeof_header = 56"
definition sizeof_entry :: nat where "sizeof_entry = 64"
definition sizeof_buckets :: nat where "sizeof_buckets = 8 * TRACE_CACHE_HASH_BUCKETS"

record tc_entry =
  te_Rip :: u64
  te_Context :: u64
  te_TranslatedAddr :: u64
  te_MicroOpCount :: u32
  te_InstructionCount :: u32
  te_ExecutionCount :: u32
  te_PinCount :: u32
  te_DboOptimizationHint :: u32
  te_LruCounter :: u32
  te_Valid :: bool
  te_Next :: u64

type_synonym tc_heap = "u64 \<Rightarrow> tc_entry"

record tc_state =
  tc_BaseAddress :: u64
  tc_Size :: u64
  tc_NextAlloc :: u64
  tc_EntryCount :: u32
  tc_HashBuckets :: u32
  tc_LruCounter :: u64
  tc_Initialized :: bool
  tc_LruScanDepth :: u32
  tc_TargetHitRate :: u32
  tc_BucketBase :: u64
  tc_Buckets :: "nat \<Rightarrow> u64"
  tc_Heap :: tc_heap

section \<open>Initialisation and configuration\<close>

text \<open>\<open>mem\<close> is what the region holds before. A NULL base, a region too small for the header and
  the buckets (clearing the buckets then overwrites the header or memory below the region) and
  one that wraps around the address space are \<open>Corrupts\<close>.\<close>

definition TraceCacheInit :: "u64 \<Rightarrow> u64 \<Rightarrow> tc_heap \<Rightarrow> (efi_status \<times> tc_state option) outcome" where
  "TraceCacheInit BaseAddress Size mem =
     (let Size = (if BaseAddress = 0 \<or> Size < 4096 then TRACE_CACHE_DEFAULT_SIZE else Size) in
      if BaseAddress = 0 \<or> unat Size < sizeof_header + sizeof_buckets \<or>
         unat BaseAddress + unat Size \<ge> 2 ^ 64
      then Corrupts
      else Done (EFI_SUCCESS, Some
        \<lparr>tc_BaseAddress = BaseAddress + of_nat sizeof_header,
         tc_Size = Size - of_nat sizeof_header,
         tc_NextAlloc = BaseAddress + of_nat sizeof_header,
         tc_EntryCount = 0, tc_HashBuckets = of_nat TRACE_CACHE_HASH_BUCKETS,
         tc_LruCounter = 0, tc_Initialized = True, tc_LruScanDepth = TRACE_CACHE_LRU_SCAN,
         tc_TargetHitRate = 75,
         tc_BucketBase = BaseAddress + Size - of_nat sizeof_buckets,
         tc_Buckets = (\<lambda>_. 0), tc_Heap = mem\<rparr>))"

definition TraceCacheV71Configure_body :: "tc_state option \<Rightarrow> efi_status \<times> tc_state option" where
  "TraceCacheV71Configure_body g =
     (case g of
        None \<Rightarrow> (EFI_NOT_READY, g)
      | Some s \<Rightarrow>
          if \<not> tc_Initialized s then (EFI_NOT_READY, g)
          else (EFI_SUCCESS, Some (s\<lparr>tc_LruScanDepth := 128, tc_TargetHitRate := 80\<rparr>)))"

definition TraceCacheV72Init_body :: "tc_state option \<Rightarrow> efi_status \<times> tc_state option" where
  "TraceCacheV72Init_body g =
     (case g of
        None \<Rightarrow> (EFI_NOT_READY, g)
      | Some s \<Rightarrow>
          if \<not> tc_Initialized s then (EFI_NOT_READY, g)
          else (EFI_SUCCESS, Some (s\<lparr>tc_LruScanDepth := 256, tc_TargetHitRate := 92\<rparr>)))"

definition TraceCacheGetV71HitRate :: "tc_state option \<Rightarrow> u32" where
  "TraceCacheGetV71HitRate g =
     (case g of None \<Rightarrow> 0 | Some s \<Rightarrow> if \<not> tc_Initialized s then 0 else tc_TargetHitRate s)"

definition TraceCacheConfigureNPP :: "tc_state option \<Rightarrow> bool \<Rightarrow> efi_status \<times> u8 option" where
  "TraceCacheConfigureNPP g EnableNPP =
     (case g of
        None \<Rightarrow> (EFI_NOT_READY, None)
      | Some _ \<Rightarrow> (EFI_SUCCESS, Some (if EnableNPP then 80 else 75)))"

section \<open>Lookup\<close>

definition TraceCacheHash :: "u64 \<Rightarrow> u64 \<Rightarrow> nat" where
  "TraceCacheHash Rip Context =
     (let hash = Rip XOR push_bit 7 Context;
          hash = hash XOR drop_bit 32 hash;
          hash = hash XOR drop_bit 16 hash
      in unat (hash AND 0xFFFF))"

definition te_matches :: "u64 \<Rightarrow> u64 \<Rightarrow> tc_entry \<Rightarrow> bool" where
  "te_matches rip ctx e \<longleftrightarrow> te_Rip e = rip \<and> te_Context e = ctx \<and> te_Valid e"

text \<open>\<open>while (entry != NULL) { if (p(entry)) return entry; entry = entry->Next; }\<close>\<close>

partial_function (option) find_entry :: "tc_heap \<Rightarrow> (tc_entry \<Rightarrow> bool) \<Rightarrow> u64 \<Rightarrow> u64 option" where
  "find_entry H p a =
     (if a = 0 then Some 0 else if p (H a) then Some a else find_entry H p (te_Next (H a)))"

definition touch_hit :: "tc_state \<Rightarrow> u64 \<Rightarrow> tc_state" where
  "touch_hit s a =
     (let e = tc_Heap s a;
          e = e\<lparr>te_ExecutionCount := te_ExecutionCount e + 1, te_LruCounter := ucast (tc_LruCounter s)\<rparr>;
          e = (if te_ExecutionCount e > 100
               then e\<lparr>te_DboOptimizationHint := te_DboOptimizationHint e OR 1\<rparr> else e)
      in s\<lparr>tc_Heap := (tc_Heap s)(a := e), tc_LruCounter := tc_LruCounter s + 1\<rparr>)"

definition TraceCacheLookup_body :: "u64 \<Rightarrow> u64 \<Rightarrow> tc_state option \<Rightarrow> (u64 \<times> tc_state option) outcome" where
  "TraceCacheLookup_body rip ctx g =
     (case g of
        None \<Rightarrow> Done (0, g)
      | Some s \<Rightarrow>
          if \<not> tc_Initialized s then Done (0, g)
          else
            (case find_entry (tc_Heap s) (te_matches rip ctx) (tc_Buckets s (TraceCacheHash rip ctx)) of
               None \<Rightarrow> Hangs
             | Some a \<Rightarrow> if a = 0 then Done (0, g) else Done (a, Some (touch_hit s a))))"

section \<open>Eviction\<close>

text \<open>The accumulator of the scan: entries counted, smallest counter so far, victim (0: none).\<close>

type_synonym evict_acc = "u32 \<times> u64 \<times> u64"

definition evict_visit :: "tc_heap \<Rightarrow> u64 \<Rightarrow> evict_acc \<Rightarrow> evict_acc" where
  "evict_visit H a acc =
     (let (scanned, mn, v) = acc; e = H a in
      if te_Valid e \<and> te_PinCount e = 0 then
        (if ucast (te_LruCounter e) < mn then (scanned + 1, ucast (te_LruCounter e), a)
         else (scanned + 1, mn, v))
      else acc)"

partial_function (option) evict_chain :: "tc_heap \<Rightarrow> u32 \<Rightarrow> u64 \<Rightarrow> evict_acc \<Rightarrow> evict_acc option" where
  "evict_chain H lim a acc =
     (if a \<noteq> 0 \<and> fst acc < lim then evict_chain H lim (te_Next (H a)) (evict_visit H a acc)
      else Some acc)"

fun evict_scan ::
  "tc_heap \<Rightarrow> u32 \<Rightarrow> (nat \<Rightarrow> u64) \<Rightarrow> nat \<Rightarrow> nat list \<Rightarrow> evict_acc \<Rightarrow> evict_acc option" where
  "evict_scan H lim bk start [] acc = Some acc"
| "evict_scan H lim bk start (i # is) acc =
     (if fst acc < lim then
        (case evict_chain H lim (bk ((start + i) mod TRACE_CACHE_HASH_BUCKETS)) acc of
           None \<Rightarrow> None
         | Some acc' \<Rightarrow> evict_scan H lim bk start is acc')
      else Some acc)"

definition TraceCacheEvictLru :: "tc_state \<Rightarrow> tc_state outcome" where
  "TraceCacheEvictLru s =
     (let start = unat (tc_LruCounter s) mod TRACE_CACHE_HASH_BUCKETS in
      case evict_scan (tc_Heap s) (tc_LruScanDepth s) (tc_Buckets s) start
             [0..<TRACE_CACHE_HASH_BUCKETS] (0, - 1, 0) of
        None \<Rightarrow> Hangs
      | Some (_, _, v) \<Rightarrow>
          Done (if v \<noteq> 0
                then s\<lparr>tc_Heap := (tc_Heap s)(v := (tc_Heap s v)\<lparr>te_Valid := False\<rparr>),
                       tc_EntryCount := tc_EntryCount s - 1\<rparr>
                else s))"

section \<open>Insertion\<close>

definition new_entry :: "u64 \<Rightarrow> u64 \<Rightarrow> u64 \<Rightarrow> u64 \<Rightarrow> tc_entry" where
  "new_entry rip ctx lru nxt =
     \<lparr>te_Rip = rip, te_Context = ctx, te_TranslatedAddr = 0, te_MicroOpCount = 0,
      te_InstructionCount = 0, te_ExecutionCount = 1, te_PinCount = 0, te_DboOptimizationHint = 0,
      te_LruCounter = ucast lru, te_Valid = True, te_Next = nxt\<rparr>"

lemma new_entry_sel [simp]:
  "te_Rip (new_entry rip ctx lru nxt) = rip" "te_Context (new_entry rip ctx lru nxt) = ctx"
  "te_Valid (new_entry rip ctx lru nxt)" "te_Next (new_entry rip ctx lru nxt) = nxt"
  "te_PinCount (new_entry rip ctx lru nxt) = 0"
  by (simp_all add: new_entry_def)

text \<open>The part after the search and the eviction: carve the entry and link it. The entry must lie
  below the bucket array.\<close>

definition insert_fresh :: "u64 \<Rightarrow> u64 \<Rightarrow> tc_state \<Rightarrow> (u64 \<times> tc_state) outcome" where
  "insert_fresh rip ctx s =
     (let bucket = TraceCacheHash rip ctx;
          alloc = (if tc_NextAlloc s + of_nat sizeof_entry > tc_BaseAddress s + tc_Size s
                   then tc_BaseAddress s else tc_NextAlloc s)
      in if unat alloc + sizeof_entry > unat (tc_BucketBase s) then Corrupts
         else Done (alloc,
           s\<lparr>tc_NextAlloc := alloc + of_nat sizeof_entry,
             tc_Heap := (tc_Heap s)(alloc := new_entry rip ctx (tc_LruCounter s) (tc_Buckets s bucket)),
             tc_LruCounter := tc_LruCounter s + 1,
             tc_Buckets := (tc_Buckets s)(bucket := alloc),
             tc_EntryCount := tc_EntryCount s + 1\<rparr>))"

definition TraceCacheInsert_body :: "u64 \<Rightarrow> u64 \<Rightarrow> tc_state option \<Rightarrow> (u64 \<times> tc_state option) outcome" where
  "TraceCacheInsert_body rip ctx g =
     (case g of
        None \<Rightarrow> Done (0, g)
      | Some s \<Rightarrow>
          if \<not> tc_Initialized s then Done (0, g)
          else
            (case find_entry (tc_Heap s) (te_matches rip ctx) (tc_Buckets s (TraceCacheHash rip ctx)) of
               None \<Rightarrow> Hangs
             | Some a \<Rightarrow>
                 if a \<noteq> 0 then
                   Done (a, Some (s\<lparr>tc_Heap := (tc_Heap s)(a := (tc_Heap s a)
                                        \<lparr>te_LruCounter := ucast (tc_LruCounter s)\<rparr>),
                                    tc_LruCounter := tc_LruCounter s + 1\<rparr>))
                 else
                   (case (if tc_EntryCount s \<ge> TRACE_CACHE_MAX_ENTRIES then TraceCacheEvictLru s
                          else Done s) of
                      Corrupts \<Rightarrow> Corrupts
                    | Hangs \<Rightarrow> Hangs
                    | Done s \<Rightarrow>
                        (case insert_fresh rip ctx s of
                           Corrupts \<Rightarrow> Corrupts
                         | Hangs \<Rightarrow> Hangs
                         | Done (a, s) \<Rightarrow> Done (a, Some s)))))"

section \<open>Pinning and invalidation\<close>

definition pin_with :: "(u32 \<Rightarrow> u32) \<Rightarrow> u64 \<times> tc_state option \<Rightarrow> tc_state option" where
  "pin_with f r =
     (case r of (a, g) \<Rightarrow>
        if a = 0 then g
        else map_option (\<lambda>s. s\<lparr>tc_Heap := (tc_Heap s)(a :=
               (tc_Heap s a)\<lparr>te_PinCount := f (te_PinCount (tc_Heap s a))\<rparr>)\<rparr>) g)"

definition TraceCachePinEntry_body :: "u64 \<Rightarrow> u64 \<Rightarrow> tc_state option \<Rightarrow> tc_state option outcome" where
  "TraceCachePinEntry_body rip ctx g =
     (case TraceCacheLookup_body rip ctx g of
        Done r \<Rightarrow> Done (pin_with (\<lambda>c. c + 1) r)
      | Corrupts \<Rightarrow> Corrupts
      | Hangs \<Rightarrow> Hangs)"

definition TraceCacheUnpinEntry_body :: "u64 \<Rightarrow> u64 \<Rightarrow> tc_state option \<Rightarrow> tc_state option outcome" where
  "TraceCacheUnpinEntry_body rip ctx g =
     (case TraceCacheLookup_body rip ctx g of
        Done r \<Rightarrow> Done (pin_with (\<lambda>c. if c > 0 then c - 1 else c) r)
      | Corrupts \<Rightarrow> Corrupts
      | Hangs \<Rightarrow> Hangs)"

partial_function (option) invalidate_chain :: "u64 \<Rightarrow> u64 \<Rightarrow> tc_heap \<Rightarrow> tc_heap option" where
  "invalidate_chain rip a H =
     (if a = 0 then Some H
      else invalidate_chain rip (te_Next (H a))
        (if te_Valid (H a) \<and> te_Rip (H a) = rip then H(a := (H a)\<lparr>te_Valid := False\<rparr>) else H))"

fun invalidate_buckets :: "u64 \<Rightarrow> (nat \<Rightarrow> u64) \<Rightarrow> nat list \<Rightarrow> tc_heap \<Rightarrow> tc_heap option" where
  "invalidate_buckets rip bk [] H = Some H"
| "invalidate_buckets rip bk (b # bs) H =
     (case invalidate_chain rip (bk b) H of
        None \<Rightarrow> None
      | Some H' \<Rightarrow> invalidate_buckets rip bk bs H')"

definition TraceCacheInvalidate_body :: "u64 \<Rightarrow> tc_state option \<Rightarrow> tc_state option outcome" where
  "TraceCacheInvalidate_body rip g =
     (case g of
        None \<Rightarrow> Done g
      | Some s \<Rightarrow>
          (case invalidate_buckets rip (tc_Buckets s) [0..<TRACE_CACHE_HASH_BUCKETS] (tc_Heap s) of
             None \<Rightarrow> Hangs
           | Some H \<Rightarrow> Done (Some (s\<lparr>tc_Heap := H\<rparr>))))"

section \<open>Warming\<close>

text \<open>\<open>for (offset = 0; offset < KernelSize; offset += 64) TraceCacheInsert(KernelBase + offset, 0)\<close>;
  the outer \<open>None\<close> is a loop that never ends. The debug message after it reads the header.\<close>

partial_function (option) warm_loop_body ::
  "u64 \<Rightarrow> u64 \<Rightarrow> u64 \<Rightarrow> tc_state option \<Rightarrow> tc_state option outcome option" where
  "warm_loop_body KernelBase KernelSize offset g =
     (if offset < KernelSize then
        (case TraceCacheInsert_body (KernelBase + offset) 0 g of
           Corrupts \<Rightarrow> Some Corrupts
         | Hangs \<Rightarrow> Some Hangs
         | Done (_, g) \<Rightarrow> warm_loop_body KernelBase KernelSize (offset + 64) g)
      else Some (case g of None \<Rightarrow> Corrupts | Some _ \<Rightarrow> Done g))"

section \<open>Chains\<close>

fun is_chain :: "tc_heap \<Rightarrow> u64 \<Rightarrow> u64 list \<Rightarrow> bool" where
  "is_chain H a [] \<longleftrightarrow> a = 0"
| "is_chain H a (x # xs) \<longleftrightarrow> a \<noteq> 0 \<and> x = a \<and> is_chain H (te_Next (H a)) xs"

lemma find_entry_null: "find_entry H p 0 = Some 0"
  by (simp add: find_entry.simps)

lemma evict_chain_null: "evict_chain H lim 0 acc = Some acc"
  by (simp add: evict_chain.simps)

lemma find_entry_chain:
  "is_chain H a xs \<Longrightarrow>
     find_entry H p a = Some (case find (\<lambda>x. p (H x)) xs of None \<Rightarrow> 0 | Some x \<Rightarrow> x)"
proof (induction xs arbitrary: a)
  case Nil
  then show ?case by (simp add: find_entry_null)
next
  case (Cons x xs)
  then show ?case by (simp add: find_entry.simps [of H p a])
qed

lemma chain_nonzero: "is_chain H a xs \<Longrightarrow> x \<in> set xs \<Longrightarrow> x \<noteq> 0"
  by (induction xs arbitrary: a) auto

lemma chain_cong: "(\<And>x. x \<in> set xs \<Longrightarrow> te_Next (H' x) = te_Next (H x)) \<Longrightarrow>
    is_chain H' a xs = is_chain H a xs"
  by (induction xs arbitrary: a) auto

lemma evict_chain_ends:
  assumes "is_chain H a xs"
  shows "\<exists>acc'. evict_chain H lim a acc = Some acc'"
  using assms
proof (induction xs arbitrary: a acc)
  case Nil
  then have "evict_chain H lim a acc = Some acc" by (simp add: evict_chain_null)
  then show ?case by blast
next
  case (Cons x xs)
  then have c: "a \<noteq> 0" "is_chain H (te_Next (H a)) xs" by auto
  show ?case
  proof (cases "fst acc < lim")
    case True
    with c Cons.IH [OF c(2)] show ?thesis by (simp add: evict_chain.simps [of H lim a acc])
  next
    case False
    then have "evict_chain H lim a acc = Some acc" by (simp add: evict_chain.simps [of H lim a acc])
    then show ?thesis by blast
  qed
qed

text \<open>A victim is a valid entry that is not pinned, or none.\<close>

definition victim_ok :: "tc_heap \<Rightarrow> evict_acc \<Rightarrow> bool" where
  "victim_ok H acc \<longleftrightarrow>
     (case acc of (_, _, v) \<Rightarrow> v = 0 \<or> te_Valid (H v) \<and> te_PinCount (H v) = 0)"

lemma victim_visit: "victim_ok H acc \<Longrightarrow> victim_ok H (evict_visit H a acc)"
  by (auto simp: victim_ok_def evict_visit_def Let_def split: prod.splits)

lemma evict_chain_victim:
  "is_chain H a xs \<Longrightarrow> victim_ok H acc \<Longrightarrow> evict_chain H lim a acc = Some acc' \<Longrightarrow> victim_ok H acc'"
proof (induction xs arbitrary: a acc)
  case Nil
  then show ?case by (simp add: evict_chain_null)
next
  case (Cons x xs)
  then show ?case
    using victim_visit [OF Cons.prems(2), of a]
    by (auto simp: evict_chain.simps [of H lim a acc] split: if_splits)
qed

lemma evict_scan_victim:
  assumes "\<And>b. b < TRACE_CACHE_HASH_BUCKETS \<Longrightarrow> \<exists>xs. is_chain H (bk b) xs" "victim_ok H acc"
  shows "\<exists>acc'. evict_scan H lim bk start js acc = Some acc' \<and> victim_ok H acc'"
  using assms(2)
proof (induction js arbitrary: acc)
  case (Cons i js)
  let ?b = "(start + i) mod TRACE_CACHE_HASH_BUCKETS"
  obtain xs where xs: "is_chain H (bk ?b) xs"
    using assms(1) [of ?b] by (auto simp: TRACE_CACHE_HASH_BUCKETS_def)
  obtain acc' where a: "evict_chain H lim (bk ?b) acc = Some acc'"
    using evict_chain_ends [OF xs] by blast
  then have "victim_ok H acc'" using evict_chain_victim [OF xs Cons.prems] by blast
  with Cons a show ?case by (cases "fst acc < lim") (simp_all add: Cons.prems)
qed simp

section \<open>Layout invariant\<close>

definition tc_slot :: "tc_state \<Rightarrow> nat \<Rightarrow> u64" where
  "tc_slot s k = tc_BaseAddress s + of_nat (64 * k)"

text \<open>\<open>n\<close> entries are carved, the region is laid out as the code means it, and every bucket is
  the head of a chain of carved entries that hash to it.\<close>

definition bucket_ok :: "nat \<Rightarrow> tc_state \<Rightarrow> nat \<Rightarrow> u64 list \<Rightarrow> bool" where
  "bucket_ok n s b xs \<longleftrightarrow> is_chain (tc_Heap s) (tc_Buckets s b) xs \<and>
     (\<forall>x\<in>set xs. (\<exists>k<n. x = tc_slot s k) \<and>
        TraceCacheHash (te_Rip (tc_Heap s x)) (te_Context (tc_Heap s x)) = b)"

lemma bucket_chain: "bucket_ok n s b xs \<Longrightarrow> is_chain (tc_Heap s) (tc_Buckets s b) xs"
  by (simp add: bucket_ok_def)

definition tc_ok :: "nat \<Rightarrow> tc_state \<Rightarrow> bool" where
  "tc_ok n s \<longleftrightarrow> tc_Initialized s \<and> tc_BaseAddress s \<noteq> 0 \<and>
     unat (tc_BucketBase s) + sizeof_buckets = unat (tc_BaseAddress s) + unat (tc_Size s) \<and>
     unat (tc_BaseAddress s) + unat (tc_Size s) < 2 ^ 64 \<and>
     unat (tc_BaseAddress s) + 64 * n \<le> unat (tc_BucketBase s) \<and>
     tc_NextAlloc s = tc_slot s n \<and>
     (\<forall>b<TRACE_CACHE_HASH_BUCKETS. \<exists>xs. bucket_ok n s b xs)"

lemma hash_bound: "TraceCacheHash rip ctx < TRACE_CACHE_HASH_BUCKETS"
proof -
  have "unat (w AND 0xFFFF) \<le> unat (0xFFFF :: u64)" for w :: u64
    using word_and_le1 [of w "0xFFFF"] by (simp only: word_le_nat_alt)
  then have "unat (w AND 0xFFFF) < 65536" for w :: u64
    by (simp add: less_Suc_eq_le [of _ 65535, simplified])
  then show ?thesis by (simp add: TraceCacheHash_def TRACE_CACHE_HASH_BUCKETS_def Let_def)
qed

lemma slot_unat:
  assumes "tc_ok n s" "k \<le> n"
  shows "unat (tc_slot s k) = unat (tc_BaseAddress s) + 64 * k"
proof -
  have "unat (tc_BaseAddress s) + 64 * k < 2 ^ 64"
    using assms by (auto simp: tc_ok_def)
  then show ?thesis
    by (simp add: tc_slot_def unat_word_ariths unat_of_nat)
qed

lemma slot_fresh:
  assumes "tc_ok n s" "k < n"
  shows "tc_slot s k \<noteq> tc_slot s n" "tc_slot s k \<noteq> 0"
proof -
  have "unat (tc_slot s k) \<noteq> unat (tc_slot s n)"
    using assms slot_unat [OF assms(1), of k] slot_unat [OF assms(1), of n] by simp
  then show "tc_slot s k \<noteq> tc_slot s n" by metis
  have "unat (tc_slot s k) \<noteq> 0"
    using assms slot_unat [OF assms(1), of k] by (auto simp: tc_ok_def unat_eq_0)
  then show "tc_slot s k \<noteq> 0" by auto
qed

lemma slot_nonzero: "tc_ok n s \<Longrightarrow> tc_slot s n \<noteq> 0"
  using slot_unat [of n s n] by (auto simp: tc_ok_def unat_eq_0)

text \<open>Updates that keep links and keys keep the invariant.\<close>

definition same_links :: "tc_heap \<Rightarrow> tc_heap \<Rightarrow> bool" where
  "same_links H H' \<longleftrightarrow> (\<forall>a. te_Next (H' a) = te_Next (H a) \<and> te_Rip (H' a) = te_Rip (H a) \<and>
     te_Context (H' a) = te_Context (H a))"

lemma same_links_refl [simp]: "same_links H H"
  by (simp add: same_links_def)

lemma same_links_trans: "same_links H H' \<Longrightarrow> same_links H' H'' \<Longrightarrow> same_links H H''"
  by (simp add: same_links_def)

lemma same_links_upd:
  "te_Next e = te_Next (H a) \<Longrightarrow> te_Rip e = te_Rip (H a) \<Longrightarrow> te_Context e = te_Context (H a) \<Longrightarrow>
     same_links H (H(a := e))"
  by (simp add: same_links_def)

lemma tc_ok_links:
  assumes "tc_ok n s" "same_links (tc_Heap s) (tc_Heap s')" "tc_Buckets s' = tc_Buckets s"
    "tc_Initialized s'" "tc_BaseAddress s' = tc_BaseAddress s" "tc_Size s' = tc_Size s"
    "tc_BucketBase s' = tc_BucketBase s" "tc_NextAlloc s' = tc_NextAlloc s"
  shows "tc_ok n s'"
proof -
  have slot: "tc_slot s' = tc_slot s" using assms(5) by (simp add: tc_slot_def fun_eq_iff)
  have "bucket_ok n s' b xs" if "bucket_ok n s b xs" for b xs
    using that assms(2) chain_cong [of xs "tc_Heap s'" "tc_Heap s"]
    by (simp add: bucket_ok_def slot assms(3) same_links_def)
  then show ?thesis using assms by (auto simp: tc_ok_def slot) blast
qed

section \<open>The abstract map\<close>

text \<open>Where the cache holds a key: the address of the first valid match in its bucket.\<close>

definition tc_map :: "tc_state \<Rightarrow> u64 \<times> u64 \<Rightarrow> u64 option" where
  "tc_map s key =
     (case find_entry (tc_Heap s) (te_matches (fst key) (snd key))
             (tc_Buckets s (TraceCacheHash (fst key) (snd key))) of
        None \<Rightarrow> None
      | Some a \<Rightarrow> if a = 0 then None else Some a)"

lemma tc_map_chain:
  assumes "is_chain (tc_Heap s) (tc_Buckets s (TraceCacheHash rip ctx)) xs"
  shows "tc_map s (rip, ctx) = find (\<lambda>x. te_matches rip ctx (tc_Heap s x)) xs"
proof -
  have "x \<noteq> 0" if "find (\<lambda>x. te_matches rip ctx (tc_Heap s x)) xs = Some x" for x
    using that chain_nonzero [OF assms] by (auto simp: find_Some_iff)
  then show ?thesis
    by (auto simp: tc_map_def find_entry_chain [OF assms] split: option.splits)
qed

lemma tc_ok_bucket:
  assumes "tc_ok n s"
  obtains xs where "bucket_ok n s (TraceCacheHash rip ctx) xs"
  using assms hash_bound [of rip ctx] unfolding tc_ok_def by blast

lemma find_entry_map:
  assumes "tc_ok n s"
  shows "find_entry (tc_Heap s) (te_matches rip ctx) (tc_Buckets s (TraceCacheHash rip ctx)) =
    Some (case tc_map s (rip, ctx) of None \<Rightarrow> 0 | Some a \<Rightarrow> a)"
proof -
  obtain xs where "bucket_ok n s (TraceCacheHash rip ctx) xs" using tc_ok_bucket [OF assms] .
  then have "is_chain (tc_Heap s) (tc_Buckets s (TraceCacheHash rip ctx)) xs"
    by (simp add: bucket_ok_def)
  then show ?thesis by (simp add: find_entry_chain tc_map_chain)
qed

lemma tc_map_Some:
  assumes "tc_ok n s" "tc_map s (rip, ctx) = Some a"
  shows "\<exists>k<n. a = tc_slot s k" "a \<noteq> 0" "te_matches rip ctx (tc_Heap s a)"
proof -
  obtain xs where xs: "bucket_ok n s (TraceCacheHash rip ctx) xs" using tc_ok_bucket [OF assms(1)] .
  then have c: "is_chain (tc_Heap s) (tc_Buckets s (TraceCacheHash rip ctx)) xs"
    by (simp add: bucket_ok_def)
  with assms(2) have "a \<in> set xs" "te_matches rip ctx (tc_Heap s a)"
    by (auto simp: tc_map_chain find_Some_iff)
  with xs chain_nonzero [OF c] show "\<exists>k<n. a = tc_slot s k" "a \<noteq> 0" "te_matches rip ctx (tc_Heap s a)"
    by (auto simp: bucket_ok_def)
qed

lemma tc_map_same:
  assumes "tc_ok n s" "same_links (tc_Heap s) (tc_Heap s')" "tc_Buckets s' = tc_Buckets s"
    "\<And>a. te_Valid (tc_Heap s' a) = te_Valid (tc_Heap s a)"
  shows "tc_map s' = tc_map s"
proof
  fix key :: "u64 \<times> u64"
  obtain rip ctx where key: "key = (rip, ctx)" by (cases key)
  obtain xs where "bucket_ok n s (TraceCacheHash rip ctx) xs" using tc_ok_bucket [OF assms(1)] .
  then have c: "is_chain (tc_Heap s) (tc_Buckets s (TraceCacheHash rip ctx)) xs"
    by (simp add: bucket_ok_def)
  moreover from c have "is_chain (tc_Heap s') (tc_Buckets s' (TraceCacheHash rip ctx)) xs"
    using chain_cong [of xs "tc_Heap s'" "tc_Heap s"] assms(2,3) by (simp add: same_links_def)
  moreover have "te_matches rip ctx (tc_Heap s' x) = te_matches rip ctx (tc_Heap s x)" for x
    using assms(2,4) by (simp add: te_matches_def same_links_def)
  ultimately show "tc_map s' key = tc_map s key" by (simp add: key tc_map_chain)
qed

section \<open>The operations on the map\<close>

lemma tc_ok_slot_Suc:
  assumes "tc_ok n s"
  shows "tc_NextAlloc s + of_nat sizeof_entry = tc_slot s (Suc n)"
  using assms by (simp add: tc_ok_def tc_slot_def sizeof_entry_def algebra_simps)

lemma tc_ok_no_wrap:
  assumes "tc_ok n s"
  shows "\<not> tc_NextAlloc s + of_nat sizeof_entry > tc_BaseAddress s + tc_Size s"
proof -
  have a: "unat (tc_NextAlloc s) = unat (tc_BaseAddress s) + 64 * n"
    using slot_unat [OF assms, of n] assms by (simp add: tc_ok_def)
  have b: "unat (tc_BaseAddress s) + 64 * n + 64 \<le> unat (tc_BaseAddress s) + unat (tc_Size s)"
    "unat (tc_BaseAddress s) + unat (tc_Size s) < 2 ^ 64"
    using assms by (auto simp: tc_ok_def sizeof_buckets_def TRACE_CACHE_HASH_BUCKETS_def)
  have "unat (tc_NextAlloc s + of_nat sizeof_entry) = unat (tc_BaseAddress s) + 64 * n + 64"
    using a b by (simp add: unat_word_ariths sizeof_entry_def)
  moreover have "unat (tc_BaseAddress s + tc_Size s) = unat (tc_BaseAddress s) + unat (tc_Size s)"
    using b(2) by (simp add: unat_word_ariths)
  ultimately show ?thesis using b(1) by (simp add: word_less_nat_alt)
qed

lemma insert_fresh_full:
  assumes "tc_ok n s" "unat (tc_BucketBase s) < unat (tc_BaseAddress s) + 64 * Suc n"
  shows "insert_fresh rip ctx s = Corrupts"
  using assms(2) tc_ok_no_wrap [OF assms(1)] slot_unat [OF assms(1), of n] assms(1)
  by (simp add: insert_fresh_def Let_def tc_ok_def sizeof_entry_def)

lemma insert_fresh_room:
  assumes "tc_ok n s" "unat (tc_BaseAddress s) + 64 * Suc n \<le> unat (tc_BucketBase s)"
  obtains s' where "insert_fresh rip ctx s = Done (tc_slot s n, s')" "tc_ok (Suc n) s'"
    "tc_map s' = (tc_map s)((rip, ctx) \<mapsto> tc_slot s n)"
    "tc_EntryCount s' = tc_EntryCount s + 1" "tc_BaseAddress s' = tc_BaseAddress s"
    "tc_BucketBase s' = tc_BucketBase s" "tc_slot s' = tc_slot s"
proof -
  let ?b = "TraceCacheHash rip ctx" and ?a = "tc_slot s n"
  let ?e = "new_entry rip ctx (tc_LruCounter s) (tc_Buckets s ?b)"
  let ?s = "s\<lparr>tc_NextAlloc := tc_slot s (Suc n), tc_Heap := (tc_Heap s)(?a := ?e),
    tc_LruCounter := tc_LruCounter s + 1, tc_Buckets := (tc_Buckets s)(?b := ?a),
    tc_EntryCount := tc_EntryCount s + 1\<rparr>"
  have nx: "tc_NextAlloc s = ?a" using assms(1) by (simp add: tc_ok_def)
  have ins: "insert_fresh rip ctx s = Done (?a, ?s)"
    using tc_ok_no_wrap [OF assms(1)] slot_unat [OF assms(1), of n] assms(2) nx
      tc_ok_slot_Suc [OF assms(1)]
    by (simp add: insert_fresh_def Let_def sizeof_entry_def)
  have slot: "tc_slot ?s = tc_slot s" by (simp add: tc_slot_def fun_eq_iff)
  have fresh: "?a \<notin> set xs" if "bucket_ok n s b xs" for b xs
    using that slot_fresh(1) [OF assms(1)] by (fastforce simp: bucket_ok_def)
  have chain: "is_chain (tc_Heap ?s) c xs = is_chain (tc_Heap s) c xs" if "?a \<notin> set xs" for c xs
    using that by (intro chain_cong) auto
  have grow: "\<exists>k<Suc n. x = tc_slot s k" if "\<exists>k<n. x = tc_slot s k" for x
    using that less_SucI by blast
  have old: "bucket_ok (Suc n) ?s b xs" if "bucket_ok n s b xs" "b \<noteq> ?b" for b xs
    using that fresh [OF that(1)] chain [OF fresh [OF that(1)]] grow
    by (auto simp: bucket_ok_def slot)
  have new: "bucket_ok (Suc n) ?s ?b (?a # xs)" if "bucket_ok n s ?b xs" for xs
    using that fresh [OF that] chain [OF fresh [OF that]] slot_nonzero [OF assms(1)] grow
    by (auto simp: bucket_ok_def slot)
  have ok: "tc_ok (Suc n) ?s"
  proof -
    have "\<exists>xs. bucket_ok (Suc n) ?s b xs" if "b < TRACE_CACHE_HASH_BUCKETS" for b
      using assms(1) that old [of b] new by (cases "b = ?b") (auto simp: tc_ok_def, blast+)
    then show ?thesis
      using assms(1,2) unfolding tc_ok_def slot by simp
  qed
  have "tc_map ?s (r, c) = ((tc_map s)((rip, ctx) \<mapsto> ?a)) (r, c)" for r c
  proof -
    obtain xs where xs: "bucket_ok n s (TraceCacheHash r c) xs" using tc_ok_bucket [OF assms(1)] .
    then have c1: "is_chain (tc_Heap s) (tc_Buckets s (TraceCacheHash r c)) xs"
      by (simp add: bucket_ok_def)
    have m: "find (\<lambda>x. te_matches r c (tc_Heap ?s x)) xs = find (\<lambda>x. te_matches r c (tc_Heap s x)) xs"
      using fresh [OF xs] by (intro find_cong) auto
    show ?thesis
    proof (cases "TraceCacheHash r c = ?b")
      case True
      then have "is_chain (tc_Heap ?s) (tc_Buckets ?s (TraceCacheHash r c)) (?a # xs)"
        using bucket_chain [OF new [of xs]] xs by (simp only:)
      then have "tc_map ?s (r, c) = find (\<lambda>x. te_matches r c (tc_Heap ?s x)) (?a # xs)"
        by (rule tc_map_chain)
      also have "\<dots> = (if r = rip \<and> c = ctx then Some ?a else tc_map s (r, c))"
        using m by (simp add: te_matches_def new_entry_def tc_map_chain [OF c1])
      finally show ?thesis by auto
    next
      case False
      then have "is_chain (tc_Heap ?s) (tc_Buckets ?s (TraceCacheHash r c)) xs"
        by (intro bucket_chain [OF old [OF xs]])
      then have "tc_map ?s (r, c) = tc_map s (r, c)"
        using m by (simp only: tc_map_chain tc_map_chain [OF c1])
      then show ?thesis using False by auto
    qed
  qed
  then have map: "tc_map ?s = (tc_map s)((rip, ctx) \<mapsto> ?a)" by auto
  show ?thesis
    by (rule that [OF ins ok map]) (simp_all add: slot)
qed

lemma evict_ok:
  assumes "tc_ok n s"
  obtains (none) "TraceCacheEvictLru s = Done s"
  | (victim) v where "v \<noteq> 0" "te_Valid (tc_Heap s v)" "te_PinCount (tc_Heap s v) = 0"
      "TraceCacheEvictLru s = Done (s\<lparr>tc_Heap := (tc_Heap s)(v := (tc_Heap s v)\<lparr>te_Valid := False\<rparr>),
         tc_EntryCount := tc_EntryCount s - 1\<rparr>)"
      "tc_ok n (s\<lparr>tc_Heap := (tc_Heap s)(v := (tc_Heap s v)\<lparr>te_Valid := False\<rparr>),
         tc_EntryCount := tc_EntryCount s - 1\<rparr>)"
proof -
  have "\<exists>xs. is_chain (tc_Heap s) (tc_Buckets s b) xs" if "b < TRACE_CACHE_HASH_BUCKETS" for b
    using assms that unfolding tc_ok_def bucket_ok_def by blast
  from evict_scan_victim [where bk = "tc_Buckets s" and H = "tc_Heap s" and
      acc = "(0, - 1, 0)" and lim = "tc_LruScanDepth s" and
      start = "unat (tc_LruCounter s) mod TRACE_CACHE_HASH_BUCKETS" and
      js = "[0..<TRACE_CACHE_HASH_BUCKETS]", OF this]
  obtain sc mn v where r: "evict_scan (tc_Heap s) (tc_LruScanDepth s) (tc_Buckets s)
      (unat (tc_LruCounter s) mod TRACE_CACHE_HASH_BUCKETS) [0..<TRACE_CACHE_HASH_BUCKETS] (0, - 1, 0)
      = Some (sc, mn, v)" and v: "victim_ok (tc_Heap s) (sc, mn, v)"
    by (auto simp: victim_ok_def)
  show ?thesis
  proof (cases "v = 0")
    case True
    with r show ?thesis by (intro none) (simp add: TraceCacheEvictLru_def Let_def)
  next
    case False
    have "tc_ok n (s\<lparr>tc_Heap := (tc_Heap s)(v := (tc_Heap s v)\<lparr>te_Valid := False\<rparr>),
         tc_EntryCount := tc_EntryCount s - 1\<rparr>)"
      using assms by (rule tc_ok_links) (use assms in \<open>auto simp: same_links_def tc_ok_def\<close>)
    with False r v show ?thesis
      by (intro victim [of v]) (auto simp: TraceCacheEvictLru_def Let_def victim_ok_def)
  qed
qed

lemma evict_shape:
  assumes "tc_ok n s"
  obtains s1 where "TraceCacheEvictLru s = Done s1" "tc_ok n s1"
    "tc_BaseAddress s1 = tc_BaseAddress s" "tc_BucketBase s1 = tc_BucketBase s"
  using assms
proof (cases rule: evict_ok)
  case none
  then show ?thesis using assms by (intro that) simp_all
next
  case (victim v)
  show ?thesis by (rule that [OF victim(4,5)]) simp_all
qed

text \<open>A lookup touches only the counters of the entry it finds.\<close>

lemma touch_hit_links: "same_links (tc_Heap s) (tc_Heap (touch_hit s a))"
  "te_Valid (tc_Heap (touch_hit s a) x) = te_Valid (tc_Heap s x)"
  "tc_Buckets (touch_hit s a) = tc_Buckets s" "tc_EntryCount (touch_hit s a) = tc_EntryCount s"
  "tc_Initialized (touch_hit s a) = tc_Initialized s"
  "tc_BaseAddress (touch_hit s a) = tc_BaseAddress s" "tc_Size (touch_hit s a) = tc_Size s"
  "tc_BucketBase (touch_hit s a) = tc_BucketBase s" "tc_NextAlloc (touch_hit s a) = tc_NextAlloc s"
  by (simp_all add: touch_hit_def Let_def same_links_def)

text \<open>What every operation but a fresh insertion keeps: the layout and the number of entries.\<close>

definition same_shape :: "nat \<Rightarrow> tc_state \<Rightarrow> tc_state \<Rightarrow> bool" where
  "same_shape n s s' \<longleftrightarrow> tc_ok n s' \<and> tc_BaseAddress s' = tc_BaseAddress s \<and>
     tc_BucketBase s' = tc_BucketBase s \<and> tc_EntryCount s' = tc_EntryCount s"

lemma same_shape_trans: "same_shape n s s' \<Longrightarrow> same_shape n s' s'' \<Longrightarrow> same_shape n s s''"
  by (simp add: same_shape_def)

lemma lookup_ok:
  assumes "tc_ok n s"
  obtains s' where
    "TraceCacheLookup_body rip ctx (Some s) =
       Done (case tc_map s (rip, ctx) of None \<Rightarrow> 0 | Some a \<Rightarrow> a, Some s')"
    "same_shape n s s'" "tc_map s' = tc_map s"
proof (cases "tc_map s (rip, ctx)")
  case None
  with assms show ?thesis
    by (intro that [of s]) (simp_all add: TraceCacheLookup_body_def find_entry_map same_shape_def)
next
  case (Some a)
  have ok: "tc_ok n (touch_hit s a)"
    using assms by (rule tc_ok_links) (use assms in \<open>simp_all add: touch_hit_links tc_ok_def\<close>)
  have init: "tc_Initialized s" using assms by (simp add: tc_ok_def)
  show ?thesis
  proof (rule that [of "touch_hit s a"])
    show "TraceCacheLookup_body rip ctx (Some s) =
       Done (case tc_map s (rip, ctx) of None \<Rightarrow> 0 | Some a \<Rightarrow> a, Some (touch_hit s a))"
      using Some assms tc_map_Some(2) [OF assms Some] init
      by (simp add: TraceCacheLookup_body_def find_entry_map)
    show "same_shape n s (touch_hit s a)" using ok by (simp add: same_shape_def touch_hit_links)
    show "tc_map (touch_hit s a) = tc_map s"
      using assms by (rule tc_map_same) (simp_all add: touch_hit_links)
  qed
qed

lemma pin_with_ok:
  assumes "tc_ok n s"
  obtains s' where "pin_with f (a, Some s) = Some s'" "same_shape n s s'" "tc_map s' = tc_map s"
proof -
  let ?s = "s\<lparr>tc_Heap := (tc_Heap s)(a := (tc_Heap s a)\<lparr>te_PinCount := f (te_PinCount (tc_Heap s a))\<rparr>)\<rparr>"
  have "tc_ok n ?s"
    using assms by (rule tc_ok_links) (use assms in \<open>simp_all add: tc_ok_def same_links_def\<close>)
  moreover have "tc_map ?s = tc_map s"
    using assms by (rule tc_map_same) (simp_all add: same_links_def)
  ultimately show ?thesis
    using assms
    by (intro that [of "if a = 0 then s else ?s"]) (simp_all add: pin_with_def same_shape_def)
qed

text \<open>Invalidation clears the valid bit of the entries of one RIP and nothing else.\<close>

definition cleared :: "u64 \<Rightarrow> u64 set \<Rightarrow> tc_heap \<Rightarrow> tc_heap \<Rightarrow> bool" where
  "cleared rip A H H' \<longleftrightarrow> same_links H H' \<and>
     (\<forall>a. te_Valid (H' a) = (te_Valid (H a) \<and> \<not> (a \<in> A \<and> te_Rip (H a) = rip)))"

lemma invalidate_chain_clears:
  "is_chain H a xs \<Longrightarrow> \<exists>H'. invalidate_chain rip a H = Some H' \<and> cleared rip (set xs) H H'"
proof (induction xs arbitrary: a H)
  case Nil
  then have "invalidate_chain rip a H = Some H"
    using invalidate_chain.simps [of rip a H] by simp
  then show ?case by (auto simp: cleared_def)
next
  case (Cons x xs)
  let ?H = "if te_Valid (H a) \<and> te_Rip (H a) = rip then H(a := (H a)\<lparr>te_Valid := False\<rparr>) else H"
  have a: "a \<noteq> 0" "x = a" "is_chain H (te_Next (H a)) xs" using Cons.prems by auto
  have l: "same_links H ?H" by (simp add: same_links_def)
  then have "is_chain ?H (te_Next (H a)) xs"
    using a(3) chain_cong [of xs ?H H] by (simp add: same_links_def)
  from Cons.IH [OF this] obtain H' where H': "invalidate_chain rip (te_Next (H a)) ?H = Some H'"
    "cleared rip (set xs) ?H H'" by blast
  have "cleared rip (set (x # xs)) H H'"
    using H'(2) a(2) by (auto simp: cleared_def same_links_def split: if_splits)
  with H'(1) a(1) show ?case by (simp add: invalidate_chain.simps [of rip a H])
qed

lemma invalidate_buckets_clears:
  assumes "\<And>b. b \<in> set bs \<Longrightarrow> is_chain H (bk b) (xs b)"
  shows "\<exists>H'. invalidate_buckets rip bk bs H = Some H' \<and> cleared rip (\<Union>b\<in>set bs. set (xs b)) H H'"
  using assms
proof (induction bs arbitrary: H)
  case (Cons b bs)
  then have "is_chain H (bk b) (xs b)" by simp
  from invalidate_chain_clears [OF this, of rip] obtain H1
    where H1: "invalidate_chain rip (bk b) H = Some H1" "cleared rip (set (xs b)) H H1" by blast
  have "is_chain H1 (bk c) (xs c)" if "c \<in> set bs" for c
    using H1(2) Cons.prems [of c] that chain_cong [of "xs c" H1 H]
    by (simp add: cleared_def same_links_def)
  from Cons.IH [OF this] obtain H2
    where H2: "invalidate_buckets rip bk bs H1 = Some H2" "cleared rip (\<Union>b\<in>set bs. set (xs b)) H1 H2"
    by blast
  have "cleared rip (\<Union>b\<in>set (b # bs). set (xs b)) H H2"
    using H1(2) H2(2) unfolding cleared_def same_links_def by auto
  with H1 H2 show ?case by simp
qed (simp add: cleared_def)

lemma invalidate_ok:
  assumes "tc_ok n s"
  obtains s' where "TraceCacheInvalidate_body rip (Some s) = Done (Some s')" "same_shape n s s'"
    "tc_map s' = (\<lambda>k. if fst k = rip then None else tc_map s k)"
proof -
  obtain xs where xs: "\<And>b. b < TRACE_CACHE_HASH_BUCKETS \<Longrightarrow> bucket_ok n s b (xs b)"
    using assms unfolding tc_ok_def by metis
  let ?A = "\<Union>b\<in>set [0..<TRACE_CACHE_HASH_BUCKETS]. set (xs b)"
  obtain H' where H': "invalidate_buckets rip (tc_Buckets s) [0..<TRACE_CACHE_HASH_BUCKETS] (tc_Heap s)
      = Some H'" "cleared rip ?A (tc_Heap s) H'"
    using invalidate_buckets_clears [of "[0..<TRACE_CACHE_HASH_BUCKETS]" "tc_Heap s" "tc_Buckets s" xs rip]
      xs bucket_chain by force
  let ?s = "s\<lparr>tc_Heap := H'\<rparr>"
  have links: "same_links (tc_Heap s) H'" using H'(2) by (simp add: cleared_def)
  have ok: "tc_ok n ?s"
    using assms by (rule tc_ok_links) (use assms links in \<open>simp_all add: tc_ok_def\<close>)
  have "tc_map ?s (r, c) = (if r = rip then None else tc_map s (r, c))" for r c
  proof -
    let ?b = "TraceCacheHash r c"
    have b: "?b < TRACE_CACHE_HASH_BUCKETS" by (rule hash_bound)
    have c1: "is_chain (tc_Heap s) (tc_Buckets s ?b) (xs ?b)" by (rule bucket_chain [OF xs [OF b]])
    then have c2: "is_chain (tc_Heap ?s) (tc_Buckets ?s ?b) (xs ?b)"
      using chain_cong [of "xs ?b" H' "tc_Heap s"] links by (simp add: same_links_def)
    have A: "x \<in> ?A" if "x \<in> set (xs ?b)" for x using that b by auto
    have "te_matches r c (H' x) = (r \<noteq> rip \<and> te_matches r c (tc_Heap s x))" if "x \<in> set (xs ?b)" for x
      using H'(2) A [OF that] unfolding cleared_def same_links_def te_matches_def by auto
    then have "find (\<lambda>x. te_matches r c (H' x)) (xs ?b) =
        find (\<lambda>x. r \<noteq> rip \<and> te_matches r c (tc_Heap s x)) (xs ?b)"
      by (intro find_cong) auto
    then show ?thesis
      using tc_map_chain [OF c1] tc_map_chain [OF c2] by (simp add: find_None_iff)
  qed
  then have "tc_map ?s = (\<lambda>k. if fst k = rip then None else tc_map s k)" by auto
  with H'(1) ok show ?thesis
    by (intro that [of ?s]) (simp_all add: TraceCacheInvalidate_body_def same_shape_def)
qed

lemma insert_hit:
  assumes "tc_ok n s" "tc_map s (rip, ctx) = Some a"
  obtains s' where "TraceCacheInsert_body rip ctx (Some s) = Done (a, Some s')" "same_shape n s s'"
    "tc_map s' = tc_map s"
proof -
  let ?s = "s\<lparr>tc_Heap := (tc_Heap s)(a := (tc_Heap s a)\<lparr>te_LruCounter := ucast (tc_LruCounter s)\<rparr>),
    tc_LruCounter := tc_LruCounter s + 1\<rparr>"
  have "tc_ok n ?s"
    using assms(1) by (rule tc_ok_links) (use assms in \<open>simp_all add: tc_ok_def same_links_def\<close>)
  moreover have "tc_map ?s = tc_map s"
    using assms(1) by (rule tc_map_same) (simp_all add: same_links_def)
  moreover have "TraceCacheInsert_body rip ctx (Some s) = Done (a, Some ?s)"
    using assms tc_map_Some(2) [OF assms] find_entry_map [OF assms(1), of rip ctx]
    by (simp add: TraceCacheInsert_body_def tc_ok_def)
  ultimately show ?thesis by (intro that [of ?s]) (simp_all add: same_shape_def)
qed

lemma insert_new:
  assumes "tc_ok n s" "tc_map s (rip, ctx) = None" "tc_EntryCount s < TRACE_CACHE_MAX_ENTRIES"
  shows "TraceCacheInsert_body rip ctx (Some s) =
    (case insert_fresh rip ctx s of Corrupts \<Rightarrow> Corrupts | Hangs \<Rightarrow> Hangs | Done (a, s) \<Rightarrow> Done (a, Some s))"
  using assms(2,3) find_entry_map [OF assms(1), of rip ctx] conjunct1 [OF assms(1) [unfolded tc_ok_def]]
  by (simp add: TraceCacheInsert_body_def linorder_not_le [symmetric])

section \<open>Sequences of operations\<close>

datatype tc_op =
    TcLookup u64 u64
  | TcInsert u64 u64
  | TcPin u64 u64
  | TcUnpin u64 u64
  | TcInvalidate u64
  | TcV71Configure
  | TcV72Init

fun outcome_state :: "('a \<times> tc_state option) outcome \<Rightarrow> tc_state option outcome" where
  "outcome_state (Done r) = Done (snd r)"
| "outcome_state Corrupts = Corrupts"
| "outcome_state Hangs = Hangs"

fun tc_step :: "tc_op \<Rightarrow> tc_state option \<Rightarrow> tc_state option outcome" where
  "tc_step (TcLookup rip ctx) g = outcome_state (TraceCacheLookup_body rip ctx g)"
| "tc_step (TcInsert rip ctx) g = outcome_state (TraceCacheInsert_body rip ctx g)"
| "tc_step (TcPin rip ctx) g = TraceCachePinEntry_body rip ctx g"
| "tc_step (TcUnpin rip ctx) g = TraceCacheUnpinEntry_body rip ctx g"
| "tc_step (TcInvalidate rip) g = TraceCacheInvalidate_body rip g"
| "tc_step TcV71Configure g = Done (snd (TraceCacheV71Configure_body g))"
| "tc_step TcV72Init g = Done (snd (TraceCacheV72Init_body g))"

fun tc_run :: "tc_op list \<Rightarrow> tc_state option \<Rightarrow> tc_state option outcome" where
  "tc_run [] g = Done g"
| "tc_run (op # ops) g =
     (case tc_step op g of Done g \<Rightarrow> tc_run ops g | Corrupts \<Rightarrow> Corrupts | Hangs \<Rightarrow> Hangs)"

lemma tc_run_append: "tc_run (xs @ ys) g =
    (case tc_run xs g of Done g \<Rightarrow> tc_run ys g | Corrupts \<Rightarrow> Corrupts | Hangs \<Rightarrow> Hangs)"
  by (induction xs arbitrary: g) (auto split: outcome.splits)

fun is_insert :: "tc_op \<Rightarrow> bool" where
  "is_insert (TcInsert _ _) = True"
| "is_insert _ = False"

lemma pin_step:
  assumes "tc_ok n s"
  obtains s1 s2 where "TraceCacheLookup_body rip ctx (Some s) =
      Done (case tc_map s (rip, ctx) of None \<Rightarrow> 0 | Some a \<Rightarrow> a, Some s1)"
    "pin_with f (case tc_map s (rip, ctx) of None \<Rightarrow> 0 | Some a \<Rightarrow> a, Some s1) = Some s2"
    "same_shape n s s2"
proof -
  obtain s1 where s1: "TraceCacheLookup_body rip ctx (Some s) =
      Done (case tc_map s (rip, ctx) of None \<Rightarrow> 0 | Some a \<Rightarrow> a, Some s1)" "same_shape n s s1"
    by (rule lookup_ok [OF assms])
  then have ok: "tc_ok n s1" by (simp add: same_shape_def)
  obtain s2 where s2: "pin_with f (case tc_map s (rip, ctx) of None \<Rightarrow> 0 | Some a \<Rightarrow> a, Some s1)
      = Some s2" "same_shape n s1 s2"
    by (rule pin_with_ok [OF ok])
  show ?thesis by (rule that [OF s1(1) s2(1) same_shape_trans [OF s1(2) s2(2)]])
qed

lemma step_keeps:
  assumes "tc_ok n s" "\<not> is_insert op"
  obtains s' where "tc_step op (Some s) = Done (Some s')" "same_shape n s s'"
proof -
  have init: "tc_Initialized s" using assms(1) by (simp add: tc_ok_def)
  show ?thesis
  proof (cases op)
    case (TcLookup rip ctx)
    obtain s1 where "TraceCacheLookup_body rip ctx (Some s) =
        Done (case tc_map s (rip, ctx) of None \<Rightarrow> 0 | Some a \<Rightarrow> a, Some s1)" "same_shape n s s1"
      using lookup_ok [OF assms(1)] by metis
    then show ?thesis by (intro that [of s1]) (simp_all add: TcLookup)
  next
    case (TcPin rip ctx)
    show ?thesis
      by (rule pin_step [OF assms(1), of rip ctx "\<lambda>c. c + 1"], rule that,
          simp only: TcPin tc_step.simps TraceCachePinEntry_body_def outcome.case)
  next
    case (TcUnpin rip ctx)
    show ?thesis
      by (rule pin_step [OF assms(1), of rip ctx "\<lambda>c. if c > 0 then c - 1 else c"], rule that,
          simp only: TcUnpin tc_step.simps TraceCacheUnpinEntry_body_def outcome.case)
  next
    case (TcInvalidate rip)
    obtain s1 where "TraceCacheInvalidate_body rip (Some s) = Done (Some s1)" "same_shape n s s1"
      using invalidate_ok [OF assms(1)] by metis
    then show ?thesis by (intro that [of s1]) (simp_all add: TcInvalidate)
  next
    case TcV71Configure
    have "tc_ok n (s\<lparr>tc_LruScanDepth := 128, tc_TargetHitRate := 80\<rparr>)"
      using assms(1) by (rule tc_ok_links) (use assms in \<open>simp_all add: tc_ok_def\<close>)
    with init show ?thesis
      by (intro that [of "s\<lparr>tc_LruScanDepth := 128, tc_TargetHitRate := 80\<rparr>"])
        (simp_all add: TcV71Configure TraceCacheV71Configure_body_def same_shape_def)
  next
    case TcV72Init
    have "tc_ok n (s\<lparr>tc_LruScanDepth := 256, tc_TargetHitRate := 92\<rparr>)"
      using assms(1) by (rule tc_ok_links) (use assms in \<open>simp_all add: tc_ok_def\<close>)
    with init show ?thesis
      by (intro that [of "s\<lparr>tc_LruScanDepth := 256, tc_TargetHitRate := 92\<rparr>"])
        (simp_all add: TcV72Init TraceCacheV72Init_body_def same_shape_def)
  qed (use assms in simp)
qed

text \<open>An insertion carves at most one entry, or fails when the next entry would not fit.\<close>

lemma step_insert:
  assumes "tc_ok n s"
  obtains (room) n' s' where "tc_step (TcInsert rip ctx) (Some s) = Done (Some s')" "n' \<le> Suc n"
      "tc_ok n' s'" "tc_BaseAddress s' = tc_BaseAddress s" "tc_BucketBase s' = tc_BucketBase s"
  | (full) "tc_step (TcInsert rip ctx) (Some s) = Corrupts"
      "unat (tc_BucketBase s) < unat (tc_BaseAddress s) + 64 * Suc n"
proof (cases "tc_map s (rip, ctx)")
  case (Some a)
  from insert_hit [OF assms this] show ?thesis
    by (metis room same_shape_def le_SucI le_refl outcome_state.simps(1) snd_conv tc_step.simps(2))
next
  case None
  obtain s1 where s1: "(if tc_EntryCount s \<ge> TRACE_CACHE_MAX_ENTRIES then TraceCacheEvictLru s
      else Done s) = Done s1" "tc_ok n s1" "tc_BaseAddress s1 = tc_BaseAddress s"
      "tc_BucketBase s1 = tc_BucketBase s"
  proof (cases "tc_EntryCount s \<ge> TRACE_CACHE_MAX_ENTRIES")
    case True
    obtain s1 where "TraceCacheEvictLru s = Done s1" "tc_ok n s1"
      "tc_BaseAddress s1 = tc_BaseAddress s" "tc_BucketBase s1 = tc_BucketBase s"
      using evict_shape [OF assms] .
    then show ?thesis by (intro that [of s1]) (simp_all only: True if_True)
  next
    case False
    then show ?thesis by (intro that [of s]) (simp_all add: assms)
  qed
  have ins: "TraceCacheInsert_body rip ctx (Some s) =
    (case insert_fresh rip ctx s1 of Corrupts \<Rightarrow> Corrupts | Hangs \<Rightarrow> Hangs | Done (a, s) \<Rightarrow> Done (a, Some s))"
    using None find_entry_map [OF assms, of rip ctx] conjunct1 [OF assms [unfolded tc_ok_def]] s1(1)
    by (simp add: TraceCacheInsert_body_def)
  show ?thesis
  proof (cases "unat (tc_BaseAddress s) + 64 * Suc n \<le> unat (tc_BucketBase s)")
    case True
    then have "unat (tc_BaseAddress s1) + 64 * Suc n \<le> unat (tc_BucketBase s1)" using s1 by simp
    then obtain s2 where "insert_fresh rip ctx s1 = Done (tc_slot s1 n, s2)" "tc_ok (Suc n) s2"
      "tc_BaseAddress s2 = tc_BaseAddress s1" "tc_BucketBase s2 = tc_BucketBase s1"
      using insert_fresh_room [OF s1(2)] by metis
    then show ?thesis using s1 ins by (intro room [of s2 "Suc n"]) simp_all
  next
    case False
    with insert_fresh_full [OF s1(2)] s1 ins show ?thesis by (intro full) simp_all
  qed
qed

text \<open>How many entries fit between the header and the bucket array.\<close>

definition region_size :: "u64 \<Rightarrow> nat" where
  "region_size Size = (if Size < 4096 then 0x400000 else unat Size)"

definition trace_capacity :: "u64 \<Rightarrow> nat" where
  "trace_capacity Size = (region_size Size - (sizeof_header + sizeof_buckets)) div sizeof_entry"

lemma init_ok:
  assumes "TraceCacheInit B S mem = Done (st, g)"
  obtains s where "g = Some s" "tc_ok 0 s" "tc_EntryCount s = 0" "tc_map s = (\<lambda>_. None)"
    "trace_capacity S = (unat (tc_BucketBase s) - unat (tc_BaseAddress s)) div 64"
    "unat (tc_BaseAddress s) \<le> unat (tc_BucketBase s)"
proof -
  define S' where "S' = (if B = 0 \<or> S < 4096 then TRACE_CACHE_DEFAULT_SIZE else S)"
  have c: "B \<noteq> 0" "sizeof_header + sizeof_buckets \<le> unat S'" "unat B + unat S' < 2 ^ 64"
    using assms unfolding TraceCacheInit_def Let_def S'_def [symmetric] by (auto split: if_splits)
  let ?s = "\<lparr>tc_BaseAddress = B + of_nat sizeof_header, tc_Size = S' - of_nat sizeof_header,
    tc_NextAlloc = B + of_nat sizeof_header, tc_EntryCount = 0,
    tc_HashBuckets = of_nat TRACE_CACHE_HASH_BUCKETS, tc_LruCounter = 0, tc_Initialized = True,
    tc_LruScanDepth = TRACE_CACHE_LRU_SCAN, tc_TargetHitRate = 75,
    tc_BucketBase = B + S' - of_nat sizeof_buckets, tc_Buckets = (\<lambda>_. 0), tc_Heap = mem\<rparr>"
  have g: "g = Some ?s"
    using assms c unfolding TraceCacheInit_def Let_def S'_def [symmetric] by (auto split: if_splits)
  note sz = sizeof_header_def sizeof_buckets_def TRACE_CACHE_HASH_BUCKETS_def
  have b: "unat (B + of_nat sizeof_header) = unat B + 56"
    using c by (simp add: unat_word_ariths sz)
  have d: "unat (S' - of_nat sizeof_header) = unat S' - 56"
    using c by (subst unat_sub) (simp_all add: word_le_nat_alt sz)
  have s: "unat (B + S') = unat B + unat S'"
    using c(3) by (simp add: unat_word_ariths)
  have e: "unat (B + S' - of_nat sizeof_buckets) = unat B + unat S' - 524288"
    using c s by (subst unat_sub) (simp_all add: word_le_nat_alt sz)
  have ok: "tc_ok 0 ?s"
    using b c(2,3) d e
    by (auto simp: tc_ok_def tc_slot_def bucket_ok_def sz intro!: exI [of _ "[]"])
  have cap: "trace_capacity S = (unat (tc_BucketBase ?s) - unat (tc_BaseAddress ?s)) div 64"
    using b e c by (simp add: trace_capacity_def region_size_def S'_def sz sizeof_entry_def
        TRACE_CACHE_DEFAULT_SIZE_def)
  have le: "unat (tc_BaseAddress ?s) \<le> unat (tc_BucketBase ?s)" using b e c(2) by (simp add: sz)
  show ?thesis
    by (rule that [OF g ok _ _ cap le]) (simp_all add: tc_map_def find_entry_null fun_eq_iff)
qed

lemma run_from:
  assumes "tc_ok n s"
  shows "(\<exists>n' s'. tc_run ops (Some s) = Done (Some s') \<and> tc_ok n' s') \<or>
      tc_run ops (Some s) = Corrupts \<and>
      unat (tc_BucketBase s) < unat (tc_BaseAddress s) + 64 * (n + length (filter is_insert ops))"
  using assms
proof (induction ops arbitrary: n s)
  case (Cons op ops)
  show ?case
  proof (cases "is_insert op")
    case False
    obtain s' where "tc_step op (Some s) = Done (Some s')" "same_shape n s s'"
      by (rule step_keeps [OF Cons.prems False])
    with Cons.IH [of n s'] False show ?thesis by (auto simp: same_shape_def)
  next
    case True
    then obtain rip ctx where op: "op = TcInsert rip ctx" by (cases op) auto
    from Cons.prems show ?thesis
    proof (cases rule: step_insert [where rip = rip and ctx = ctx])
      case (room n' s')
      with Cons.IH [OF room(3)] show ?thesis by (auto simp: op)
    next
      case full
      then show ?thesis by (simp add: op)
    qed
  qed
qed auto

lemma run_region:
  assumes "tc_ok n s" "tc_run ops (Some s) = Done (Some s')"
  shows "\<exists>n'. tc_ok n' s' \<and> tc_BaseAddress s' = tc_BaseAddress s \<and> tc_BucketBase s' = tc_BucketBase s"
  using assms
proof (induction ops arbitrary: n s)
  case (Cons op ops)
  show ?case
  proof (cases "is_insert op")
    case False
    obtain s1 where s1: "tc_step op (Some s) = Done (Some s1)" "same_shape n s s1"
      by (rule step_keeps [OF Cons.prems(1) False])
    with Cons.IH [of n s1] Cons.prems(2) show ?thesis by (simp add: same_shape_def)
  next
    case True
    then obtain rip ctx where op: "op = TcInsert rip ctx" by (cases op) auto
    from Cons.prems(1) show ?thesis
    proof (cases rule: step_insert [where rip = rip and ctx = ctx])
      case (room n' s1)
      with Cons.IH [OF room(3)] Cons.prems(2) show ?thesis by (simp add: op)
    next
      case full
      with Cons.prems(2) show ?thesis by (simp add: op)
    qed
  qed
qed auto

lemma entry_inside:
  assumes "tc_ok n s" "tc_map s (rip, ctx) = Some a"
  shows "unat (tc_BaseAddress s) \<le> unat a" "unat a + sizeof_entry \<le> unat (tc_BucketBase s)"
proof -
  obtain k where k: "k < n" "a = tc_slot s k" using tc_map_Some(1) [OF assms] by blast
  then have "unat a = unat (tc_BaseAddress s) + 64 * k" using slot_unat [OF assms(1), of k] by simp
  moreover have "64 * k + 64 \<le> 64 * n" using k(1) by simp
  ultimately show "unat (tc_BaseAddress s) \<le> unat a" "unat a + sizeof_entry \<le> unat (tc_BucketBase s)"
    using assms(1) by (simp_all add: tc_ok_def sizeof_entry_def)
qed

lemma reachable_ok:
  assumes "TraceCacheInit B S mem = Done (st, g)" "tc_run ops g = Done (Some s)"
  obtains n where "tc_ok n s"
proof -
  obtain s0 where s0: "g = Some s0" "tc_ok 0 s0" by (rule init_ok [OF assms(1)])
  with assms(2) run_from [OF s0(2), of ops] that show ?thesis by auto
qed

lemma insert_map:
  assumes "tc_ok n s" "tc_EntryCount s < TRACE_CACHE_MAX_ENTRIES"
    "TraceCacheInsert_body rip ctx (Some s) = Done (a, g)"
  obtains s' where "g = Some s'" "a \<noteq> 0" "tc_map s' = (tc_map s)((rip, ctx) \<mapsto> a)"
    "tc_map s (rip, ctx) = None \<or> tc_map s (rip, ctx) = Some a"
proof (cases "tc_map s (rip, ctx)")
  case (Some b)
  obtain s' where "TraceCacheInsert_body rip ctx (Some s) = Done (b, Some s')" "tc_map s' = tc_map s"
    by (rule insert_hit [OF assms(1) Some])
  with assms(3) Some tc_map_Some(2) [OF assms(1) Some] show ?thesis
    by (intro that [of s']) (auto simp: fun_upd_idem)
next
  case None
  have room: "unat (tc_BaseAddress s) + 64 * Suc n \<le> unat (tc_BucketBase s)"
    using assms(3) insert_new [OF assms(1) None assms(2)] insert_fresh_full [OF assms(1)]
    by (metis not_le outcome.distinct(1) outcome.simps(9))
  obtain s' where "insert_fresh rip ctx s = Done (tc_slot s n, s')"
    "tc_map s' = (tc_map s)((rip, ctx) \<mapsto> tc_slot s n)"
    by (rule insert_fresh_room [OF assms(1) room])
  with assms(3) insert_new [OF assms(1) None assms(2)] None slot_nonzero [OF assms(1)] show ?thesis
    by (intro that [of s']) auto
qed

text \<open>An entry other than the victim stays where it was.\<close>

lemma map_survives:
  assumes "tc_ok n s" "tc_map s (r, c) = Some a" "v \<noteq> a"
    "tc_ok n s'" "tc_Buckets s' = tc_Buckets s"
    "tc_Heap s' = (tc_Heap s)(v := (tc_Heap s v)\<lparr>te_Valid := False\<rparr>)"
  shows "tc_map s' (r, c) = Some a"
proof -
  obtain xs where xs: "bucket_ok n s (TraceCacheHash r c) xs" using tc_ok_bucket [OF assms(1)] .
  have c1: "is_chain (tc_Heap s) (tc_Buckets s (TraceCacheHash r c)) xs" by (rule bucket_chain [OF xs])
  have c2: "is_chain (tc_Heap s') (tc_Buckets s' (TraceCacheHash r c)) xs"
    using c1 chain_cong [of xs "tc_Heap s'" "tc_Heap s"] by (simp add: assms(5,6))
  have m: "te_matches r c (tc_Heap s' x) = (te_matches r c (tc_Heap s x) \<and> x \<noteq> v)" for x
    by (simp add: assms(6) te_matches_def)
  have "find (\<lambda>x. te_matches r c (tc_Heap s x)) xs = Some a"
    using assms(2) tc_map_chain [OF c1] by simp
  then have "find (\<lambda>x. te_matches r c (tc_Heap s x) \<and> x \<noteq> v) xs = Some a"
    using assms(3) unfolding find_Some_iff by blast
  then show ?thesis using tc_map_chain [OF c2] by (simp add: m)
qed

lemma insert_keeps_pinned:
  assumes "tc_ok n s" "tc_map s (r, c) = Some a" "te_PinCount (tc_Heap s a) \<noteq> 0" "(r, c) \<noteq> (rip, ctx)"
    and ins: "TraceCacheInsert_body rip ctx (Some s) = Done (b, Some s')"
  shows "tc_map s' (r, c) = Some a"
proof (cases "tc_map s (rip, ctx)")
  case (Some d)
  obtain s1 where "TraceCacheInsert_body rip ctx (Some s) = Done (d, Some s1)" "tc_map s1 = tc_map s"
    by (rule insert_hit [OF assms(1) Some])
  with ins assms(2) show ?thesis by simp
next
  case None
  obtain s1 where s1: "(if tc_EntryCount s \<ge> TRACE_CACHE_MAX_ENTRIES then TraceCacheEvictLru s
      else Done s) = Done s1" "tc_ok n s1" "tc_map s1 (r, c) = Some a"
  proof (cases "tc_EntryCount s \<ge> TRACE_CACHE_MAX_ENTRIES")
    case full: True
    from assms(1) show ?thesis
    proof (cases rule: evict_ok)
      case none
      then show ?thesis by (intro that [of s]) (simp_all add: full assms(1,2))
    next
      case (victim v)
      have "v \<noteq> a" using victim(3) assms(3) by auto
      then show ?thesis
        using map_survives [OF assms(1,2) _ victim(5)] by (intro that [OF _ victim(5)])
          (simp_all add: full victim(4))
    qed
  next
    case False
    then show ?thesis by (intro that [of s]) (simp_all add: assms(1,2))
  qed
  have "TraceCacheInsert_body rip ctx (Some s) =
    (case insert_fresh rip ctx s1 of Corrupts \<Rightarrow> Corrupts | Hangs \<Rightarrow> Hangs | Done (a, s) \<Rightarrow> Done (a, Some s))"
    using None find_entry_map [OF assms(1), of rip ctx] conjunct1 [OF assms(1) [unfolded tc_ok_def]] s1(1)
    by (simp add: TraceCacheInsert_body_def)
  with ins have f: "insert_fresh rip ctx s1 = Done (b, s')"
    by (auto split: outcome.splits)
  have "unat (tc_BaseAddress s1) + 64 * Suc n \<le> unat (tc_BucketBase s1)"
    using f insert_fresh_full [OF s1(2), of rip ctx] by (metis not_le outcome.distinct(1))
  then obtain s2 where "insert_fresh rip ctx s1 = Done (tc_slot s1 n, s2)"
    "tc_map s2 = (tc_map s1)((rip, ctx) \<mapsto> tc_slot s1 n)"
    by (rule insert_fresh_room [OF s1(2)])
  with f s1(3) assms(4) show ?thesis by auto
qed

section \<open>Warming the cache with a kernel\<close>

definition block_key :: "u64 \<Rightarrow> nat \<Rightarrow> u64 \<times> u64" where
  "block_key base i = (base + of_nat (64 * i), 0)"

lemma block_key_inj:
  assumes "block_key base i = block_key base j" "64 * i < 2 ^ 64" "64 * j < 2 ^ 64"
  shows "i = j"
proof -
  have "(of_nat (64 * i) :: u64) = of_nat (64 * j)" using assms(1) by (simp add: block_key_def)
  then have "unat (of_nat (64 * i) :: u64) = unat (of_nat (64 * j) :: u64)" by (rule arg_cong)
  moreover have "unat (of_nat (64 * i) :: u64) = 64 * i"
    by (rule unat_of_nat_small) (use assms(2) in simp)
  moreover have "unat (of_nat (64 * j) :: u64) = 64 * j"
    by (rule unat_of_nat_small) (use assms(3) in simp)
  ultimately show ?thesis by linarith
qed

text \<open>After \<open>j\<close> rounds the first \<open>j\<close> blocks and nothing else are in the cache.\<close>

definition warmed :: "nat \<Rightarrow> u64 \<Rightarrow> nat \<Rightarrow> tc_state \<Rightarrow> bool" where
  "warmed cap base j s \<longleftrightarrow> tc_ok j s \<and> tc_EntryCount s = of_nat j \<and>
     dom (tc_map s) = block_key base ` {..<j} \<and>
     cap = (unat (tc_BucketBase s) - unat (tc_BaseAddress s)) div 64"

lemma warmed_insert:
  assumes "warmed cap base j s" "64 * j < 2 ^ 64" "cap < 131072"
  shows "if j < cap
    then \<exists>a s'. TraceCacheInsert_body (base + of_nat (64 * j)) 0 (Some s) = Done (a, Some s') \<and> warmed cap base (Suc j) s'
    else TraceCacheInsert_body (base + of_nat (64 * j)) 0 (Some s) = Corrupts"
proof -
  let ?rip = "base + of_nat (64 * j)"
  have ok: "tc_ok j s" and cnt: "tc_EntryCount s = of_nat j"
    and dm: "dom (tc_map s) = block_key base ` {..<j}"
    and cap: "cap = (unat (tc_BucketBase s) - unat (tc_BaseAddress s)) div 64"
    using assms(1) by (auto simp: warmed_def)
  have "block_key base j \<notin> block_key base ` {..<j}"
    using block_key_inj [of base j] assms(2) by fastforce
  then have none: "tc_map s (?rip, 0) = None"
    using dm by (metis block_key_def domIff)
  have le: "unat (tc_BaseAddress s) + 64 * j \<le> unat (tc_BucketBase s)"
    using ok by (simp add: tc_ok_def)
  then have jc: "j \<le> cap" by (simp add: cap less_eq_div_iff_mult_less_eq)
  have lt: "tc_EntryCount s < TRACE_CACHE_MAX_ENTRIES"
    using jc assms(3) by (simp add: cnt TRACE_CACHE_MAX_ENTRIES_def word_less_nat_alt unat_of_nat)
  note ins = insert_new [OF ok none lt]
  show ?thesis
  proof (cases "j < cap")
    case True
    then have "unat (tc_BaseAddress s) + 64 * Suc j \<le> unat (tc_BucketBase s)"
      using le by (simp add: cap less_eq_div_iff_mult_less_eq [of 64 "Suc j"] Suc_le_eq [symmetric])
    from insert_fresh_room [OF ok this, of ?rip 0] obtain s' where
      s': "insert_fresh ?rip 0 s = Done (tc_slot s j, s')" "tc_ok (Suc j) s'"
        "tc_map s' = (tc_map s)((?rip, 0) \<mapsto> tc_slot s j)"
        "tc_EntryCount s' = tc_EntryCount s + 1" "tc_BaseAddress s' = tc_BaseAddress s"
        "tc_BucketBase s' = tc_BucketBase s" by metis
    have "warmed cap base (Suc j) s'"
      using s' by (simp add: warmed_def cnt cap dm block_key_def lessThan_Suc)
    with s'(1) ins True show ?thesis by auto
  next
    case False
    then have "unat (tc_BucketBase s) < unat (tc_BaseAddress s) + 64 * Suc j"
      using jc cap by (simp add: div_less_iff_less_mult [symmetric] linorder_not_less [symmetric])
    from insert_fresh_full [OF ok this] ins False show ?thesis by simp
  qed
qed

lemma warmed_bound: "warmed cap base j s \<Longrightarrow> j \<le> cap"
  by (auto simp: warmed_def tc_ok_def less_eq_div_iff_mult_less_eq)

lemma warm_from:
  assumes "warmed cap base j s" "64 * j < unat ks + 64" "unat ks \<le> 2 ^ 64 - 64" "cap < 131072"
  shows "(\<exists>m s'. warm_loop_body base ks (of_nat (64 * j)) (Some s) = Some (Done (Some s')) \<and>
            warmed cap base m s' \<and> unat ks \<le> 64 * m) \<or>
         warm_loop_body base ks (of_nat (64 * j)) (Some s) = Some Corrupts \<and> 64 * cap < unat ks"
  using assms(1,2)
proof (induction "unat ks + 64 - 64 * j" arbitrary: j s rule: less_induct)
  case less
  have u: "unat (of_nat (64 * j) :: u64) = 64 * j"
    by (rule unat_of_nat_small) (use less.prems(2) assms(3) in simp)
  note step = warm_loop_body.simps [of base ks "of_nat (64 * j)" "Some s"]
  show ?case
  proof (cases "64 * j < unat ks")
    case False
    then have "\<not> (of_nat (64 * j) :: u64) < ks" by (simp only: word_less_nat_alt u not_less)
    then have "warm_loop_body base ks (of_nat (64 * j)) (Some s) = Some (Done (Some s))"
      by (simp only: step if_False option.case)
    with less.prems(1) False show ?thesis by (metis not_less)
  next
    case True
    then have lt: "(of_nat (64 * j) :: u64) < ks" by (simp only: word_less_nat_alt u)
    have b: "64 * j < 2 ^ 64" using True assms(3) by simp
    note ins = warmed_insert [OF less.prems(1) b assms(4)]
    show ?thesis
    proof (cases "j < cap")
      case False
      then have "TraceCacheInsert_body (base + of_nat (64 * j)) 0 (Some s) = Corrupts"
        using ins by (simp only: if_False)
      with lt have "warm_loop_body base ks (of_nat (64 * j)) (Some s) = Some Corrupts"
        by (simp only: step if_True outcome.case)
      moreover have "64 * cap < unat ks" using True False by simp
      ultimately show ?thesis by blast
    next
      case room: True
      then obtain a s' where s': "TraceCacheInsert_body (base + of_nat (64 * j)) 0 (Some s) = Done (a, Some s')"
        "warmed cap base (Suc j) s'" using ins by auto
      have n: "(of_nat (64 * j) :: u64) + 64 = of_nat (64 * Suc j)" by simp
      have "warm_loop_body base ks (of_nat (64 * j)) (Some s) =
          warm_loop_body base ks (of_nat (64 * Suc j)) (Some s')"
        using lt s'(1) by (simp only: step if_True outcome.case prod.case n)
      with less.hyps [OF _ s'(2)] True show ?thesis by simp
    qed
  qed
qed

section \<open>Properties\<close>

text \<open>C1: seen through \<open>tc_map\<close>, the cache is a map from (RIP, context) to entry addresses: a lookup
  reads it and leaves it alone, an invalidation removes exactly the keys of its RIP, and an
  insertion that needs no eviction binds its key to the address it returns, keeping the
  address of a key already present.\<close>

theorem trace_cache_refines_map:
  assumes "TraceCacheInit B S mem = Done (st, g)" "tc_run ops g = Done (Some s)"
  shows "(\<exists>s'. TraceCacheLookup_body rip ctx (Some s) =
            Done (case tc_map s (rip, ctx) of None \<Rightarrow> 0 | Some a \<Rightarrow> a, Some s') \<and> tc_map s' = tc_map s) \<and>
    (\<exists>s'. TraceCacheInvalidate_body rip (Some s) = Done (Some s') \<and>
          tc_map s' = (\<lambda>k. if fst k = rip then None else tc_map s k) \<and>
          tc_EntryCount s' = tc_EntryCount s) \<and>
    (\<forall>a g'. TraceCacheInsert_body rip ctx (Some s) = Done (a, g') \<longrightarrow>
          tc_EntryCount s < TRACE_CACHE_MAX_ENTRIES \<longrightarrow>
          (\<exists>s'. g' = Some s' \<and> a \<noteq> 0 \<and> tc_map s' = (tc_map s)((rip, ctx) \<mapsto> a) \<and>
             (tc_map s (rip, ctx) = None \<or> tc_map s (rip, ctx) = Some a)))"
proof -
  obtain n where ok: "tc_ok n s" by (rule reachable_ok [OF assms])
  obtain s1 where "TraceCacheLookup_body rip ctx (Some s) =
      Done (case tc_map s (rip, ctx) of None \<Rightarrow> 0 | Some a \<Rightarrow> a, Some s1)" "tc_map s1 = tc_map s"
    by (rule lookup_ok [OF ok])
  moreover obtain s2 where "TraceCacheInvalidate_body rip (Some s) = Done (Some s2)" "same_shape n s s2"
      "tc_map s2 = (\<lambda>k. if fst k = rip then None else tc_map s k)"
    by (rule invalidate_ok [OF ok])
  ultimately show ?thesis
    using insert_map [OF ok, of rip ctx] by (fastforce simp: same_shape_def)
qed

theorem trace_cache_refines_map_witness:
  "\<exists>s. TraceCacheInit 0x1000000 0x400000 (\<lambda>_. new_entry 0 0 0 0) = Done (EFI_SUCCESS, Some s) \<and>
     (\<exists>s'. TraceCacheInvalidate_body 0x1000 (Some s) = Done (Some s') \<and> tc_map s' (0x1000, 5) = None)"
proof -
  obtain s where "TraceCacheInit 0x1000000 0x400000 (\<lambda>_. new_entry 0 0 0 0) = Done (EFI_SUCCESS, Some s)"
    by (simp add: TraceCacheInit_def Let_def sizeof_header_def sizeof_buckets_def
      TRACE_CACHE_HASH_BUCKETS_def)
  with trace_cache_refines_map [OF this, where ops = "[]" and rip = "0x1000" and ctx = 5 and s = s] show ?thesis by auto
qed

text \<open>C11: an entry that is pinned stays in the cache, at its address, whatever other key is inserted,
  the insertions that evict included.\<close>

theorem trace_cache_pinned_survives:
  assumes "TraceCacheInit B S mem = Done (st, g)" "tc_run ops g = Done (Some s)"
    and "tc_map s (r, c) = Some a" "te_PinCount (tc_Heap s a) \<noteq> 0" "(r, c) \<noteq> (rip, ctx)"
    and "TraceCacheInsert_body rip ctx (Some s) = Done (b, Some s')"
  shows "tc_map s' (r, c) = Some a"
proof -
  obtain n where ok: "tc_ok n s" by (rule reachable_ok [OF assms(1,2)])
  show ?thesis by (rule insert_keeps_pinned [OF ok assms(3,4,5,6)])
qed

theorem trace_cache_pinned_survives_witness:
  "\<exists>s0 s a b s'. TraceCacheInit 0x1000000 0x400000 (\<lambda>_. new_entry 0 0 0 0) = Done (EFI_SUCCESS, Some s0) \<and>
     tc_run [TcInsert 0x1000 7, TcPin 0x1000 7] (Some s0) = Done (Some s) \<and>
     tc_map s (0x1000, 7) = Some a \<and> te_PinCount (tc_Heap s a) = 1 \<and>
     TraceCacheInsert_body 0x2000 7 (Some s) = Done (b, Some s') \<and> tc_map s' (0x1000, 7) = Some a"
proof -
  obtain s0 where i: "TraceCacheInit 0x1000000 0x400000 (\<lambda>_. new_entry 0 0 0 0) = Done (EFI_SUCCESS, Some s0)"
    "s0 = \<lparr>tc_BaseAddress = 0x1000038, tc_Size = 0x3FFFC8, tc_NextAlloc = 0x1000038,
        tc_EntryCount = 0, tc_HashBuckets = 0x10000, tc_LruCounter = 0, tc_Initialized = True,
        tc_LruScanDepth = 64, tc_TargetHitRate = 75, tc_BucketBase = 0x1380000,
        tc_Buckets = (\<lambda>_. 0), tc_Heap = (\<lambda>_. new_entry 0 0 0 0)\<rparr>"
    by (simp add: TraceCacheInit_def Let_def sizeof_header_def sizeof_buckets_def
      TRACE_CACHE_HASH_BUCKETS_def TRACE_CACHE_LRU_SCAN_def)
  obtain s where s: "tc_run [TcInsert 0x1000 7, TcPin 0x1000 7] (Some s0) = Done (Some s)"
    "tc_map s (0x1000, 7) = Some 0x1000038" "te_PinCount (tc_Heap s 0x1000038) = 1"
    by (simp add: i(2) TraceCacheInsert_body_def find_entry.simps TraceCacheHash_def Let_def
        insert_fresh_def TRACE_CACHE_MAX_ENTRIES_def sizeof_entry_def TraceCachePinEntry_body_def
        TraceCacheLookup_body_def te_matches_def touch_hit_def pin_with_def tc_map_def)
  obtain n s1 where s1: "TraceCacheInit 0x1000000 0x400000 (\<lambda>_. new_entry 0 0 0 0) = Done (EFI_SUCCESS, Some s1)"
    "tc_ok 0 s1" by (metis i(1) init_ok option.inject)
  have "s1 = s0" using s1(1) i(1) by simp
  then have "tc_ok 0 s0" using s1(2) by simp
  from run_from [OF this, of "[TcInsert 0x1000 7, TcPin 0x1000 7] @ [TcInsert 0x2000 7]"]
  obtain s' where "tc_step (TcInsert 0x2000 7) (Some s) = Done (Some s')"
    unfolding tc_run_append s(1) by (auto simp: i(2) split: outcome.splits)
  then obtain b where b: "TraceCacheInsert_body 0x2000 7 (Some s) = Done (b, Some s')"
    by (cases "TraceCacheInsert_body 0x2000 7 (Some s)") auto
  from trace_cache_pinned_survives [OF i(1) s(1) s(2) _ _ b] s i b show ?thesis by auto
qed

end
