(* ===== verification/TraceCacheLock.thy ===== *)
theory TraceCacheLock
  imports TraceCache
begin

text \<open>
  The functions of \<open>performance/tcache/tracecache.c\<close> with their spin lock. Every function
  that walks or changes the table takes \<open>gTraceLock\<close> after its guard and releases it on each
  way out; the sections in between are the \<open>_body\<close> definitions of \<open>TraceCache\<close>. The lock
  routines are library code and a parameter; what is assumed of them, \<open>spin_lock_law\<close>, is
  what the library documents. \<open>gTraceLock\<close> is a zeroed static, and no file initialises it.
  One processor is modelled, so a lock that is held is never released by another.
\<close>

section \<open>The lock\<close>

text \<open>A lock is a machine word. \<open>sl_Released\<close> is the value \<open>InitializeSpinLock\<close> stores.\<close>

record spin_lock_lib =
  sl_Released :: u64
  sl_Acquire :: "u64 \<Rightarrow> u64 outcome"
  sl_Release :: "u64 \<Rightarrow> u64"

text \<open>The documented contract: acquiring a released lock returns with the lock held, acquiring a
  held one waits until it is released, releasing a held one makes it released, and acquiring
  a lock that was never initialised does not return (the routine asserts).\<close>

definition spin_lock_law :: "spin_lock_lib \<Rightarrow> bool" where
  "spin_lock_law lib \<longleftrightarrow> sl_Acquire lib 0 = Hangs \<and>
     (\<exists>held. sl_Acquire lib (sl_Released lib) = Done held \<and> sl_Acquire lib held = Hangs \<and>
        sl_Release lib held = sl_Released lib)"

text \<open>The globals of the file: the lock and the cache.\<close>

type_synonym tc_globals = "u64 \<times> tc_state option"

definition gTraceLock :: u64 where "gTraceLock = 0"

definition with_lock ::
  "spin_lock_lib \<Rightarrow> (tc_state option \<Rightarrow> ('a \<times> tc_state option) outcome) \<Rightarrow> tc_globals \<Rightarrow>
    ('a \<times> tc_globals) outcome" where
  "with_lock lib section w =
     (case sl_Acquire lib (fst w) of
        Corrupts \<Rightarrow> Corrupts
      | Hangs \<Rightarrow> Hangs
      | Done l \<Rightarrow>
          (case section (snd w) of
             Corrupts \<Rightarrow> Corrupts
           | Hangs \<Rightarrow> Hangs
           | Done (r, g) \<Rightarrow> Done (r, sl_Release lib l, g)))"

section \<open>The functions\<close>

text \<open>\<open>if (!gTraceCache || !gTraceCache->Initialized) return\<close>, before the lock is taken\<close>

definition tc_ready :: "tc_state option \<Rightarrow> bool" where
  "tc_ready g = (case g of None \<Rightarrow> False | Some s \<Rightarrow> tc_Initialized s)"

definition TraceCacheLookup ::
  "spin_lock_lib \<Rightarrow> u64 \<Rightarrow> u64 \<Rightarrow> tc_globals \<Rightarrow> (u64 \<times> tc_globals) outcome" where
  "TraceCacheLookup lib Rip Context w =
     (if \<not> tc_ready (snd w) then Done (0, w)
      else with_lock lib (TraceCacheLookup_body Rip Context) w)"

definition TraceCacheInsert ::
  "spin_lock_lib \<Rightarrow> u64 \<Rightarrow> u64 \<Rightarrow> tc_globals \<Rightarrow> (u64 \<times> tc_globals) outcome" where
  "TraceCacheInsert lib Rip Context w =
     (if \<not> tc_ready (snd w) then Done (0, w)
      else with_lock lib (TraceCacheInsert_body Rip Context) w)"

definition TraceCacheV71Configure ::
  "spin_lock_lib \<Rightarrow> tc_globals \<Rightarrow> (efi_status \<times> tc_globals) outcome" where
  "TraceCacheV71Configure lib w =
     (if \<not> tc_ready (snd w) then Done (EFI_NOT_READY, w)
      else with_lock lib (\<lambda>g. Done (TraceCacheV71Configure_body g)) w)"

definition TraceCacheV72Init ::
  "spin_lock_lib \<Rightarrow> tc_globals \<Rightarrow> (efi_status \<times> tc_globals) outcome" where
  "TraceCacheV72Init lib w =
     (if \<not> tc_ready (snd w) then Done (EFI_NOT_READY, w)
      else with_lock lib (\<lambda>g. Done (TraceCacheV72Init_body g)) w)"

text \<open>Invalidation only looks at the pointer before it takes the lock.\<close>

definition TraceCacheInvalidate ::
  "spin_lock_lib \<Rightarrow> u64 \<Rightarrow> tc_globals \<Rightarrow> tc_globals outcome" where
  "TraceCacheInvalidate lib Rip w =
     (if snd w = None then Done w
      else map_outcome snd
        (with_lock lib (\<lambda>g. map_outcome (Pair ()) (TraceCacheInvalidate_body Rip g)) w))"

text \<open>Pinning calls the lookup and changes the entry after the lock has been released.\<close>

definition pin_entry :: "(u32 \<Rightarrow> u32) \<Rightarrow> u64 \<times> tc_globals \<Rightarrow> tc_globals" where
  "pin_entry f r = (case r of (a, l, g) \<Rightarrow> (l, pin_with f (a, g)))"

definition TraceCachePinEntry ::
  "spin_lock_lib \<Rightarrow> u64 \<Rightarrow> u64 \<Rightarrow> tc_globals \<Rightarrow> tc_globals outcome" where
  "TraceCachePinEntry lib Rip Context w =
     map_outcome (pin_entry (\<lambda>c. c + 1)) (TraceCacheLookup lib Rip Context w)"

definition TraceCacheUnpinEntry ::
  "spin_lock_lib \<Rightarrow> u64 \<Rightarrow> u64 \<Rightarrow> tc_globals \<Rightarrow> tc_globals outcome" where
  "TraceCacheUnpinEntry lib Rip Context w =
     map_outcome (pin_entry (\<lambda>c. if c > 0 then c - 1 else c)) (TraceCacheLookup lib Rip Context w)"

text \<open>The warming loop; the outer \<open>None\<close> is a loop that never ends, and the debug message after it
  reads the header.\<close>

partial_function (option) warm_loop ::
  "spin_lock_lib \<Rightarrow> u64 \<Rightarrow> u64 \<Rightarrow> u64 \<Rightarrow> tc_globals \<Rightarrow> tc_globals outcome option" where
  "warm_loop lib KernelBase KernelSize offset w =
     (if offset < KernelSize then
        (case TraceCacheInsert lib (KernelBase + offset) 0 w of
           Corrupts \<Rightarrow> Some Corrupts
         | Hangs \<Rightarrow> Some Hangs
         | Done (_, w) \<Rightarrow> warm_loop lib KernelBase KernelSize (offset + 64) w)
      else Some (case snd w of None \<Rightarrow> Corrupts | Some _ \<Rightarrow> Done w))"

definition TraceCacheWarmKernel ::
  "spin_lock_lib \<Rightarrow> u64 \<Rightarrow> u64 \<Rightarrow> tc_globals \<Rightarrow> tc_globals outcome option" where
  "TraceCacheWarmKernel lib KernelBase KernelSize w = warm_loop lib KernelBase KernelSize 0 w"

definition prefill_entry :: "u64 \<Rightarrow> tc_globals \<Rightarrow> tc_globals" where
  "prefill_entry a w =
     (if a = 0 then w
      else (fst w, map_option (\<lambda>s. s\<lparr>tc_Heap := (tc_Heap s)(a := (tc_Heap s a)
              \<lparr>te_ExecutionCount := 200, te_DboOptimizationHint := 1\<rparr>)\<rparr>) (snd w)))"

fun prefill_loop :: "spin_lock_lib \<Rightarrow> u64 \<Rightarrow> nat list \<Rightarrow> tc_globals \<Rightarrow> tc_globals outcome" where
  "prefill_loop lib base [] w = Done w"
| "prefill_loop lib base (i # is) w =
     (case TraceCacheInsert lib (base + ucast (of_nat i * 64 :: u32)) 0 w of
        Corrupts \<Rightarrow> Corrupts
      | Hangs \<Rightarrow> Hangs
      | Done (a, w) \<Rightarrow> prefill_loop lib base is (prefill_entry a w))"

definition TraceCacheDboPrefill ::
  "spin_lock_lib \<Rightarrow> u64 \<Rightarrow> u32 \<Rightarrow> tc_globals \<Rightarrow> tc_globals outcome" where
  "TraceCacheDboPrefill lib HotPathBase BlockCount w =
     (if \<not> tc_ready (snd w) then Done w
      else prefill_loop lib HotPathBase [0..<(if BlockCount > 0 then unat BlockCount else 64)] w)"

section \<open>Sequences of operations\<close>

fun tl_step :: "spin_lock_lib \<Rightarrow> tc_op \<Rightarrow> tc_globals \<Rightarrow> tc_globals outcome" where
  "tl_step lib (TcLookup rip ctx) w = map_outcome snd (TraceCacheLookup lib rip ctx w)"
| "tl_step lib (TcInsert rip ctx) w = map_outcome snd (TraceCacheInsert lib rip ctx w)"
| "tl_step lib (TcPin rip ctx) w = TraceCachePinEntry lib rip ctx w"
| "tl_step lib (TcUnpin rip ctx) w = TraceCacheUnpinEntry lib rip ctx w"
| "tl_step lib (TcInvalidate rip) w = TraceCacheInvalidate lib rip w"
| "tl_step lib TcV71Configure w = map_outcome snd (TraceCacheV71Configure lib w)"
| "tl_step lib TcV72Init w = map_outcome snd (TraceCacheV72Init lib w)"

fun tl_run :: "spin_lock_lib \<Rightarrow> tc_op list \<Rightarrow> tc_globals \<Rightarrow> tc_globals outcome" where
  "tl_run lib [] w = Done w"
| "tl_run lib (op # ops) w =
     (case tl_step lib op w of
        Done w \<Rightarrow> tl_run lib ops w | Corrupts \<Rightarrow> Corrupts | Hangs \<Rightarrow> Hangs)"

section \<open>With an initialised lock\<close>

text \<open>Each function then does what its section does and leaves the lock released.\<close>

lemma with_lock_released:
  assumes "spin_lock_law lib"
  shows "with_lock lib f (sl_Released lib, g) =
    map_outcome (\<lambda>r. (fst r, sl_Released lib, snd r)) (f g)"
  using assms by (auto simp: spin_lock_law_def with_lock_def split: outcome.splits)

lemma not_ready_body:
  assumes "\<not> tc_ready g"
  shows "TraceCacheLookup_body rip ctx g = Done (0, g)" "TraceCacheInsert_body rip ctx g = Done (0, g)"
    "TraceCacheV71Configure_body g = (EFI_NOT_READY, g)" "TraceCacheV72Init_body g = (EFI_NOT_READY, g)"
  using assms
  by (cases g; simp add: tc_ready_def TraceCacheLookup_body_def TraceCacheInsert_body_def
      TraceCacheV71Configure_body_def TraceCacheV72Init_body_def)+

lemma released_sections:
  assumes "spin_lock_law lib"
  shows "TraceCacheLookup lib rip ctx (sl_Released lib, g) =
      map_outcome (\<lambda>r. (fst r, sl_Released lib, snd r)) (TraceCacheLookup_body rip ctx g)"
    "TraceCacheInsert lib rip ctx (sl_Released lib, g) =
      map_outcome (\<lambda>r. (fst r, sl_Released lib, snd r)) (TraceCacheInsert_body rip ctx g)"
    "TraceCacheV71Configure lib (sl_Released lib, g) =
      Done (fst (TraceCacheV71Configure_body g), sl_Released lib, snd (TraceCacheV71Configure_body g))"
    "TraceCacheV72Init lib (sl_Released lib, g) =
      Done (fst (TraceCacheV72Init_body g), sl_Released lib, snd (TraceCacheV72Init_body g))"
    "TraceCacheInvalidate lib rip (sl_Released lib, g) =
      map_outcome (Pair (sl_Released lib)) (TraceCacheInvalidate_body rip g)"
  using not_ready_body [of g]
  by (auto simp: TraceCacheLookup_def TraceCacheInsert_def TraceCacheV71Configure_def
      TraceCacheV72Init_def TraceCacheInvalidate_def with_lock_released [OF assms]
      outcome.map_comp comp_def TraceCacheInvalidate_body_def split: prod.splits)

lemma outcome_state_map: "outcome_state r = map_outcome snd r"
  by (cases r) simp_all

lemma released_step:
  assumes "spin_lock_law lib"
  shows "tl_step lib op (sl_Released lib, g) = map_outcome (Pair (sl_Released lib)) (tc_step op g)"
  using released_sections [OF assms]
  by (cases op) (auto simp: outcome_state_map TraceCachePinEntry_def TraceCacheUnpinEntry_def
      TraceCachePinEntry_body_def TraceCacheUnpinEntry_body_def pin_entry_def
      outcome.map_comp comp_def split: prod.splits outcome.splits)

lemma released_run:
  assumes "spin_lock_law lib"
  shows "tl_run lib ops (sl_Released lib, g) = map_outcome (Pair (sl_Released lib)) (tc_run ops g)"
  by (induction ops arbitrary: g) (auto simp: released_step [OF assms] split: outcome.splits)

lemma released_warm:
  assumes "spin_lock_law lib" "warm_loop_body base ks offset g = Some r"
  shows "warm_loop lib base ks offset (sl_Released lib, g) = Some (map_outcome (Pair (sl_Released lib)) r)"
  using assms(2)
  by (rule warm_loop_body.raw_induct
      [where P = "\<lambda>base ks offset g r. warm_loop lib base ks offset (sl_Released lib, g) =
          Some (map_outcome (Pair (sl_Released lib)) r)", rotated])
    (subst warm_loop.simps, auto simp: released_sections [OF assms(1)] split: if_splits option.splits
      outcome.splits)

section \<open>With the lock as the file has it\<close>

text \<open>On an initialised cache every operation takes the lock.\<close>

lemma static_lock_waits: "spin_lock_law lib \<Longrightarrow> with_lock lib section (gTraceLock, g) = Hangs"
  by (simp add: spin_lock_law_def with_lock_def gTraceLock_def)

lemma static_lock_blocks:
  assumes "spin_lock_law lib" "tc_ready g"
  shows "TraceCacheLookup lib rip ctx (gTraceLock, g) = Hangs"
    "TraceCacheInsert lib rip ctx (gTraceLock, g) = Hangs"
    "TraceCacheV71Configure lib (gTraceLock, g) = Hangs"
    "TraceCacheV72Init lib (gTraceLock, g) = Hangs"
    "TraceCacheInvalidate lib rip (gTraceLock, g) = Hangs"
  using assms(2)
  by (auto simp: TraceCacheLookup_def TraceCacheInsert_def TraceCacheV71Configure_def
      TraceCacheV72Init_def TraceCacheInvalidate_def static_lock_waits [OF assms(1)] tc_ready_def split: option.splits)

lemma static_lock_step:
  assumes "spin_lock_law lib" "tc_ready g"
  shows "tl_step lib op (gTraceLock, g) = Hangs"
  using static_lock_blocks [OF assms]
  by (cases op) (simp_all add: TraceCachePinEntry_def TraceCacheUnpinEntry_def)

lemma static_lock_run:
  assumes "spin_lock_law lib" "tc_ready g" "ops \<noteq> []"
  shows "tl_run lib ops (gTraceLock, g) = Hangs"
  using assms(3) static_lock_step [OF assms(1,2)] by (cases ops) simp_all

lemma init_ready: "TraceCacheInit B S mem = Done (st, g) \<Longrightarrow> tc_ready g"
  by (auto simp: TraceCacheInit_def Let_def tc_ready_def split: if_splits)

section \<open>Properties\<close>

text \<open>C37: with a lock that has been initialised, a sequence of operations after the cache's
  initialisation does what the locked sections do one after the other, never hangs, does not
  take the lock while it holds it, leaves it released, and stays within the region as long as
  no more insertions are made than entries fit. With \<open>gTraceLock\<close> as the file has it, a zeroed
  static that nothing initialises, every sequence hangs at its first operation, in
  AcquireSpinLock.\<close>

theorem trace_cache_runs:
  assumes "TraceCacheInit B S mem = Done (st, g)" "spin_lock_law lib"
  shows "tl_run lib ops (sl_Released lib, g) = map_outcome (Pair (sl_Released lib)) (tc_run ops g) \<and>
    tl_run lib ops (sl_Released lib, g) \<noteq> Hangs \<and>
    (length (filter is_insert ops) \<le> trace_capacity S \<longrightarrow>
      (\<exists>s. tl_run lib ops (sl_Released lib, g) = Done (sl_Released lib, Some s))) \<and>
    (ops \<noteq> [] \<longrightarrow> tl_run lib ops (gTraceLock, g) = Hangs)"
proof -
  obtain s where s: "g = Some s" "tc_ok 0 s"
    "trace_capacity S = (unat (tc_BucketBase s) - unat (tc_BaseAddress s)) div 64"
    "unat (tc_BaseAddress s) \<le> unat (tc_BucketBase s)" by (rule init_ok [OF assms(1)])
  then have "\<not> unat (tc_BucketBase s) < unat (tc_BaseAddress s) + 64 * length (filter is_insert ops)"
    if "length (filter is_insert ops) \<le> trace_capacity S"
    using that by (auto simp: less_eq_div_iff_mult_less_eq)
  with run_from [OF s(2), of ops] released_run [OF assms(2), of ops g]
    static_lock_run [OF assms(2) init_ready [OF assms(1)], of ops]
  show ?thesis by (auto simp: s(1))
qed

text \<open>The library's routines over its two lock states, 1 released and 2 held.\<close>

definition sample_spin_lock :: spin_lock_lib where
  "sample_spin_lock = \<lparr>sl_Released = 1, sl_Acquire = (\<lambda>l. if l = 1 then Done 2 else Hangs),
     sl_Release = (\<lambda>_. 1)\<rparr>"

lemma sample_spin_lock [simp]: "spin_lock_law sample_spin_lock" "sl_Released sample_spin_lock = 1"
  by (simp_all add: sample_spin_lock_def spin_lock_law_def)

theorem trace_cache_runs_witness:
  "\<exists>g. TraceCacheInit 0x1000000 0x400000 (\<lambda>_. new_entry 0 0 0 0) = Done (EFI_SUCCESS, g) \<and>
     (\<exists>s. tl_run sample_spin_lock
        [TcInsert 0x1000 0, TcPin 0x1000 0, TcInvalidate 0x1000, TcLookup 0x1000 0] (1, g)
        = Done (1, Some s)) \<and>
     tl_run sample_spin_lock [TcLookup 0x1000 0] (gTraceLock, g) = Hangs"
proof -
  obtain g where i: "TraceCacheInit 0x1000000 0x400000 (\<lambda>_. new_entry 0 0 0 0) = Done (EFI_SUCCESS, g)"
    by (simp add: TraceCacheInit_def Let_def sizeof_header_def sizeof_buckets_def
      TRACE_CACHE_HASH_BUCKETS_def)
  have "1 \<le> trace_capacity 0x400000"
    by (simp add: trace_capacity_def region_size_def sizeof_header_def sizeof_buckets_def
        sizeof_entry_def TRACE_CACHE_HASH_BUCKETS_def)
  with trace_cache_runs [OF i sample_spin_lock(1), where ops =
      "[TcInsert 0x1000 0, TcPin 0x1000 0, TcInvalidate 0x1000, TcLookup 0x1000 0]"]
  have "\<exists>s. tl_run sample_spin_lock
      [TcInsert 0x1000 0, TcPin 0x1000 0, TcInvalidate 0x1000, TcLookup 0x1000 0] (1, g)
      = Done (1, Some s)" by (simp del: tl_run.simps tc_run.simps) metis
  moreover have "tl_run sample_spin_lock [TcLookup 0x1000 0] (gTraceLock, g) = Hangs"
    using trace_cache_runs [OF i sample_spin_lock(1), where ops = "[TcLookup 0x1000 0]"]
    by (simp del: tl_run.simps tc_run.simps)
  ultimately show ?thesis using i by blast
qed

text \<open>C38: with an initialised lock, warming the cache with a kernel succeeds exactly when the
  kernel's 64-byte blocks fit the region, and then every block is present and the lock is
  released; one byte more and the entries overwrite the bucket array, because the eviction
  threshold of 131072 entries is not reached by a region that holds fewer (the default 4 MB
  region holds 57343). With the uninitialised \<open>gTraceLock\<close> of the file, warming with any kernel
  that is not empty hangs at the first block.\<close>

theorem trace_cache_warm_fits:
  assumes "TraceCacheInit B S mem = Done (st, g)" "trace_capacity S < 131072"
    and "unat KernelSize \<le> 2 ^ 64 - 64" "spin_lock_law lib"
  shows "(if unat KernelSize \<le> 64 * trace_capacity S
    then \<exists>s. TraceCacheWarmKernel lib base KernelSize (sl_Released lib, g) =
             Some (Done (sl_Released lib, Some s)) \<and>
           (\<forall>i. 64 * i < unat KernelSize \<longrightarrow> tc_map s (base + of_nat (64 * i), 0) \<noteq> None)
    else TraceCacheWarmKernel lib base KernelSize (sl_Released lib, g) = Some Corrupts) \<and>
    (KernelSize \<noteq> 0 \<longrightarrow> TraceCacheWarmKernel lib base KernelSize (gTraceLock, g) = Some Hangs)"
proof -
  obtain s where s: "g = Some s" "tc_ok 0 s" "tc_EntryCount s = 0" "tc_map s = (\<lambda>_. None)"
    "trace_capacity S = (unat (tc_BucketBase s) - unat (tc_BaseAddress s)) div 64"
    by (rule init_ok [OF assms(1)])
  then have w: "warmed (trace_capacity S) base 0 s" by (simp add: warmed_def)
  have static: "TraceCacheWarmKernel lib base KernelSize (gTraceLock, g) = Some Hangs" if "KernelSize \<noteq> 0"
    using that static_lock_blocks(2) [OF assms(4) init_ready [OF assms(1)]]
    by (simp add: TraceCacheWarmKernel_def warm_loop.simps [of lib base KernelSize 0] word_neq_0_conv)
  have "(\<exists>m s'. warm_loop_body base KernelSize 0 (Some s) = Some (Done (Some s')) \<and>
            warmed (trace_capacity S) base m s' \<and> unat KernelSize \<le> 64 * m) \<or>
         warm_loop_body base KernelSize 0 (Some s) = Some Corrupts \<and> 64 * trace_capacity S < unat KernelSize"
    using warm_from [OF w _ assms(3,2)] by simp
  then have "if unat KernelSize \<le> 64 * trace_capacity S
    then \<exists>s. TraceCacheWarmKernel lib base KernelSize (sl_Released lib, g) =
             Some (Done (sl_Released lib, Some s)) \<and>
           (\<forall>i. 64 * i < unat KernelSize \<longrightarrow> tc_map s (base + of_nat (64 * i), 0) \<noteq> None)
    else TraceCacheWarmKernel lib base KernelSize (sl_Released lib, g) = Some Corrupts"
  proof (elim disjE exE conjE)
    fix m s'
    assume a: "warm_loop_body base KernelSize 0 (Some s) = Some (Done (Some s'))"
      "warmed (trace_capacity S) base m s'" "unat KernelSize \<le> 64 * m"
    have "tc_map s' (base + of_nat (64 * i), 0) \<noteq> None" if "64 * i < unat KernelSize" for i
    proof -
      have "block_key base i \<in> dom (tc_map s')" using a(2,3) that by (simp add: warmed_def)
      then show ?thesis by (auto simp: block_key_def)
    qed
    then show ?thesis
      using a warmed_bound [OF a(2)] released_warm [OF assms(4) a(1)]
      by (simp add: TraceCacheWarmKernel_def s(1))
  qed (simp add: TraceCacheWarmKernel_def s(1) released_warm [OF assms(4)])
  with static show ?thesis by blast
qed

theorem trace_cache_warm_fits_witness:
  "\<exists>s. TraceCacheInit 0x1000000 0x400000 (\<lambda>_. new_entry 0 0 0 0) = Done (EFI_SUCCESS, Some s) \<and>
     TraceCacheWarmKernel sample_spin_lock 0xFFFF800000000000 0x380000 (1, Some s) = Some Corrupts \<and>
     TraceCacheWarmKernel sample_spin_lock 0xFFFF800000000000 0x380000 (gTraceLock, Some s) = Some Hangs"
proof -
  obtain s where i: "TraceCacheInit 0x1000000 0x400000 (\<lambda>_. new_entry 0 0 0 0) = Done (EFI_SUCCESS, Some s)"
    by (simp add: TraceCacheInit_def Let_def sizeof_header_def sizeof_buckets_def
      TRACE_CACHE_HASH_BUCKETS_def)
  have c: "trace_capacity 0x400000 = 57343"
    by (simp add: trace_capacity_def region_size_def sizeof_header_def sizeof_buckets_def
        sizeof_entry_def TRACE_CACHE_HASH_BUCKETS_def)
  from trace_cache_warm_fits [OF i _ _ sample_spin_lock(1), where KernelSize = "0x380000" and
      base = "0xFFFF800000000000"] c i show ?thesis by simp
qed

end
