(* ===== verification/L0Cache.thy ===== *)
theory L0Cache
  imports Prelude
begin

text \<open>
  The private micro-caches, \<open>performance/l0cache/l0microcache.c\<close>: one direct-mapped cache of 16
  lines of 64 bytes per execution unit. A unit whose pool allocation failed, or that was never
  initialised, is \<open>None\<close>. A data buffer is \<open>None\<close> when the pointer is NULL, and otherwise the
  function from positions to bytes; a read returns the bytes it copied, \<open>None\<close> when it copied
  nothing. A printing function is the figures it prints; of a hit rate, the two operands of the
  floating-point quotient. The hit-rate functions that return a constant are left out.
\<close>

section \<open>State\<close>

definition L0_CACHE_LINES :: nat where "L0_CACHE_LINES = 16"
definition L0_LINE_SIZE :: nat where "L0_LINE_SIZE = 64"
definition L0_OFFSET_BITS :: nat where "L0_OFFSET_BITS = 6"
definition L0_TAG_SHIFT :: nat where "L0_TAG_SHIFT = 4 + L0_OFFSET_BITS"
definition L0_MAX_UNITS :: u32 where "L0_MAX_UNITS = 84"
definition V71_THREADS :: u32 where "V71_THREADS = 84"

lemmas l0_sizes = L0_CACHE_LINES_def L0_LINE_SIZE_def L0_OFFSET_BITS_def L0_TAG_SHIFT_def

record l0_line =
  l0_Tag :: u64
  l0_Valid :: bool
  l0_Dirty :: bool
  l0_Data :: "nat \<Rightarrow> u8"

record l0_cache =
  l0_Lines :: "nat \<Rightarrow> l0_line"
  l0_TotalAccesses :: u64
  l0_Hits :: u64
  l0_Misses :: u64
  l0_WriteThrough :: u64
  l0_Initialized :: bool

record l0_state =
  l0_Caches :: "nat \<Rightarrow> l0_cache option"
  l0_ActiveUnits :: u32

definition zero_l0_line :: l0_line where
  "zero_l0_line = \<lparr>l0_Tag = 0, l0_Valid = False, l0_Dirty = False, l0_Data = (\<lambda>_. 0)\<rparr>"

definition zero_l0_cache :: l0_cache where
  "zero_l0_cache = \<lparr>l0_Lines = (\<lambda>_. zero_l0_line), l0_TotalAccesses = 0, l0_Hits = 0, l0_Misses = 0,
     l0_WriteThrough = 0, l0_Initialized = False\<rparr>"

section \<open>Operations\<close>

definition L0CacheIndex :: "u64 \<Rightarrow> nat" where
  "L0CacheIndex PhysAddr = unat (ucast (drop_bit L0_OFFSET_BITS PhysAddr AND 0xF) :: u32)"

definition L0CacheTag :: "u64 \<Rightarrow> u64" where
  "L0CacheTag PhysAddr = drop_bit L0_TAG_SHIFT PhysAddr"

definition l0_offset :: "u64 \<Rightarrow> nat" where
  "l0_offset PhysAddr = unat (ucast (PhysAddr AND 0x3F) :: u32)"

text \<open>\<open>alloc u\<close> tells whether the pool allocation for unit \<open>u\<close> succeeds.\<close>

fun l0_init_units :: "(nat \<Rightarrow> bool) \<Rightarrow> nat list \<Rightarrow> l0_state \<Rightarrow> efi_status \<times> l0_state" where
  "l0_init_units alloc [] s = (EFI_SUCCESS, s)"
| "l0_init_units alloc (u # us) s =
     (if \<not> alloc u then (EFI_OUT_OF_RESOURCES, s)
      else l0_init_units alloc us
        (s\<lparr>l0_Caches := (l0_Caches s)(u \<mapsto> zero_l0_cache\<lparr>l0_Initialized := True\<rparr>)\<rparr>))"

definition L0CacheInit :: "(nat \<Rightarrow> bool) \<Rightarrow> u32 \<Rightarrow> efi_status \<times> l0_state" where
  "L0CacheInit alloc ActiveUnits =
     (let ActiveUnits = (if ActiveUnits > L0_MAX_UNITS then L0_MAX_UNITS else ActiveUnits)
      in l0_init_units alloc [0..<unat ActiveUnits]
           \<lparr>l0_Caches = (\<lambda>_. None), l0_ActiveUnits = ActiveUnits\<rparr>)"

definition L0CacheV71Init :: "(nat \<Rightarrow> bool) \<Rightarrow> efi_status \<times> l0_state" where
  "L0CacheV71Init alloc = L0CacheInit alloc V71_THREADS"

text \<open>The test every access starts with: the cache it works on, or not ready.\<close>

definition l0_ready :: "u32 \<Rightarrow> l0_state \<Rightarrow> l0_cache option" where
  "l0_ready UnitId s =
     (if UnitId \<ge> l0_ActiveUnits s then None
      else case l0_Caches s (unat UnitId) of
             None \<Rightarrow> None
           | Some c \<Rightarrow> if l0_Initialized c then Some c else None)"

definition l0_hit :: "u64 \<Rightarrow> l0_line \<Rightarrow> bool" where
  "l0_hit tag line \<longleftrightarrow> l0_Valid line \<and> l0_Tag line = tag"

definition l0_fill :: "u64 \<Rightarrow> l0_line \<Rightarrow> l0_line" where
  "l0_fill tag line = line\<lparr>l0_Tag := tag, l0_Valid := True, l0_Dirty := False, l0_Data := (\<lambda>_. 0)\<rparr>"

definition l0_fits :: "nat \<Rightarrow> u64 \<Rightarrow> bool" where
  "l0_fits offset Size \<longleftrightarrow> unat Size \<le> L0_LINE_SIZE - offset"

definition l0_copy_out :: "bool \<Rightarrow> nat \<Rightarrow> u64 \<Rightarrow> l0_line \<Rightarrow> u8 list option" where
  "l0_copy_out want offset Size line =
     (if want \<and> l0_fits offset Size
      then Some (map (\<lambda>i. l0_Data line (offset + i)) [0..<unat Size]) else None)"

definition l0_copy_in :: "(nat \<Rightarrow> u8) option \<Rightarrow> nat \<Rightarrow> u64 \<Rightarrow> l0_line \<Rightarrow> l0_line" where
  "l0_copy_in Data offset Size line =
     (case Data of
        None \<Rightarrow> line
      | Some d \<Rightarrow>
          if l0_fits offset Size
          then line\<lparr>l0_Data := (\<lambda>j. if offset \<le> j \<and> j < offset + unat Size then d (j - offset)
                 else l0_Data line j)\<rparr>
          else line)"

definition l0_store :: "u32 \<Rightarrow> l0_cache \<Rightarrow> l0_state \<Rightarrow> l0_state" where
  "l0_store UnitId c s = s\<lparr>l0_Caches := (l0_Caches s)(unat UnitId \<mapsto> c)\<rparr>"

text \<open>\<open>want\<close>: the caller passed a buffer.\<close>

definition L0CacheRead ::
  "u32 \<Rightarrow> u64 \<Rightarrow> bool \<Rightarrow> u64 \<Rightarrow> l0_state \<Rightarrow> efi_status \<times> u8 list option \<times> l0_state" where
  "L0CacheRead UnitId PhysAddr want Size s =
     (case l0_ready UnitId s of
        None \<Rightarrow> (EFI_NOT_READY, None, s)
      | Some c \<Rightarrow>
          (let c = c\<lparr>l0_TotalAccesses := l0_TotalAccesses c + 1\<rparr>;
               index = L0CacheIndex PhysAddr; tag = L0CacheTag PhysAddr; offset = l0_offset PhysAddr;
               line = l0_Lines c index
           in if l0_hit tag line
              then (EFI_SUCCESS, l0_copy_out want offset Size line,
                    l0_store UnitId (c\<lparr>l0_Hits := l0_Hits c + 1\<rparr>) s)
              else (EFI_WARN_STATUS_NOT_FOUND, l0_copy_out want offset Size (l0_fill tag line),
                    l0_store UnitId (c\<lparr>l0_Misses := l0_Misses c + 1,
                      l0_Lines := (l0_Lines c)(index := l0_fill tag line)\<rparr>) s)))"

definition L0CacheWrite ::
  "u32 \<Rightarrow> u64 \<Rightarrow> (nat \<Rightarrow> u8) option \<Rightarrow> u64 \<Rightarrow> l0_state \<Rightarrow> efi_status \<times> l0_state" where
  "L0CacheWrite UnitId PhysAddr Data Size s =
     (case l0_ready UnitId s of
        None \<Rightarrow> (EFI_NOT_READY, s)
      | Some c \<Rightarrow>
          (let c = c\<lparr>l0_TotalAccesses := l0_TotalAccesses c + 1, l0_WriteThrough := l0_WriteThrough c + 1\<rparr>;
               index = L0CacheIndex PhysAddr; tag = L0CacheTag PhysAddr; offset = l0_offset PhysAddr;
               line = l0_Lines c index;
               line = (if l0_hit tag line then l0_copy_in Data offset Size line
                       else l0_copy_in Data offset Size (l0_fill tag line))
           in (EFI_SUCCESS, l0_store UnitId (c\<lparr>l0_Lines := (l0_Lines c)(index := line)\<rparr>) s)))"

definition l0_invalidate_unit :: "u64 \<Rightarrow> l0_cache \<Rightarrow> l0_cache" where
  "l0_invalidate_unit PhysAddr c =
     (let index = L0CacheIndex PhysAddr; line = l0_Lines c index in
      if \<not> l0_Initialized c then c
      else if l0_hit (L0CacheTag PhysAddr) line
      then c\<lparr>l0_Lines := (l0_Lines c)(index := line\<lparr>l0_Valid := False\<rparr>)\<rparr> else c)"

definition L0CacheInvalidate :: "u64 \<Rightarrow> l0_state \<Rightarrow> l0_state" where
  "L0CacheInvalidate PhysAddr s =
     fold (\<lambda>u s. s\<lparr>l0_Caches := (l0_Caches s)(u := map_option (l0_invalidate_unit PhysAddr) (l0_Caches s u))\<rparr>)
       [0..<unat (l0_ActiveUnits s)] s"

section \<open>Statistics\<close>

text \<open>The operands of a hit rate; \<open>None\<close> where the code prints 0.0 instead of dividing.\<close>

definition l0_rate :: "u64 \<Rightarrow> u64 \<Rightarrow> (u64 \<times> u64) option" where
  "l0_rate hits accesses = (if accesses > 0 then Some (hits, accesses) else None)"

record l0_unit_line =
  ul_Unit :: u32
  ul_Accesses :: u64
  ul_Hits :: u64
  ul_Misses :: u64
  ul_Rate :: "(u64 \<times> u64) option"

record l0_report =
  lr_Units :: u32
  lr_Accesses :: u64
  lr_Hits :: u64
  lr_Misses :: u64
  lr_WriteThru :: u64
  lr_Rate :: "(u64 \<times> u64) option"

definition l0_unit_line :: "nat \<Rightarrow> l0_cache \<Rightarrow> l0_unit_line" where
  "l0_unit_line u c = \<lparr>ul_Unit = of_nat u, ul_Accesses = l0_TotalAccesses c, ul_Hits = l0_Hits c,
     ul_Misses = l0_Misses c, ul_Rate = l0_rate (l0_Hits c) (l0_TotalAccesses c)\<rparr>"

definition L0CachePrintStats :: "u32 \<Rightarrow> l0_state \<Rightarrow> (l0_unit_line \<times> u64) option" where
  "L0CachePrintStats UnitId s =
     (if UnitId \<ge> L0_MAX_UNITS then None
      else case l0_Caches s (unat UnitId) of
             None \<Rightarrow> None
           | Some c \<Rightarrow> Some (l0_unit_line (unat UnitId) c, l0_WriteThrough c))"

fun l0_totals :: "l0_state \<Rightarrow> nat list \<Rightarrow> l0_report \<Rightarrow> l0_report" where
  "l0_totals s [] t = t"
| "l0_totals s (u # us) t =
     l0_totals s us
       (case l0_Caches s u of
          None \<Rightarrow> t
        | Some c \<Rightarrow> t\<lparr>lr_Accesses := lr_Accesses t + l0_TotalAccesses c, lr_Hits := lr_Hits t + l0_Hits c,
            lr_Misses := lr_Misses t + l0_Misses c, lr_WriteThru := lr_WriteThru t + l0_WriteThrough c\<rparr>)"

definition zero_l0_report :: "u32 \<Rightarrow> l0_report" where
  "zero_l0_report units = \<lparr>lr_Units = units, lr_Accesses = 0, lr_Hits = 0, lr_Misses = 0, lr_WriteThru = 0,
     lr_Rate = None\<rparr>"

definition L0CachePrintAggregateStats :: "l0_state \<Rightarrow> l0_report" where
  "L0CachePrintAggregateStats s =
     (let t = l0_totals s [0..<unat (l0_ActiveUnits s)] (zero_l0_report (l0_ActiveUnits s))
      in t\<lparr>lr_Rate := l0_rate (lr_Hits t) (lr_Accesses t)\<rparr>)"

definition L0CacheV71PrintAggregateStats :: "l0_state \<Rightarrow> l0_unit_line list \<times> l0_report" where
  "L0CacheV71PrintAggregateStats s =
     (let t = l0_totals s [0..<unat V71_THREADS] (zero_l0_report V71_THREADS)
      in (List.map_filter (\<lambda>u. map_option (l0_unit_line u) (l0_Caches s u)) [0..<unat V71_THREADS],
          t\<lparr>lr_Rate := l0_rate (lr_Hits t) (lr_Accesses t)\<rparr>))"

section \<open>Addresses\<close>

definition same_line :: "u64 \<Rightarrow> u64 \<Rightarrow> bool" where
  "same_line a b \<longleftrightarrow> L0CacheIndex a = L0CacheIndex b \<and> L0CacheTag a = L0CacheTag b"

lemma l0_offset_nat: "l0_offset a = unat a mod 64"
proof -
  have m: "(0x3F :: u64) = mask 6" by (simp add: mask_eq_exp_minus_1)
  have "unat (a AND 0x3F) = unat a mod 64"
    unfolding m by (simp add: take_bit_eq_mask [symmetric] unsigned_take_bit_eq take_bit_eq_mod unat_mod_distrib)
  moreover have "unat (a AND 0x3F) < 2 ^ 32" by (simp add: calculation)
  ultimately show ?thesis by (simp add: l0_offset_def unsigned_ucast_eq take_bit_eq_mod)
qed

lemma l0_index_nat: "L0CacheIndex a = unat a div 64 mod 16"
proof -
  have m: "(0xF :: u64) = mask 4" by (simp add: mask_eq_exp_minus_1)
  have "unat (drop_bit 6 a AND 0xF) = unat a div 64 mod 16"
    unfolding m by (simp add: take_bit_eq_mask [symmetric] unsigned_take_bit_eq take_bit_eq_mod
        drop_bit_eq_div unat_mod_distrib unat_div_distrib)
  moreover have "unat (drop_bit 6 a AND 0xF) < 2 ^ 32" by (simp add: calculation)
  ultimately show ?thesis by (simp add: L0CacheIndex_def L0_OFFSET_BITS_def unsigned_ucast_eq take_bit_eq_mod)
qed

lemma l0_tag_nat: "unat (L0CacheTag a) = unat a div 1024"
  by (simp add: L0CacheTag_def L0_TAG_SHIFT_def L0_OFFSET_BITS_def drop_bit_eq_div unat_div_distrib)

lemma same_line_nat: "same_line a b \<longleftrightarrow> unat a div 64 = unat b div 64"
proof -
  have "unat a div 1024 = unat b div 1024 \<longleftrightarrow> unat a div 64 div 16 = unat b div 64 div 16"
    by (simp add: div_mult2_eq [symmetric])
  moreover have "L0CacheTag a = L0CacheTag b \<longleftrightarrow> unat a div 1024 = unat b div 1024"
    by (simp only: l0_tag_nat [symmetric] word_unat_eq_iff)
  ultimately show ?thesis
    unfolding same_line_def l0_index_nat by (metis div_mult_mod_eq)
qed

lemma l0_offset_bound: "l0_offset a < 64"
  by (simp add: l0_offset_nat)

lemma offset_add:
  assumes "l0_offset a + i < 64"
  shows "same_line a (a + of_nat i)" "l0_offset (a + of_nat i) = l0_offset a + i"
proof -
  obtain q r where a: "unat a = 64 * q + r" "r < 64"
    using that [of "unat a div 64" "unat a mod 64"] by simp
  have r: "r + i < 64" using assms a by (simp add: l0_offset_nat)
  have "q < 2 ^ 58" using a(1) unsigned_less [of a, where ?'a = nat] by simp
  then have le: "unat a + i < 2 ^ 64" using a(1) r by simp
  have i: "unat (of_nat i :: u64) = i" using r by (intro unat_of_nat_small) simp
  have s: "unat (a + of_nat i) = 64 * q + (r + i)"
    using a(1) i le by (simp add: unat_word_ariths)
  show "same_line a (a + of_nat i)" using r a by (simp add: same_line_nat s)
  show "l0_offset (a + of_nat i) = l0_offset a + i" using r a by (simp add: l0_offset_nat s)
qed

section \<open>What a unit holds for an address\<close>

definition l0_view :: "l0_state \<Rightarrow> nat \<Rightarrow> u64 \<Rightarrow> u8 option" where
  "l0_view s u a =
     (case l0_Caches s u of
        None \<Rightarrow> None
      | Some c \<Rightarrow>
          (let line = l0_Lines c (L0CacheIndex a) in
           if l0_hit (L0CacheTag a) line then Some (l0_Data line (l0_offset a)) else None))"

text \<open>The byte of a line at an address, and replacing the line of a unit.\<close>

definition line_byte :: "l0_line \<Rightarrow> u64 \<Rightarrow> u8 option" where
  "line_byte line a = (if l0_hit (L0CacheTag a) line then Some (l0_Data line (l0_offset a)) else None)"

lemma l0_view_store:
  "l0_view (l0_store u (c\<lparr>l0_Lines := (l0_Lines c)(L0CacheIndex a := line)\<rparr>) s) v b =
     (if v \<noteq> unat u then l0_view s v b
      else if L0CacheIndex b = L0CacheIndex a then line_byte line b
      else line_byte (l0_Lines c (L0CacheIndex b)) b)"
  by (simp add: l0_view_def l0_store_def line_byte_def Let_def)

lemma l0_view_ready:
  assumes "l0_ready u s = Some c"
  shows "l0_view s (unat u) b = line_byte (l0_Lines c (L0CacheIndex b)) b"
  using assms
  by (auto simp: l0_ready_def l0_view_def line_byte_def Let_def split: if_splits option.splits)

lemma line_byte_same: "same_line a b \<Longrightarrow> l0_hit (L0CacheTag a) line \<Longrightarrow>
    line_byte line b = Some (l0_Data line (l0_offset b))"
  by (simp add: line_byte_def same_line_def)

lemma line_byte_other:
  "L0CacheIndex b = L0CacheIndex a \<Longrightarrow> \<not> same_line a b \<Longrightarrow> l0_hit (L0CacheTag a) line \<Longrightarrow>
     line_byte line b = None"
  by (auto simp: line_byte_def same_line_def l0_hit_def)

lemma hit_fill [simp]: "l0_hit tag (l0_fill tag line)"
  by (simp add: l0_hit_def l0_fill_def)

lemma hit_data [simp]: "l0_hit tag (line\<lparr>l0_Data := d\<rparr>) = l0_hit tag line"
  by (simp add: l0_hit_def)

lemma hit_copy_in [simp]: "l0_hit tag (l0_copy_in d off n line) = l0_hit tag line"
  by (simp add: l0_hit_def l0_copy_in_def split: option.splits)

text \<open>The line an access leaves behind: the one it found on a hit, an all-zero one on a miss.\<close>

definition l0_touched :: "u64 \<Rightarrow> l0_line \<Rightarrow> l0_line" where
  "l0_touched tag line = (if l0_hit tag line then line else l0_fill tag line)"

lemma hit_touched [simp]: "l0_hit tag (l0_touched tag line)"
  by (simp add: l0_touched_def)

lemma touched_data: "l0_Data (l0_touched tag line) j = (if l0_hit tag line then l0_Data line j else 0)"
  by (simp add: l0_touched_def l0_fill_def)

lemma l0_write_cases:
  assumes "L0CacheWrite u a d n s = (EFI_SUCCESS, s')"
  obtains c where "l0_ready u s = Some c"
    "l0_view s' = l0_view (l0_store u (c\<lparr>l0_Lines := (l0_Lines c)(L0CacheIndex a :=
        l0_copy_in d (l0_offset a) n (l0_touched (L0CacheTag a) (l0_Lines c (L0CacheIndex a))))\<rparr>) s)"
proof -
  obtain c where c: "l0_ready u s = Some c"
    using assms by (cases "l0_ready u s") (simp_all add: L0CacheWrite_def)
  show ?thesis
    by (rule that [OF c])
       (use assms in \<open>auto simp: fun_eq_iff L0CacheWrite_def c Let_def l0_view_def l0_store_def
          l0_touched_def\<close>)
qed

lemma l0_read_cases:
  assumes "L0CacheRead u a w n s = (st, out, s')" "st \<noteq> EFI_NOT_READY"
  obtains c where "l0_ready u s = Some c"
    "l0_view s' = l0_view (l0_store u (c\<lparr>l0_Lines := (l0_Lines c)(L0CacheIndex a :=
        l0_touched (L0CacheTag a) (l0_Lines c (L0CacheIndex a)))\<rparr>) s)"
    "out = l0_copy_out w (l0_offset a) n (l0_touched (L0CacheTag a) (l0_Lines c (L0CacheIndex a)))"
    "st = (if l0_hit (L0CacheTag a) (l0_Lines c (L0CacheIndex a)) then EFI_SUCCESS
       else EFI_WARN_STATUS_NOT_FOUND)"
proof -
  obtain c where c: "l0_ready u s = Some c"
    using assms by (cases "l0_ready u s") (simp_all add: L0CacheRead_def)
  show ?thesis
    by (rule that [OF c])
       (use assms in \<open>auto simp: fun_eq_iff L0CacheRead_def c Let_def l0_view_def l0_store_def l0_touched_def
          split: if_splits\<close>)
qed

lemma l0_invalidate_view:
  "l0_view (L0CacheInvalidate a s) u b =
     (if u < unat (l0_ActiveUnits s) \<and> same_line a b \<and>
         (\<exists>c. l0_Caches s u = Some c \<and> l0_Initialized c) then None else l0_view s u b)"
proof -
  have caches: "l0_Caches (fold (\<lambda>u s. s\<lparr>l0_Caches := (l0_Caches s)(u := map_option
      (l0_invalidate_unit a) (l0_Caches s u))\<rparr>) us s) v =
      (if v \<in> set us then map_option (l0_invalidate_unit a) (l0_Caches s v) else l0_Caches s v)"
    if "distinct us" for us s v
    using that by (induction us arbitrary: s) auto
  have "l0_Caches (L0CacheInvalidate a s) u = (if u < unat (l0_ActiveUnits s)
      then map_option (l0_invalidate_unit a) (l0_Caches s u) else l0_Caches s u)"
    unfolding L0CacheInvalidate_def by (subst caches) auto
  then show ?thesis
    by (auto simp: l0_view_def l0_invalidate_unit_def same_line_def l0_hit_def Let_def
        split: option.splits)
qed

section \<open>Counters\<close>

datatype l0_op =
    L0Read u32 u64 bool u64
  | L0Write u32 u64 "(nat \<Rightarrow> u8) option" u64
  | L0Invalidate u64

fun l0_step :: "l0_op \<Rightarrow> l0_state \<Rightarrow> l0_state" where
  "l0_step (L0Read u a w n) s = snd (snd (L0CacheRead u a w n s))"
| "l0_step (L0Write u a d n) s = snd (L0CacheWrite u a d n s)"
| "l0_step (L0Invalidate a) s = L0CacheInvalidate a s"

definition l0_run :: "l0_op list \<Rightarrow> l0_state \<Rightarrow> l0_state" where
  "l0_run ops s = fold l0_step ops s"

definition l0_cache_ok :: "l0_cache \<Rightarrow> bool" where
  "l0_cache_ok c \<longleftrightarrow> l0_TotalAccesses c = l0_Hits c + l0_Misses c + l0_WriteThrough c \<and>
     (\<forall>i. \<not> l0_Dirty (l0_Lines c i))"

definition l0_ok :: "l0_state \<Rightarrow> bool" where
  "l0_ok s \<longleftrightarrow> (\<forall>u c. l0_Caches s u = Some c \<longrightarrow> l0_cache_ok c)"

lemma l0_ready_ok: "l0_ok s \<Longrightarrow> l0_ready u s = Some c \<Longrightarrow> l0_cache_ok c"
  by (auto simp: l0_ready_def l0_ok_def split: if_splits option.splits)

lemma l0_store_ok: "l0_ok s \<Longrightarrow> l0_cache_ok c \<Longrightarrow> l0_ok (l0_store u c s)"
  by (simp add: l0_ok_def l0_store_def)

lemma dirty_simps [simp]:
  "l0_Dirty (l0_copy_in d off n line) = l0_Dirty line" "\<not> l0_Dirty (l0_fill tag line)"
  by (simp_all add: l0_copy_in_def l0_fill_def split: option.splits)

lemma l0_step_ok:
  assumes "l0_ok s"
  shows "l0_ok (l0_step op s)"
proof (cases op)
  case (L0Read u a w n)
  show ?thesis
  proof (cases "l0_ready u s")
    case (Some c)
    then show ?thesis
      using l0_ready_ok [OF assms Some] assms
      by (auto simp: L0Read L0CacheRead_def Let_def l0_cache_ok_def intro!: l0_store_ok)
  qed (use assms in \<open>simp add: L0Read L0CacheRead_def\<close>)
next
  case (L0Write u a d n)
  show ?thesis
  proof (cases "l0_ready u s")
    case (Some c)
    then show ?thesis
      using l0_ready_ok [OF assms Some] assms
      by (auto simp: L0Write L0CacheWrite_def Let_def l0_cache_ok_def intro!: l0_store_ok)
  qed (use assms in \<open>simp add: L0Write L0CacheWrite_def\<close>)
next
  case (L0Invalidate a)
  have "l0_cache_ok (l0_invalidate_unit a c)" if "l0_cache_ok c" for c
    using that by (simp add: l0_invalidate_unit_def l0_cache_ok_def Let_def)
  then have "l0_ok (s\<lparr>l0_Caches := (l0_Caches s)(u := map_option (l0_invalidate_unit a) (l0_Caches s u))\<rparr>)"
    if "l0_ok s" for u s
    using that by (auto simp: l0_ok_def)
  then have "l0_ok (fold (\<lambda>u s. s\<lparr>l0_Caches := (l0_Caches s)(u := map_option
      (l0_invalidate_unit a) (l0_Caches s u))\<rparr>) us s)" if "l0_ok s" for us s
    using that by (induction us arbitrary: s) auto
  with assms show ?thesis by (simp add: L0Invalidate L0CacheInvalidate_def)
qed

lemma l0_init_units_ok: "l0_ok s \<Longrightarrow> l0_ok (snd (l0_init_units alloc us s))"
proof (induction us arbitrary: s)
  case (Cons u us)
  have "l0_ok (s\<lparr>l0_Caches := (l0_Caches s)(u \<mapsto> zero_l0_cache\<lparr>l0_Initialized := True\<rparr>)\<rparr>)"
    using Cons.prems by (simp add: l0_ok_def l0_cache_ok_def zero_l0_cache_def zero_l0_line_def)
  with Cons show ?case by simp
qed simp

section \<open>Totals\<close>

text \<open>A counter of a unit, 0 when the unit does not exist.\<close>

definition l0_count :: "(l0_cache \<Rightarrow> u64) \<Rightarrow> l0_state \<Rightarrow> nat \<Rightarrow> u64" where
  "l0_count f s u = (case l0_Caches s u of None \<Rightarrow> 0 | Some c \<Rightarrow> f c)"

lemma l0_totals_sums:
  "lr_Accesses (l0_totals s us t) = lr_Accesses t + (\<Sum>u\<leftarrow>us. l0_count l0_TotalAccesses s u)"
  "lr_Hits (l0_totals s us t) = lr_Hits t + (\<Sum>u\<leftarrow>us. l0_count l0_Hits s u)"
  "lr_Misses (l0_totals s us t) = lr_Misses t + (\<Sum>u\<leftarrow>us. l0_count l0_Misses s u)"
  "lr_WriteThru (l0_totals s us t) = lr_WriteThru t + (\<Sum>u\<leftarrow>us. l0_count l0_WriteThrough s u)"
  "lr_Units (l0_totals s us t) = lr_Units t" "lr_Rate (l0_totals s us t) = lr_Rate t"
  by (induction us arbitrary: t) (auto simp: l0_count_def split: option.splits)

text \<open>Only the active units exist, and all that exist are initialised.\<close>

definition l0_domain :: "l0_state \<Rightarrow> bool" where
  "l0_domain s \<longleftrightarrow> l0_ActiveUnits s \<le> L0_MAX_UNITS \<and>
     (\<forall>u c. l0_Caches s u = Some c \<longrightarrow> u < unat (l0_ActiveUnits s) \<and> l0_Initialized c)"

fun l0_accepted :: "l0_state \<Rightarrow> l0_op \<Rightarrow> bool" where
  "l0_accepted s (L0Read u a w n) \<longleftrightarrow> l0_ready u s \<noteq> None"
| "l0_accepted s (L0Write u a d n) \<longleftrightarrow> l0_ready u s \<noteq> None"
| "l0_accepted s (L0Invalidate a) \<longleftrightarrow> False"

lemma l0_ready_store:
  assumes "l0_ready u s = Some c" "l0_Initialized c'"
  shows "l0_ready v (l0_store u c' s) \<noteq> None \<longleftrightarrow> l0_ready v s \<noteq> None"
  using assms by (auto simp: l0_ready_def l0_store_def split: if_splits option.splits)

lemma l0_invalidate_unit_fields [simp]:
  "l0_Initialized (l0_invalidate_unit a c) = l0_Initialized c"
  "l0_TotalAccesses (l0_invalidate_unit a c) = l0_TotalAccesses c"
  by (simp_all add: l0_invalidate_unit_def Let_def)

lemma l0_invalidate_fields:
  "l0_ActiveUnits (L0CacheInvalidate a s) = l0_ActiveUnits s"
  "l0_Caches (L0CacheInvalidate a s) u = (if u < unat (l0_ActiveUnits s)
     then map_option (l0_invalidate_unit a) (l0_Caches s u) else l0_Caches s u)"
proof -
  let ?f = "\<lambda>u s. s\<lparr>l0_Caches := (l0_Caches s)(u := map_option (l0_invalidate_unit a) (l0_Caches s u))\<rparr>"
  have a: "l0_ActiveUnits (fold ?f us s) = l0_ActiveUnits s" for us s
    by (induction us arbitrary: s) auto
  have c: "l0_Caches (fold ?f us s) v = (if v \<in> set us then map_option (l0_invalidate_unit a) (l0_Caches s v)
      else l0_Caches s v)" if "distinct us" for us s v
    using that by (induction us arbitrary: s) auto
  show "l0_ActiveUnits (L0CacheInvalidate a s) = l0_ActiveUnits s"
    by (simp add: L0CacheInvalidate_def a)
  show "l0_Caches (L0CacheInvalidate a s) u = (if u < unat (l0_ActiveUnits s)
      then map_option (l0_invalidate_unit a) (l0_Caches s u) else l0_Caches s u)"
    unfolding L0CacheInvalidate_def by (subst c) auto
qed

text \<open>A step keeps the units there are, and counts an accepted access in its unit.\<close>

lemma l0_store_counts:
  assumes "l0_domain s" "l0_ready u s = Some c" "l0_Initialized c'"
    "l0_TotalAccesses c' = l0_TotalAccesses c + 1"
  shows "l0_domain (l0_store u c' s)" "l0_ActiveUnits (l0_store u c' s) = l0_ActiveUnits s"
    "\<And>v. l0_ready v (l0_store u c' s) \<noteq> None \<longleftrightarrow> l0_ready v s \<noteq> None"
    "(\<Sum>v = 0..<unat (l0_ActiveUnits s). l0_count l0_TotalAccesses (l0_store u c' s) v) =
     (\<Sum>v = 0..<unat (l0_ActiveUnits s). l0_count l0_TotalAccesses s v) + 1"
proof -
  have u: "unat u < unat (l0_ActiveUnits s)" "l0_Caches s (unat u) = Some c"
    using assms(2) by (auto simp: l0_ready_def word_less_nat_alt not_le split: if_splits option.splits)
  show "l0_domain (l0_store u c' s)" "l0_ActiveUnits (l0_store u c' s) = l0_ActiveUnits s"
    using assms(1,3) u by (auto simp: l0_domain_def l0_store_def)
  show "l0_ready v (l0_store u c' s) \<noteq> None \<longleftrightarrow> l0_ready v s \<noteq> None" for v
    by (rule l0_ready_store [OF assms(2,3)])
  let ?n = "unat (l0_ActiveUnits s)"
  have "(\<Sum>v\<in>{0..<?n} - {unat u}. l0_count l0_TotalAccesses (l0_store u c' s) v) =
      (\<Sum>v\<in>{0..<?n} - {unat u}. l0_count l0_TotalAccesses s v)"
    by (rule sum.cong) (auto simp: l0_count_def l0_store_def)
  then show "(\<Sum>v = 0..<?n. l0_count l0_TotalAccesses (l0_store u c' s) v) =
      (\<Sum>v = 0..<?n. l0_count l0_TotalAccesses s v) + 1"
    using u assms(4)
      sum.remove [of "{0..<?n}" "unat u" "l0_count l0_TotalAccesses (l0_store u c' s)"]
      sum.remove [of "{0..<?n}" "unat u" "l0_count l0_TotalAccesses s"]
    by (simp add: l0_count_def [of _ _ "unat u"] l0_store_def ac_simps)
qed

lemma l0_accepted_step:
  assumes "l0_accepted s op"
  shows "\<exists>u c c'. l0_ready u s = Some c \<and> l0_step op s = l0_store u c' s \<and> l0_Initialized c' \<and>
    l0_TotalAccesses c' = l0_TotalAccesses c + 1"
proof -
  have init: "l0_Initialized c" if "l0_ready u s = Some c" for u c
    using that by (auto simp: l0_ready_def split: if_splits option.splits)
  show ?thesis
  proof (cases op)
    case (L0Read u a w n)
    with assms obtain c where c: "l0_ready u s = Some c" by auto
    show ?thesis
      by (rule exI [of _ u], rule exI [of _ c])
         (auto simp: L0Read L0CacheRead_def c Let_def init [OF c] intro: exI)
  next
    case (L0Write u a d n)
    with assms obtain c where c: "l0_ready u s = Some c" by auto
    show ?thesis
      by (rule exI [of _ u], rule exI [of _ c])
         (auto simp: L0Write L0CacheWrite_def c Let_def init [OF c] intro: exI)
  qed (use assms in simp)
qed

lemma l0_step_counts:
  assumes "l0_domain s"
  shows "l0_domain (l0_step op s)" "l0_ActiveUnits (l0_step op s) = l0_ActiveUnits s"
    "\<And>v. l0_ready v (l0_step op s) \<noteq> None \<longleftrightarrow> l0_ready v s \<noteq> None"
    "(\<Sum>v = 0..<unat (l0_ActiveUnits s). l0_count l0_TotalAccesses (l0_step op s) v) =
     (\<Sum>v = 0..<unat (l0_ActiveUnits s). l0_count l0_TotalAccesses s v) + (if l0_accepted s op then 1 else 0)"
proof -
  have "l0_domain (l0_step op s) \<and> l0_ActiveUnits (l0_step op s) = l0_ActiveUnits s \<and>
    (\<forall>v. l0_ready v (l0_step op s) \<noteq> None \<longleftrightarrow> l0_ready v s \<noteq> None) \<and>
    (\<Sum>v = 0..<unat (l0_ActiveUnits s). l0_count l0_TotalAccesses (l0_step op s) v) =
     (\<Sum>v = 0..<unat (l0_ActiveUnits s). l0_count l0_TotalAccesses s v) + (if l0_accepted s op then 1 else 0)"
  proof (cases "l0_accepted s op")
    case True
    then obtain u c c' where "l0_ready u s = Some c" "l0_step op s = l0_store u c' s" "l0_Initialized c'"
      "l0_TotalAccesses c' = l0_TotalAccesses c + 1"
      using l0_accepted_step by blast
    with l0_store_counts [OF assms this(1,3,4)] True show ?thesis by simp
  next
    case False
    show ?thesis
    proof (cases op)
      case (L0Invalidate a)
      have "l0_count l0_TotalAccesses (L0CacheInvalidate a s) v = l0_count l0_TotalAccesses s v" for v
        by (simp add: l0_count_def l0_invalidate_fields split: option.splits)
      moreover have "l0_Caches (L0CacheInvalidate a s) u = map_option (l0_invalidate_unit a) (l0_Caches s u)" for u
        using assms by (cases "l0_Caches s u") (auto simp: l0_invalidate_fields l0_domain_def)
      ultimately show ?thesis
        using assms
        by (auto simp: L0Invalidate l0_domain_def l0_ready_def l0_invalidate_fields(1) split: option.splits if_splits)
    qed (use False assms in \<open>auto simp: L0CacheRead_def L0CacheWrite_def\<close>)
  qed
  then show "l0_domain (l0_step op s)" "l0_ActiveUnits (l0_step op s) = l0_ActiveUnits s"
    "\<And>v. l0_ready v (l0_step op s) \<noteq> None \<longleftrightarrow> l0_ready v s \<noteq> None"
    "(\<Sum>v = 0..<unat (l0_ActiveUnits s). l0_count l0_TotalAccesses (l0_step op s) v) =
     (\<Sum>v = 0..<unat (l0_ActiveUnits s). l0_count l0_TotalAccesses s v) + (if l0_accepted s op then 1 else 0)"
    by blast+
qed

lemma l0_run_totals:
  assumes "l0_domain s"
  shows "l0_domain (l0_run ops s) \<and> l0_ActiveUnits (l0_run ops s) = l0_ActiveUnits s \<and>
    (\<Sum>v = 0..<unat (l0_ActiveUnits s). l0_count l0_TotalAccesses (l0_run ops s) v) =
     (\<Sum>v = 0..<unat (l0_ActiveUnits s). l0_count l0_TotalAccesses s v) + of_nat (length (filter (l0_accepted s) ops))"
  using assms
proof (induction ops arbitrary: s)
  case (Cons op ops)
  note step = l0_step_counts [where op = op, OF Cons.prems]
  have "l0_accepted (l0_step op s) = l0_accepted s"
  proof
    fix op'
    show "l0_accepted (l0_step op s) op' = l0_accepted s op'" by (cases op') (use step(3) in auto)
  qed
  with Cons.IH [OF step(1)] step(2,4) show ?case by (simp add: l0_run_def ac_simps)
qed (simp add: l0_run_def)

lemma l0_init_units_domain:
  assumes "l0_domain s" "\<forall>u\<in>set us. u < unat (l0_ActiveUnits s)" "\<And>u. l0_count l0_TotalAccesses s u = 0"
  shows "l0_domain (snd (l0_init_units alloc us s)) \<and>
    (\<forall>u. l0_count l0_TotalAccesses (snd (l0_init_units alloc us s)) u = 0)"
  using assms
proof (induction us arbitrary: s)
  case (Cons u us)
  let ?s = "s\<lparr>l0_Caches := (l0_Caches s)(u \<mapsto> zero_l0_cache\<lparr>l0_Initialized := True\<rparr>)\<rparr>"
  have "l0_domain ?s" "l0_count l0_TotalAccesses ?s v = 0" for v
    using Cons.prems by (auto simp: l0_domain_def l0_count_def zero_l0_cache_def)
  with Cons show ?case by simp
qed simp

lemma l0_init_domain:
  "l0_domain (snd (L0CacheInit alloc n))" "l0_count l0_TotalAccesses (snd (L0CacheInit alloc n)) u = 0"
proof -
  let ?n = "if n > L0_MAX_UNITS then L0_MAX_UNITS else n"
  let ?s = "\<lparr>l0_Caches = (\<lambda>_. None), l0_ActiveUnits = ?n\<rparr>"
  have "l0_domain ?s" by (auto simp: l0_domain_def)
  then have "l0_domain (snd (l0_init_units alloc [0..<unat ?n] ?s)) \<and>
      (\<forall>u. l0_count l0_TotalAccesses (snd (l0_init_units alloc [0..<unat ?n] ?s)) u = 0)"
    by (rule l0_init_units_domain) (simp_all add: l0_count_def)
  then show "l0_domain (snd (L0CacheInit alloc n))"
    "l0_count l0_TotalAccesses (snd (L0CacheInit alloc n)) u = 0"
    by (simp_all add: L0CacheInit_def Let_def)
qed

text \<open>Summing over all 84 slots or over the active ones is the same.\<close>

lemma l0_sum_active:
  assumes "l0_domain s"
  shows "(\<Sum>u = 0..<unat V71_THREADS. l0_count f s u) = (\<Sum>u = 0..<unat (l0_ActiveUnits s). l0_count f s u)"
proof -
  have le: "unat (l0_ActiveUnits s) \<le> unat V71_THREADS"
    using assms by (simp add: l0_domain_def V71_THREADS_def L0_MAX_UNITS_def word_le_nat_alt)
  have "l0_count f s u = 0" if "u \<notin> {0..<unat (l0_ActiveUnits s)}" for u
    using assms that by (auto simp: l0_domain_def l0_count_def split: option.splits)
  then show ?thesis using le by (intro sum.mono_neutral_right) auto
qed

section \<open>Properties\<close>

text \<open>C31: a write that fits its line is read back: afterwards the unit holds the written bytes,
  keeps the other bytes of the line it held, and reads as zero those it did not hold; a line
  that shared the slot is gone, and no other unit sees the write (its copy of the line, if it
  has one, is stale).\<close>

theorem l0_write_view:
  assumes "L0CacheWrite u a (Some d) n s = (EFI_SUCCESS, s')" "l0_offset a + unat n \<le> 64"
  shows "l0_view s' v b =
    (if v \<noteq> unat u then l0_view s v b
     else if same_line a b then
       (if l0_offset a \<le> l0_offset b \<and> l0_offset b < l0_offset a + unat n
        then Some (d (l0_offset b - l0_offset a))
        else case l0_view s v b of None \<Rightarrow> Some 0 | Some x \<Rightarrow> Some x)
     else if L0CacheIndex b = L0CacheIndex a then None
     else l0_view s v b)"
proof -
  obtain c where c: "l0_ready u s = Some c"
    and view: "l0_view s' = l0_view (l0_store u (c\<lparr>l0_Lines := (l0_Lines c)(L0CacheIndex a :=
        l0_copy_in (Some d) (l0_offset a) n (l0_touched (L0CacheTag a) (l0_Lines c (L0CacheIndex a))))\<rparr>) s)"
    by (rule l0_write_cases [OF assms(1)])
  have fits: "l0_fits (l0_offset a) n" using assms(2) by (simp add: l0_fits_def L0_LINE_SIZE_def)
  let ?line = "l0_copy_in (Some d) (l0_offset a) n (l0_touched (L0CacheTag a) (l0_Lines c (L0CacheIndex a)))"
  have old: "l0_view s (unat u) b = line_byte (l0_Lines c (L0CacheIndex b)) b" for b
    by (rule l0_view_ready [OF c])
  have byte: "line_byte ?line b = Some (if l0_offset a \<le> l0_offset b \<and> l0_offset b < l0_offset a + unat n
        then d (l0_offset b - l0_offset a)
        else case l0_view s (unat u) b of None \<Rightarrow> 0 | Some x \<Rightarrow> x)" if "same_line a b"
    using that fits
    by (subst line_byte_same [OF that])
       (auto simp: old l0_copy_in_def touched_data line_byte_def same_line_def)
  show ?thesis
    using byte line_byte_other [of b a ?line]
    by (auto simp: view l0_view_store old same_line_def split: option.splits)
qed

theorem l0_write_view_witness:
  "fst (L0CacheWrite 1 0x1004 (Some (\<lambda>_. 7)) 2 (snd (L0CacheInit (\<lambda>_. True) 2))) = EFI_SUCCESS \<and>
   (let s' = snd (L0CacheWrite 1 0x1004 (Some (\<lambda>_. 7)) 2 (snd (L0CacheInit (\<lambda>_. True) 2)))
    in l0_view s' 1 0x1005 = Some 7 \<and> l0_view s' 0 0x1005 = None \<and> l0_view s' 1 0x1006 = Some 0)"
proof -
  let ?s = "snd (L0CacheInit (\<lambda>_. True) 2)"
  have r: "fst (L0CacheWrite 1 0x1004 (Some (\<lambda>_. 7)) 2 ?s) = EFI_SUCCESS"
    by (simp add: L0CacheInit_def L0_MAX_UNITS_def upt_rec L0CacheWrite_def l0_ready_def Let_def
        word_le_nat_alt)
  then obtain s' where w: "L0CacheWrite 1 0x1004 (Some (\<lambda>_. 7)) 2 ?s = (EFI_SUCCESS, s')"
    by (metis prod.collapse)
  have v: "l0_view ?s i b = None" for i b
    by (simp add: L0CacheInit_def L0_MAX_UNITS_def upt_rec l0_view_def zero_l0_cache_def
        zero_l0_line_def l0_hit_def)
  note n = l0_offset_nat same_line_nat
  from l0_write_view [OF w, of 1 "0x1005"] l0_write_view [OF w, of 0 "0x1005"]
    l0_write_view [OF w, of 1 "0x1006"] w
  show ?thesis by (simp add: v n Let_def)
qed

lemma l0_read_miss_refills:
  assumes "L0CacheRead u a True n s = (st, out, s')" "l0_ready u s = Some c"
    "\<not> l0_hit (L0CacheTag a) (l0_Lines c (L0CacheIndex a))" "l0_fits (l0_offset a) n"
  shows "fst (L0CacheRead u a True n s') = EFI_SUCCESS"
    "fst (snd (L0CacheRead u a True n s')) = Some (replicate (unat n) 0)"
proof -
  note c = assms(2)
  let ?c = "c\<lparr>l0_TotalAccesses := l0_TotalAccesses c + 1, l0_Misses := l0_Misses c + 1,
      l0_Lines := (l0_Lines c)(L0CacheIndex a := l0_fill (L0CacheTag a) (l0_Lines c (L0CacheIndex a)))\<rparr>"
  have "s' = l0_store u ?c s"
    using assms(1,3) by (auto simp: L0CacheRead_def c Let_def)
  then have "l0_ready u s' = Some ?c"
    using c by (auto simp: l0_ready_def l0_store_def split: if_splits option.splits)
  then show "fst (L0CacheRead u a True n s') = EFI_SUCCESS"
    "fst (snd (L0CacheRead u a True n s')) = Some (replicate (unat n) 0)"
    using assms(4) by (simp_all add: L0CacheRead_def Let_def l0_copy_out_def l0_fill_def l0_hit_def
        map_replicate_const)
qed

text \<open>A read that fits its line returns the bytes the unit holds and changes nothing it
  holds. A miss is different from what a cache promises: it does not fetch the line, but
  returns zeros with the not-found warning and marks an all-zero line as valid, so that the
  same read succeeds the second time and returns zeros whatever the memory contains.\<close>

theorem l0_read_view:
  assumes "L0CacheRead u a True n s = (st, out, s')" "st \<noteq> EFI_NOT_READY"
    "l0_offset a + unat n \<le> 64"
  shows "if l0_view s (unat u) a \<noteq> None
    then st = EFI_SUCCESS \<and> l0_view s' = l0_view s \<and>
      out = Some (map (\<lambda>i. the (l0_view s (unat u) (a + of_nat i))) [0..<unat n])
    else st = EFI_WARN_STATUS_NOT_FOUND \<and> out = Some (replicate (unat n) 0) \<and>
      fst (L0CacheRead u a True n s') = EFI_SUCCESS \<and>
      fst (snd (L0CacheRead u a True n s')) = Some (replicate (unat n) 0)"
proof -
  obtain c where c: "l0_ready u s = Some c"
    and view: "l0_view s' = l0_view (l0_store u (c\<lparr>l0_Lines := (l0_Lines c)(L0CacheIndex a :=
        l0_touched (L0CacheTag a) (l0_Lines c (L0CacheIndex a)))\<rparr>) s)"
    and out: "out = l0_copy_out True (l0_offset a) n
        (l0_touched (L0CacheTag a) (l0_Lines c (L0CacheIndex a)))"
    and st: "st = (if l0_hit (L0CacheTag a) (l0_Lines c (L0CacheIndex a)) then EFI_SUCCESS
       else EFI_WARN_STATUS_NOT_FOUND)"
    by (rule l0_read_cases [OF assms(1,2)])
  have fits: "l0_fits (l0_offset a) n" using assms(3) by (simp add: l0_fits_def L0_LINE_SIZE_def)
  have old: "l0_view s (unat u) b = line_byte (l0_Lines c (L0CacheIndex b)) b" for b
    by (rule l0_view_ready [OF c])
  show ?thesis
  proof (cases "l0_hit (L0CacheTag a) (l0_Lines c (L0CacheIndex a))")
    case True
    have "the (l0_view s (unat u) (a + of_nat i)) =
        l0_Data (l0_Lines c (L0CacheIndex a)) (l0_offset a + i)" if "i < unat n" for i
    proof -
      have near: "same_line a (a + of_nat i)" "l0_offset (a + of_nat i) = l0_offset a + i"
        using offset_add [of a i] that assms(3) by simp_all
      then have "L0CacheIndex (a + of_nat i) = L0CacheIndex a" by (simp add: same_line_def)
      then show ?thesis using line_byte_same [OF near(1) True] near(2) by (simp add: old)
    qed
    then have "out = Some (map (\<lambda>i. the (l0_view s (unat u) (a + of_nat i))) [0..<unat n])"
      using fits True by (simp add: out l0_copy_out_def l0_touched_def)
    moreover have "l0_view s' = l0_view s"
      using True by (auto simp: fun_eq_iff view l0_view_store old l0_touched_def simp del: fun_upd_triv)
    ultimately show ?thesis using True by (simp add: st old line_byte_def)
  next
    case False
    have z: "out = Some (replicate (unat n) 0)"
      using fits False by (simp add: out l0_copy_out_def touched_data map_replicate_const)
    note again = l0_read_miss_refills [OF assms(1) c False fits]
    show ?thesis using z again False by (simp add: st old line_byte_def)
  qed
qed

theorem l0_read_view_witness:
  "fst (snd (L0CacheRead 0 0x2008 True 2 (snd (snd (L0CacheRead 0 0x2008 True 2
     (snd (L0CacheInit (\<lambda>_. True) 1))))))) = Some [0, 0]"
proof -
  let ?s = "snd (L0CacheInit (\<lambda>_. True) 1)"
  have v: "l0_view ?s i b = None" for i b
    by (simp add: L0CacheInit_def L0_MAX_UNITS_def upt_rec l0_view_def zero_l0_cache_def
        zero_l0_line_def l0_hit_def)
  have r: "fst (L0CacheRead 0 0x2008 True 2 ?s) \<noteq> EFI_NOT_READY"
    by (simp add: L0CacheInit_def L0_MAX_UNITS_def upt_rec L0CacheRead_def l0_ready_def Let_def)
  obtain st out s' where e: "L0CacheRead 0 0x2008 True 2 ?s = (st, out, s')" using prod_cases3 by blast
  have two: "replicate 2 (0 :: u8) = [0, 0]" by (simp add: numeral_2_eq_2)
  have "l0_offset 0x2008 + unat (2 :: u64) \<le> 64" by (simp add: l0_offset_nat)
  from l0_read_view [OF e _ this] r v [of 0 "0x2008"] show ?thesis
    by (simp add: e two)
qed

text \<open>Whatever reads, writes and invalidations follow initialisation, every access of a unit is
  counted once, as a hit, a miss or a write (counters wrap together at 64 bits), and no line is
  ever dirty: the caches are write-through.\<close>

theorem l0_run_counts:
  assumes "l0_Caches (l0_run ops (snd (L0CacheInit alloc n))) u = Some c"
  shows "l0_TotalAccesses c = l0_Hits c + l0_Misses c + l0_WriteThrough c \<and>
    (\<forall>i. \<not> l0_Dirty (l0_Lines c i))"
proof -
  have "l0_ok (snd (L0CacheInit alloc n))"
    unfolding L0CacheInit_def Let_def by (rule l0_init_units_ok) (simp add: l0_ok_def)
  then have "l0_ok (l0_run ops (snd (L0CacheInit alloc n)))"
    unfolding l0_run_def by (induction ops rule: rev_induct) (simp_all add: l0_step_ok)
  with assms show ?thesis by (simp add: l0_ok_def l0_cache_ok_def)
qed

theorem l0_run_counts_witness:
  "\<forall>c. l0_Caches (l0_run [L0Read 0 0x40 True 8, L0Write 0 0x40 None 8] (snd (L0CacheInit (\<lambda>_. True) 1))) 0
      = Some c \<longrightarrow> l0_TotalAccesses c = l0_Hits c + l0_Misses c + l0_WriteThrough c"
  using l0_run_counts [of "[L0Read 0 0x40 True 8, L0Write 0 0x40 None 8]" "\<lambda>_. True" 1 0] by simp

text \<open>Whatever runs after initialisation, the two printed totals agree (one sums the active
  units, the other all 84 slots): as many accesses as were accepted, modulo \<open>2 ^ 64\<close>, which are
  the hits, the misses and the writes together. A refused access is counted nowhere.\<close>

theorem l0_printed_totals:
  fixes ops alloc n
  defines "s0 \<equiv> snd (L0CacheInit alloc n)"
  defines "s \<equiv> l0_run ops s0"
  defines "t \<equiv> L0CachePrintAggregateStats s"
  shows "lr_Accesses t = of_nat (length (filter (l0_accepted s0) ops)) \<and>
    lr_Accesses t = lr_Hits t + lr_Misses t + lr_WriteThru t \<and>
    snd (L0CacheV71PrintAggregateStats s) = t\<lparr>lr_Units := V71_THREADS\<rparr>"
proof -
  have run: "l0_domain s" "l0_ActiveUnits s = l0_ActiveUnits s0"
    "(\<Sum>v = 0..<unat (l0_ActiveUnits s0). l0_count l0_TotalAccesses s v) = of_nat (length (filter (l0_accepted s0) ops))"
    using l0_run_totals [OF l0_init_domain(1), of ops alloc n] by (simp_all add: s_def s0_def l0_init_domain(2))
  have "l0_count l0_TotalAccesses s u = l0_count l0_Hits s u + l0_count l0_Misses s u + l0_count l0_WriteThrough s u" for u
    using l0_run_counts [of ops alloc n u] by (simp add: s_def s0_def l0_count_def split: option.splits)
  then have split: "(\<Sum>u = 0..<k. l0_count l0_TotalAccesses s u) = (\<Sum>u = 0..<k. l0_count l0_Hits s u) +
      (\<Sum>u = 0..<k. l0_count l0_Misses s u) + (\<Sum>u = 0..<k. l0_count l0_WriteThrough s u)" for k
    by (simp add: sum.distrib)
  note defs = t_def L0CachePrintAggregateStats_def Let_def l0_totals_sums zero_l0_report_def
    interv_sum_list_conv_sum_set_nat
  have "lr_Accesses t = of_nat (length (filter (l0_accepted s0) ops))"
    using run(3) by (simp add: defs run(2))
  moreover have "lr_Accesses t = lr_Hits t + lr_Misses t + lr_WriteThru t"
    by (simp add: defs split)
  moreover have "snd (L0CacheV71PrintAggregateStats s) = t\<lparr>lr_Units := V71_THREADS\<rparr>"
    by (rule l0_report.equality)
       (simp_all add: L0CacheV71PrintAggregateStats_def l0_sum_active [OF run(1)] defs)
  ultimately show ?thesis by blast
qed

end
