(* ===== verification/TagePredictor.thy ===== *)
theory TagePredictor
  imports Prelude
begin

text \<open>
  The branch predictor, \<open>performance/tage/tagepredictor.c\<close>: four tagged tables of 4096 entries,
  searched from the last, over a branch target buffer of 8192. \<open>Useful\<close> is a three-bit field
  and is kept at that width. A prediction returns the direction and the value the code stores
  through \<open>Target\<close> (a caller that passes NULL ignores it).
\<close>

section \<open>State\<close>

definition TAGE_TABLE_COUNT :: nat where "TAGE_TABLE_COUNT = 4"
definition TAGE_ENTRIES_PER_TABLE :: nat where "TAGE_ENTRIES_PER_TABLE = 4096"
definition BTB_ENTRIES :: nat where "BTB_ENTRIES = 8192"

record tage_entry =
  tg_Tag :: u64
  tg_Useful :: "3 word"
  tg_Taken :: bool
  tg_Valid :: bool

record btb_entry =
  bt_TargetRip :: u64
  bt_TargetAddress :: u64
  bt_Tag :: u64
  bt_Valid :: bool

record tage_state =
  tg_Tables :: "nat \<Rightarrow> nat \<Rightarrow> tage_entry"
  tg_Btb :: "nat \<Rightarrow> btb_entry"
  tg_Predictions :: u64
  tg_Correct :: u64
  tg_Mispredictions :: u64

definition TagePredictorInit :: tage_state where
  "TagePredictorInit =
     \<lparr>tg_Tables = (\<lambda>_ _. \<lparr>tg_Tag = 0, tg_Useful = 0, tg_Taken = False, tg_Valid = False\<rparr>),
      tg_Btb = (\<lambda>_. \<lparr>bt_TargetRip = 0, bt_TargetAddress = 0, bt_Tag = 0, bt_Valid = False\<rparr>),
      tg_Predictions = 0, tg_Correct = 0, tg_Mispredictions = 0\<rparr>"

section \<open>Operations\<close>

definition TageIndex :: "u64 \<Rightarrow> nat \<Rightarrow> nat" where
  "TageIndex Rip Table = unat (ucast (drop_bit (Table * 4 + 2) Rip AND 0xFFF) :: u32)"

definition TageTag :: "u64 \<Rightarrow> nat \<Rightarrow> u64" where
  "TageTag Rip Table = drop_bit (Table * 4 + 6) Rip XOR (Rip AND 0xFFF)"

definition btb_index :: "u64 \<Rightarrow> nat" where
  "btb_index Rip = unat (ucast (Rip AND 0x1FFF) :: u32)"

text \<open>The entry of a table for an address, and whether it is that address's.\<close>

definition tage_entry_of :: "tage_state \<Rightarrow> u64 \<Rightarrow> nat \<Rightarrow> tage_entry" where
  "tage_entry_of s Rip t = tg_Tables s t (TageIndex Rip t)"

definition tage_match :: "tage_state \<Rightarrow> u64 \<Rightarrow> nat \<Rightarrow> bool" where
  "tage_match s Rip t \<longleftrightarrow>
     tg_Valid (tage_entry_of s Rip t) \<and> tg_Tag (tage_entry_of s Rip t) = TageTag Rip t"

text \<open>\<open>for (t = TAGE_TABLE_COUNT - 1; t >= 0; t--) if (match) ...\<close>\<close>

definition predicting_table :: "tage_state \<Rightarrow> u64 \<Rightarrow> nat option" where
  "predicting_table s Rip = find (tage_match s Rip) (rev [0..<TAGE_TABLE_COUNT])"

definition btb_hit :: "tage_state \<Rightarrow> u64 \<Rightarrow> bool" where
  "btb_hit s Rip \<longleftrightarrow>
     bt_Valid (tg_Btb s (btb_index Rip)) \<and> bt_TargetRip (tg_Btb s (btb_index Rip)) = Rip"

definition TagePredict :: "tage_state \<Rightarrow> u64 \<Rightarrow> bool \<times> u64" where
  "TagePredict s Rip =
     (let target = (if btb_hit s Rip then bt_TargetAddress (tg_Btb s (btb_index Rip)) else Rip + 4) in
      case predicting_table s Rip of
        Some t \<Rightarrow> (tg_Taken (tage_entry_of s Rip t), target)
      | None \<Rightarrow> (btb_hit s Rip, target))"

definition set_entry :: "u64 \<Rightarrow> nat \<Rightarrow> tage_entry \<Rightarrow> tage_state \<Rightarrow> tage_state" where
  "set_entry Rip t e s =
     s\<lparr>tg_Tables := (tg_Tables s)(t := (tg_Tables s t)(TageIndex Rip t := e))\<rparr>"

definition btb_put :: "u64 \<Rightarrow> u64 \<Rightarrow> tage_state \<Rightarrow> tage_state" where
  "btb_put Rip Target s =
     s\<lparr>tg_Btb := (tg_Btb s)(btb_index Rip :=
        \<lparr>bt_TargetRip = Rip, bt_TargetAddress = Target, bt_Tag = drop_bit 12 Rip, bt_Valid = True\<rparr>)\<rparr>"

definition tage_train :: "u64 \<Rightarrow> bool \<Rightarrow> nat \<Rightarrow> tage_state \<Rightarrow> tage_state" where
  "tage_train Rip Taken t s =
     (let e = tage_entry_of s Rip t in
      if tg_Taken e = Taken then
        (let e = (if tg_Useful e < 7 then e\<lparr>tg_Useful := tg_Useful e + 1\<rparr> else e)
         in (set_entry Rip t e s)\<lparr>tg_Correct := tg_Correct s + 1\<rparr>)
      else
        (let e = (if tg_Useful e > 0 then e\<lparr>tg_Useful := tg_Useful e - 1\<rparr> else e\<lparr>tg_Taken := Taken\<rparr>)
         in (set_entry Rip t e s)\<lparr>tg_Mispredictions := tg_Mispredictions s + 1\<rparr>))"

definition replaceable :: "tage_state \<Rightarrow> u64 \<Rightarrow> nat \<Rightarrow> bool" where
  "replaceable s Rip t \<longleftrightarrow> \<not> tg_Valid (tage_entry_of s Rip t) \<or> tg_Useful (tage_entry_of s Rip t) = 0"

definition tage_allocate :: "u64 \<Rightarrow> bool \<Rightarrow> tage_state \<Rightarrow> tage_state" where
  "tage_allocate Rip Taken s =
     (case find (replaceable s Rip) [0..<TAGE_TABLE_COUNT] of
        None \<Rightarrow> s
      | Some t \<Rightarrow> set_entry Rip t
          \<lparr>tg_Tag = TageTag Rip t, tg_Useful = 0, tg_Taken = Taken, tg_Valid = True\<rparr> s)"

definition TageUpdate :: "u64 \<Rightarrow> bool \<Rightarrow> u64 \<Rightarrow> tage_state \<Rightarrow> tage_state" where
  "TageUpdate Rip Taken Target s =
     (let s = s\<lparr>tg_Predictions := tg_Predictions s + 1\<rparr>;
          s = (case predicting_table s Rip of
                 Some t \<Rightarrow> tage_train Rip Taken t s
               | None \<Rightarrow> tage_allocate Rip Taken s)
      in btb_put Rip Target s)"

definition prefill_branch :: "u64 \<Rightarrow> u64 \<Rightarrow> tage_state \<Rightarrow> tage_state" where
  "prefill_branch branchRip target s =
     (let s = fold (\<lambda>t s. set_entry branchRip t
                \<lparr>tg_Tag = TageTag branchRip t, tg_Useful = 2, tg_Taken = target > branchRip,
                 tg_Valid = True\<rparr> s) [0..<TAGE_TABLE_COUNT] s
      in btb_put branchRip target s)"

text \<open>\<open>i * 16\<close> is computed on 32 bits.\<close>

definition TagePrefillKernel :: "u64 \<Rightarrow> (nat \<Rightarrow> u64) \<Rightarrow> u32 \<Rightarrow> tage_state \<Rightarrow> tage_state" where
  "TagePrefillKernel KernelBase BranchTargets BranchCount s =
     fold (\<lambda>i. prefill_branch (KernelBase + ucast (of_nat i * 16 :: u32)) (BranchTargets i))
       [0..<unat BranchCount] s"

definition TageGetStats :: "tage_state \<Rightarrow> u64 \<times> u64 \<times> u64" where
  "TageGetStats s = (tg_Predictions s, tg_Correct s, tg_Mispredictions s)"

section \<open>The entries of one address\<close>

lemma entry_set [simp]:
  "tage_entry_of (set_entry Rip t e s) Rip t' = (if t' = t then e else tage_entry_of s Rip t')"
  by (simp add: tage_entry_of_def set_entry_def)

lemma entry_btb_put [simp]: "tage_entry_of (btb_put r a s) Rip t = tage_entry_of s Rip t"
  by (simp add: tage_entry_of_def btb_put_def)

lemma entry_counts [simp]:
  "tage_entry_of (s\<lparr>tg_Predictions := n\<rparr>) Rip t = tage_entry_of s Rip t"
  "tage_entry_of (s\<lparr>tg_Correct := n\<rparr>) Rip t = tage_entry_of s Rip t"
  "tage_entry_of (s\<lparr>tg_Mispredictions := n\<rparr>) Rip t = tage_entry_of s Rip t"
  by (simp_all add: tage_entry_of_def)

lemma btb_put_hit [simp]: "btb_hit (btb_put Rip a s) Rip"
  "bt_TargetAddress (tg_Btb (btb_put Rip a s) (btb_index Rip)) = a"
  by (simp_all add: btb_hit_def btb_put_def)

lemma predicting_cong:
  assumes "\<And>t. tage_match s' Rip t = tage_match s Rip t"
  shows "predicting_table s' Rip = predicting_table s Rip"
proof -
  have "tage_match s' Rip = tage_match s Rip" by (rule ext) (rule assms)
  then show ?thesis by (simp add: predicting_table_def)
qed

lemma match_cong: "tage_entry_of s' Rip t = tage_entry_of s Rip t \<Longrightarrow> tage_match s' Rip t = tage_match s Rip t"
  by (simp add: tage_match_def)

lemma predicting_Some:
  assumes "predicting_table s Rip = Some t"
  shows "t < TAGE_TABLE_COUNT" "tage_match s Rip t"
  using assms nth_mem [of _ "rev [0..<TAGE_TABLE_COUNT]"]
  by (auto simp: predicting_table_def find_Some_iff)

text \<open>The direction an update leaves in the tables.\<close>

definition trained :: "bool \<Rightarrow> tage_entry \<Rightarrow> tage_entry" where
  "trained Taken e =
     (if tg_Taken e = Taken then (if tg_Useful e < 7 then e\<lparr>tg_Useful := tg_Useful e + 1\<rparr> else e)
      else if tg_Useful e > 0 then e\<lparr>tg_Useful := tg_Useful e - 1\<rparr> else e\<lparr>tg_Taken := Taken\<rparr>)"

lemma trained_simps [simp]: "tg_Valid (trained b e) = tg_Valid e" "tg_Tag (trained b e) = tg_Tag e"
  by (simp_all add: trained_def)

lemma train_entry:
  "tage_entry_of (tage_train Rip b t s) Rip t' = (if t' = t then trained b (tage_entry_of s Rip t)
     else tage_entry_of s Rip t')"
  by (simp add: tage_train_def trained_def Let_def)

lemma update_trains:
  assumes "predicting_table s Rip = Some t"
  shows "predicting_table (TageUpdate Rip b a s) Rip = Some t"
    "tage_entry_of (TageUpdate Rip b a s) Rip t = trained b (tage_entry_of s Rip t)"
proof -
  have p: "predicting_table (s\<lparr>tg_Predictions := n\<rparr>) Rip = Some t" for n
    using assms by (subst predicting_cong [of _ _ s]) (simp_all add: tage_match_def)
  have e: "tage_entry_of (TageUpdate Rip b a s) Rip t' = (if t' = t then trained b (tage_entry_of s Rip t)
      else tage_entry_of s Rip t')" for t'
    by (simp add: TageUpdate_def Let_def p train_entry)
  then show "tage_entry_of (TageUpdate Rip b a s) Rip t = trained b (tage_entry_of s Rip t)" by simp
  have "tage_match (TageUpdate Rip b a s) Rip t' = tage_match s Rip t'" for t'
    by (simp add: tage_match_def e)
  then show "predicting_table (TageUpdate Rip b a s) Rip = Some t"
    using assms by (subst predicting_cong [of _ _ s]) simp_all
qed

lemma find_only:
  assumes "t \<in> set xs" "\<And>x. x \<in> set xs \<Longrightarrow> P x \<longleftrightarrow> x = t"
  shows "find P xs = Some t"
  using assms by (induction xs) auto

lemma update_allocates:
  assumes "predicting_table s Rip = None" "find (replaceable s Rip) [0..<TAGE_TABLE_COUNT] = Some t"
  shows "predicting_table (TageUpdate Rip b a s) Rip = Some t"
    "tg_Taken (tage_entry_of (TageUpdate Rip b a s) Rip t) = b"
proof -
  have p: "predicting_table (s\<lparr>tg_Predictions := n\<rparr>) Rip = None" for n
    using assms(1) by (subst predicting_cong [of _ _ s]) (simp_all add: tage_match_def)
  have r: "replaceable (s\<lparr>tg_Predictions := n\<rparr>) Rip = replaceable s Rip" for n
    by (simp add: replaceable_def fun_eq_iff)
  have e: "tage_entry_of (TageUpdate Rip b a s) Rip t' = (if t' = t
      then \<lparr>tg_Tag = TageTag Rip t, tg_Useful = 0, tg_Taken = b, tg_Valid = True\<rparr>
      else tage_entry_of s Rip t')" for t'
    by (simp add: TageUpdate_def Let_def p tage_allocate_def r assms(2))
  then show "tg_Taken (tage_entry_of (TageUpdate Rip b a s) Rip t) = b" by simp
  have none: "\<not> tage_match s Rip t'" if "t' < TAGE_TABLE_COUNT" for t'
    using assms(1) that by (auto simp: predicting_table_def find_None_iff)
  have "t < TAGE_TABLE_COUNT" using assms(2) by (auto simp: find_Some_iff)
  then show "predicting_table (TageUpdate Rip b a s) Rip = Some t"
    unfolding predicting_table_def using none
    by (intro find_only) (auto simp: tage_match_def e)
qed

text \<open>No table has an entry for the branch and none can be replaced.\<close>

definition starved :: "tage_state \<Rightarrow> u64 \<Rightarrow> bool" where
  "starved s Rip \<longleftrightarrow> predicting_table s Rip = None \<and> (\<forall>t<TAGE_TABLE_COUNT. \<not> replaceable s Rip t)"

lemma starved_find: "starved s Rip \<Longrightarrow> find (replaceable s Rip) [0..<TAGE_TABLE_COUNT] = None"
  by (auto simp: starved_def find_None_iff)

lemma update_starved:
  assumes "starved s Rip"
  shows "starved (TageUpdate Rip b a s) Rip"
proof -
  have p: "predicting_table (s\<lparr>tg_Predictions := n\<rparr>) Rip = None" for n
    using assms by (subst predicting_cong [of _ _ s]) (simp_all add: tage_match_def starved_def)
  have r: "replaceable (s\<lparr>tg_Predictions := n\<rparr>) Rip = replaceable s Rip" for n
    by (simp add: replaceable_def fun_eq_iff)
  have e: "tage_entry_of (TageUpdate Rip b a s) Rip t = tage_entry_of s Rip t" for t
    by (simp add: TageUpdate_def Let_def p tage_allocate_def r starved_find [OF assms])
  have "predicting_table (TageUpdate Rip b a s) Rip = predicting_table s Rip"
    by (rule predicting_cong) (simp add: tage_match_def e)
  moreover have "replaceable (TageUpdate Rip b a s) Rip t = replaceable s Rip t" for t
    by (simp add: replaceable_def e)
  ultimately show ?thesis using assms by (simp add: starved_def)
qed

lemma update_target: "snd (TagePredict (TageUpdate Rip b a s) Rip) = a"
  by (auto simp: TagePredict_def TageUpdate_def Let_def split: option.splits)

lemma update_btb: "btb_hit (TageUpdate Rip b a s) Rip"
  by (simp add: TageUpdate_def Let_def)

text \<open>How many further updates in direction \<open>b\<close> make the entry predict \<open>b\<close>.\<close>

definition resistance :: "bool \<Rightarrow> tage_entry \<Rightarrow> nat" where
  "resistance b e = (if tg_Taken e = b then 0 else Suc (unat (tg_Useful e)))"

lemma resistance_bound: "resistance b e \<le> 8"
  using unsigned_less [of "tg_Useful e", where ?'a = nat] by (simp add: resistance_def)

lemma resistance_trained: "resistance b (trained b e) = resistance b e - 1"
  using unat_gt_0 [of "tg_Useful e"]
  by (auto simp: resistance_def trained_def unat_minus_one word_gt_0)

lemma learning:
  assumes "predicting_table s Rip = Some t"
  shows "predicting_table (((TageUpdate Rip b a) ^^ n) s) Rip = Some t \<and>
    resistance b (tage_entry_of (((TageUpdate Rip b a) ^^ n) s) Rip t) =
      resistance b (tage_entry_of s Rip t) - n"
  using assms by (induction n) (auto simp: update_trains resistance_trained)

section \<open>Statistics\<close>

lemma update_stats:
  "tg_Predictions (TageUpdate Rip b a s) = tg_Predictions s + 1"
  "(tg_Correct (TageUpdate Rip b a s), tg_Mispredictions (TageUpdate Rip b a s)) \<in>
     {(tg_Correct s, tg_Mispredictions s), (tg_Correct s + 1, tg_Mispredictions s),
      (tg_Correct s, tg_Mispredictions s + 1)}"
  by (auto simp: TageUpdate_def tage_train_def tage_allocate_def set_entry_def btb_put_def Let_def
      split: option.splits)

definition tage_run :: "(u64 \<times> bool \<times> u64) list \<Rightarrow> tage_state \<Rightarrow> tage_state" where
  "tage_run us s = fold (\<lambda>(r, b, a). TageUpdate r b a) us s"

lemma run_stats:
  "\<exists>c m. tg_Predictions (tage_run us TagePredictorInit) = of_nat (length us) \<and>
     tg_Correct (tage_run us TagePredictorInit) = of_nat c \<and>
     tg_Mispredictions (tage_run us TagePredictorInit) = of_nat m \<and> c + m \<le> length us"
proof (induction us rule: rev_induct)
  case Nil
  show ?case by (simp add: tage_run_def TagePredictorInit_def)
next
  case (snoc u us)
  obtain r b a where u: "u = (r, b, a)" by (cases u)
  obtain c m where ih: "tg_Predictions (tage_run us TagePredictorInit) = of_nat (length us)"
    "tg_Correct (tage_run us TagePredictorInit) = of_nat c"
    "tg_Mispredictions (tage_run us TagePredictorInit) = of_nat m" "c + m \<le> length us"
    using snoc by blast
  have step: "tage_run (us @ [u]) TagePredictorInit = TageUpdate r b a (tage_run us TagePredictorInit)"
    by (simp add: tage_run_def u)
  have "\<exists>c' m'. tg_Correct (tage_run (us @ [u]) TagePredictorInit) = of_nat c' \<and>
      tg_Mispredictions (tage_run (us @ [u]) TagePredictorInit) = of_nat m' \<and> c' + m' \<le> Suc (length us)"
  proof -
    consider "tg_Correct (tage_run (us @ [u]) TagePredictorInit) = of_nat c"
        "tg_Mispredictions (tage_run (us @ [u]) TagePredictorInit) = of_nat m"
      | "tg_Correct (tage_run (us @ [u]) TagePredictorInit) = of_nat (Suc c)"
        "tg_Mispredictions (tage_run (us @ [u]) TagePredictorInit) = of_nat m"
      | "tg_Correct (tage_run (us @ [u]) TagePredictorInit) = of_nat c"
        "tg_Mispredictions (tage_run (us @ [u]) TagePredictorInit) = of_nat (Suc m)"
      using update_stats(2) [of r b a "tage_run us TagePredictorInit"] ih(2,3)
      unfolding step by auto
    then show ?thesis
    proof cases
      case 1
      then show ?thesis using ih(4) by (intro exI [of _ c] exI [of _ m]) simp
    next
      case 2
      then show ?thesis using ih(4) by (intro exI [of _ "Suc c"] exI [of _ m]) simp
    next
      case 3
      then show ?thesis using ih(4) by (intro exI [of _ c] exI [of _ "Suc m"]) simp
    qed
  qed
  moreover have "tg_Predictions (tage_run (us @ [u]) TagePredictorInit) = of_nat (length (us @ [u]))"
    using ih(1) by (simp add: step update_stats(1))
  ultimately show ?case by auto
qed

section \<open>Properties\<close>

text \<open>After a branch is recorded the predictor returns its target, and the direction is the
  recorded one unless the branch's entry still trusts the opposite one, or the branch has no
  entry and none of its four slots can be replaced: then the fresh target entry makes the
  predictor say taken, whatever was recorded.\<close>

theorem tage_update_predicts:
  "TagePredict (TageUpdate Rip b a s) Rip =
     ((case predicting_table s Rip of
         Some t \<Rightarrow> if tg_Useful (tage_entry_of s Rip t) > 0 then tg_Taken (tage_entry_of s Rip t) else b
       | None \<Rightarrow> if \<exists>t<TAGE_TABLE_COUNT. replaceable s Rip t then b else True), a)"
proof (cases "predicting_table s Rip")
  case (Some t)
  have "TagePredict (TageUpdate Rip b a s) Rip = (tg_Taken (trained b (tage_entry_of s Rip t)), a)"
    using update_target [of Rip b a s] update_trains [OF Some, of b a]
    by (simp add: TagePredict_def Let_def prod_eq_iff)
  then show ?thesis by (auto simp: Some trained_def word_gt_0)
next
  case None
  show ?thesis
  proof (cases "find (replaceable s Rip) [0..<TAGE_TABLE_COUNT]")
    case none: None
    then have "starved s Rip" using None by (auto simp: starved_def find_None_iff)
    then have "\<not> (\<exists>t<TAGE_TABLE_COUNT. replaceable s Rip t)"
      "predicting_table (TageUpdate Rip b a s) Rip = None"
      using update_starved [of s Rip b a] by (auto simp: starved_def)
    then show ?thesis
      using update_target [of Rip b a s]
      by (auto simp: None TagePredict_def Let_def update_btb)
  next
    case (Some t)
    then have "\<exists>t<TAGE_TABLE_COUNT. replaceable s Rip t" by (auto simp: find_Some_iff)
    then show ?thesis
      using update_target [of Rip b a s] update_allocates [OF None Some, of b a]
      by (simp add: None TagePredict_def Let_def prod_eq_iff)
  qed
qed

lemma learnt:
  assumes p: "predicting_table s Rip = Some t" and r: "resistance b (tage_entry_of s Rip t) \<le> m"
  shows "fst (TagePredict (((TageUpdate Rip b a) ^^ m) s) Rip) = b"
proof -
  have "resistance b (tage_entry_of (((TageUpdate Rip b a) ^^ m) s) Rip t) = 0"
    "predicting_table (((TageUpdate Rip b a) ^^ m) s) Rip = Some t"
    using learning [OF p, where b = b and a = a and n = m] r by simp_all
  then show ?thesis
    by (simp add: TagePredict_def Let_def resistance_def split: if_splits)
qed

text \<open>C34: eight updates in the same direction always suffice to predict that direction, when the
  branch has an entry or can get one; when it cannot, no number of updates helps, because an
  entry that loses the contest for a slot never weakens its owner: a branch that is never
  taken is then predicted taken for ever.\<close>

theorem tage_learns:
  assumes "8 \<le> n"
  shows "TagePredict (((TageUpdate Rip b a) ^^ n) s) Rip = (\<not> starved s Rip \<longrightarrow> b, a)"
proof -
  obtain k where k: "n = Suc k" using assms by (cases n) auto
  have target: "snd (TagePredict (((TageUpdate Rip b a) ^^ n) s) Rip) = a"
    by (simp add: k update_target)
  have "fst (TagePredict (((TageUpdate Rip b a) ^^ n) s) Rip) = (\<not> starved s Rip \<longrightarrow> b)"
  proof (cases "predicting_table s Rip")
    case (Some t)
    then have "fst (TagePredict (((TageUpdate Rip b a) ^^ n) s) Rip) = b"
      using learnt [OF Some, where m = n and b = b] resistance_bound [of b "tage_entry_of s Rip t"] assms by simp
    then show ?thesis using Some by (simp add: starved_def)
  next
    case None
    show ?thesis
    proof (cases "find (replaceable s Rip) [0..<TAGE_TABLE_COUNT]")
      case none: None
      then have st: "starved s Rip" using None by (auto simp: starved_def find_None_iff)
      then have "starved (((TageUpdate Rip b a) ^^ m) s) Rip" for m
        by (induction m) (simp_all add: update_starved)
      then have "predicting_table (((TageUpdate Rip b a) ^^ n) s) Rip = None"
        by (simp add: starved_def)
      then have "fst (TagePredict (((TageUpdate Rip b a) ^^ n) s) Rip) =
          btb_hit (((TageUpdate Rip b a) ^^ n) s) Rip"
        by (simp add: TagePredict_def Let_def)
      then show ?thesis using st by (simp add: k update_btb)
    next
      case (Some t)
      note al = update_allocates [OF None Some, of b a]
      have "fst (TagePredict (((TageUpdate Rip b a) ^^ k) (TageUpdate Rip b a s)) Rip) = b"
        using al by (intro learnt [OF al(1)]) (simp add: resistance_def)
      moreover have "\<not> starved s Rip" using Some by (auto simp: starved_def find_Some_iff)
      ultimately show ?thesis by (simp add: k funpow_swap1)
    qed
  qed
  with target show ?thesis by (simp add: prod_eq_iff)
qed

theorem tage_learns_witness:
  "TagePredict (((TageUpdate 0x400 True 0x900) ^^ 8) TagePredictorInit) 0x400 = (True, 0x900)"
proof -
  have "replaceable TagePredictorInit 0x400 0"
    by (simp add: replaceable_def tage_entry_of_def TagePredictorInit_def)
  then have "\<not> starved TagePredictorInit 0x400"
    by (auto simp: starved_def TAGE_TABLE_COUNT_def)
  with tage_learns [of 8 "0x400" True "0x900" TagePredictorInit] show ?thesis by simp
qed

text \<open>The statistics add up: after any sequence of fewer than \<open>2 ^ 64\<close> updates, the number of
  predictions is the number of updates and at least the number of correct and wrong ones.\<close>

theorem tage_stats:
  assumes "length us < 2 ^ 64"
  shows "case TageGetStats (tage_run us TagePredictorInit) of
    (p, c, m) \<Rightarrow> unat p = length us \<and> unat c + unat m \<le> unat p"
proof -
  obtain c m where r: "tg_Predictions (tage_run us TagePredictorInit) = of_nat (length us)"
    "tg_Correct (tage_run us TagePredictorInit) = of_nat c"
    "tg_Mispredictions (tage_run us TagePredictorInit) = of_nat m" "c + m \<le> length us"
    using run_stats by blast
  have "unat (of_nat (length us) :: u64) = length us" "unat (of_nat c :: u64) = c"
    "unat (of_nat m :: u64) = m"
    using assms r(4) by (simp_all add: unat_of_nat_small)
  with r show ?thesis by (simp add: TageGetStats_def)
qed

theorem tage_stats_witness:
  "case TageGetStats (tage_run [(0x10, True, 0x20), (0x10, False, 0x20)] TagePredictorInit) of
    (p, c, m) \<Rightarrow> unat p = 2 \<and> unat c + unat m \<le> 2"
  using tage_stats [of "[(0x10, True, 0x20), (0x10, False, 0x20)]"]
  by (auto split: prod.splits)

end
