(* ===== verification/MacroOpFusion.thy ===== *)
theory MacroOpFusion
  imports Prelude
begin

text \<open>
  Macro-operation fusion, \<open>performance/fusion/macroopfusion.c\<close>: which opcode pairs fuse, the
  pair table and fused-operation buffer of the base version and of v7.1 (the code has the same
  functions twice, with different sizes: \<open>fuse_store\<close> is the one, each \<open>TryFuse\<close> names its
  buffers), the look-up and the region analysis. The fusion rates, doubles that are only
  reported, and the functions that return a constant are left out.
\<close>

section \<open>State\<close>

definition MAX_FUSION_PAIRS :: nat where "MAX_FUSION_PAIRS = 32"
definition FUSION_BUFFER_SIZE :: nat where "FUSION_BUFFER_SIZE = 512"
definition MAX_FUSION_PAIRS_V71 :: nat where "MAX_FUSION_PAIRS_V71 = 64"
definition FUSION_BUFFER_SIZE_V71 :: nat where "FUSION_BUFFER_SIZE_V71 = 1024"

datatype fusion_type =
    FusionTypeCmpJcc
  | FusionTypeTestJcc
  | FusionTypeDecJcc
  | FusionTypeAddLea
  | FusionTypeMovCmp
  | FusionTypeNone

record fusion_pair =
  fp_Rip :: u64
  fp_Opcode1 :: u8
  fp_Opcode2 :: u8
  fp_Opcode3 :: u8
  fp_Length :: u8
  fp_Type :: fusion_type
  fp_Fused :: bool

record fused_op =
  fo_Rip :: u64
  fo_TargetRip :: u64
  fo_Condition :: u8
  fo_ComparisonType :: u8
  fo_ComparisonValue :: u64
  fo_ExecutionCount :: u32
  fo_Fused :: bool

record fusion_store =
  fs_Pairs :: "nat \<Rightarrow> fusion_pair"
  fs_PairCount :: u32
  fs_Buffer :: "nat \<Rightarrow> fused_op"
  fs_BufferCount :: u32
  fs_Attempts :: u64
  fs_Successes :: u64

record fusion_tracking =
  ft_WorkloadId :: u64
  ft_TotalInstructions :: u64
  ft_FusedOps :: u64
  ft_CacheHits :: u64
  ft_DboPatternsDetected :: bool

record fusion_state =
  fu_Base :: fusion_store
  fu_V71 :: fusion_store
  fu_Tracking :: fusion_tracking

definition zero_store :: fusion_store where
  "zero_store =
     \<lparr>fs_Pairs = (\<lambda>_. \<lparr>fp_Rip = 0, fp_Opcode1 = 0, fp_Opcode2 = 0, fp_Opcode3 = 0, fp_Length = 0,
        fp_Type = FusionTypeCmpJcc, fp_Fused = False\<rparr>),
      fs_PairCount = 0,
      fs_Buffer = (\<lambda>_. \<lparr>fo_Rip = 0, fo_TargetRip = 0, fo_Condition = 0, fo_ComparisonType = 0,
        fo_ComparisonValue = 0, fo_ExecutionCount = 0, fo_Fused = False\<rparr>),
      fs_BufferCount = 0, fs_Attempts = 0, fs_Successes = 0\<rparr>"

definition zero_tracking :: fusion_tracking where
  "zero_tracking = \<lparr>ft_WorkloadId = 0, ft_TotalInstructions = 0, ft_FusedOps = 0, ft_CacheHits = 0,
     ft_DboPatternsDetected = False\<rparr>"

definition MacroOpFusionInit :: "fusion_state \<Rightarrow> fusion_state" where
  "MacroOpFusionInit s = s\<lparr>fu_Base := zero_store\<rparr>"

definition MacroOpFusionV71Init :: "fusion_state \<Rightarrow> fusion_state" where
  "MacroOpFusionV71Init s = s\<lparr>fu_V71 := zero_store, fu_Tracking := zero_tracking\<rparr>"

section \<open>Which opcodes fuse\<close>

definition IsJcc :: "u8 \<Rightarrow> u8 \<Rightarrow> bool" where
  "IsJcc Opcode OpcodeExtra =
     (if Opcode \<ge> 0x70 \<and> Opcode \<le> 0x7F then True
      else if Opcode = 0x0F \<and> OpcodeExtra \<ge> 0x80 \<and> OpcodeExtra \<le> 0x8F then True
      else False)"

definition is_cmp :: "u8 \<Rightarrow> bool" where
  "is_cmp op \<longleftrightarrow> (op \<ge> 0x38 \<and> op \<le> 0x3D) \<or> (op \<ge> 0x80 \<and> op \<le> 0x83)"

definition is_test :: "u8 \<Rightarrow> bool" where
  "is_test op \<longleftrightarrow> op = 0x84 \<or> op = 0x85 \<or> op = 0xA8 \<or> op = 0xA9 \<or> op = 0xF6 \<or> op = 0xF7"

definition is_lea_add :: "u8 \<Rightarrow> u8 \<Rightarrow> bool" where
  "is_lea_add op1 op2 \<longleftrightarrow> op1 = 0x8D \<and> ((op2 \<ge> 0x00 \<and> op2 \<le> 0x05) \<or> (op2 \<ge> 0x80 \<and> op2 \<le> 0x83))"

definition is_mov :: "u8 \<Rightarrow> bool" where
  "is_mov op \<longleftrightarrow> (op \<ge> 0x88 \<and> op \<le> 0x8B) \<or> op = 0xC6 \<or> op = 0xC7"

definition MacroOpFusionIsFusable :: "u8 \<Rightarrow> u8 \<Rightarrow> u8 \<Rightarrow> bool" where
  "MacroOpFusionIsFusable Opcode1 Opcode2 Opcode2Extra =
     (if IsJcc Opcode2 Opcode2Extra \<and> is_cmp Opcode1 then True
      else if IsJcc Opcode2 Opcode2Extra \<and> is_test Opcode1 then True
      else if IsJcc Opcode2 Opcode2Extra \<and> (Opcode1 = 0xFE \<or> Opcode1 = 0xFF) then True
      else if is_lea_add Opcode1 Opcode2 then True
      else if is_mov Opcode1 \<and> is_cmp Opcode2 then True
      else False)"

definition MacroOpFusionGetType :: "u8 \<Rightarrow> u8 \<Rightarrow> u8 \<Rightarrow> fusion_type" where
  "MacroOpFusionGetType Opcode1 Opcode2 Opcode2Extra =
     (if IsJcc Opcode2 Opcode2Extra \<and> is_cmp Opcode1 then FusionTypeCmpJcc
      else if IsJcc Opcode2 Opcode2Extra \<and> is_test Opcode1 then FusionTypeTestJcc
      else if IsJcc Opcode2 Opcode2Extra \<and> (Opcode1 = 0xFE \<or> Opcode1 = 0xFF) then FusionTypeDecJcc
      else if is_lea_add Opcode1 Opcode2 then FusionTypeAddLea
      else if is_mov Opcode1 \<and> is_cmp Opcode2 then FusionTypeMovCmp
      else FusionTypeNone)"

section \<open>Fusing\<close>

text \<open>The arguments of a request: two instructions, the second with its extra opcode byte.\<close>

record fuse_req =
  fr_Rip1 :: u64
  fr_Opcode1 :: u8
  fr_Length1 :: u8
  fr_Rip2 :: u64
  fr_Opcode2 :: u8
  fr_Opcode2Extra :: u8
  fr_Length2 :: u8

definition fusable :: "fuse_req \<Rightarrow> bool" where
  "fusable r = MacroOpFusionIsFusable (fr_Opcode1 r) (fr_Opcode2 r) (fr_Opcode2Extra r)"

definition put_pair :: "fuse_req \<Rightarrow> fusion_pair \<Rightarrow> fusion_pair" where
  "put_pair r p =
     p\<lparr>fp_Rip := fr_Rip1 r, fp_Opcode1 := fr_Opcode1 r, fp_Opcode2 := fr_Opcode2 r,
       fp_Opcode3 := fr_Opcode2Extra r, fp_Length := fr_Length1 r + fr_Length2 r,
       fp_Type := MacroOpFusionGetType (fr_Opcode1 r) (fr_Opcode2 r) (fr_Opcode2Extra r),
       fp_Fused := True\<rparr>"

definition put_op :: "fuse_req \<Rightarrow> fused_op \<Rightarrow> fused_op" where
  "put_op r m =
     m\<lparr>fo_Rip := fr_Rip1 r, fo_TargetRip := fr_Rip2 r + ucast (fr_Length2 r),
       fo_ComparisonType := fr_Opcode1 r, fo_Fused := True\<rparr>"

definition fuse_store :: "nat \<Rightarrow> nat \<Rightarrow> fuse_req \<Rightarrow> fusion_store \<Rightarrow> efi_status \<times> fusion_store" where
  "fuse_store max_pairs buffer_size r f =
     (let f = f\<lparr>fs_Attempts := fs_Attempts f + 1\<rparr> in
      if \<not> fusable r then (EFI_UNSUPPORTED, f)
      else
        (let f = (if unat (fs_PairCount f) < max_pairs
                  then f\<lparr>fs_Pairs := (fs_Pairs f)(unat (fs_PairCount f) :=
                           put_pair r (fs_Pairs f (unat (fs_PairCount f)))),
                         fs_PairCount := fs_PairCount f + 1\<rparr>
                  else f);
             f = (if unat (fs_BufferCount f) < buffer_size
                  then f\<lparr>fs_Buffer := (fs_Buffer f)(unat (fs_BufferCount f) :=
                           put_op r (fs_Buffer f (unat (fs_BufferCount f)))),
                         fs_BufferCount := fs_BufferCount f + 1\<rparr>
                  else f)
         in (EFI_SUCCESS, f\<lparr>fs_Successes := fs_Successes f + 1\<rparr>)))"

definition MacroOpFusionTryFuse :: "fuse_req \<Rightarrow> fusion_state \<Rightarrow> efi_status \<times> fusion_state" where
  "MacroOpFusionTryFuse r s =
     (let (st, f) = fuse_store MAX_FUSION_PAIRS FUSION_BUFFER_SIZE r (fu_Base s)
      in (st, s\<lparr>fu_Base := f\<rparr>))"

definition MacroOpFusionV71TryFuse :: "fuse_req \<Rightarrow> fusion_state \<Rightarrow> efi_status \<times> fusion_state" where
  "MacroOpFusionV71TryFuse r s =
     (let (st, f) = fuse_store MAX_FUSION_PAIRS_V71 FUSION_BUFFER_SIZE_V71 r (fu_V71 s)
      in (st, s\<lparr>fu_V71 := f\<rparr>))"

section \<open>Look-up and analysis\<close>

definition fused_at :: "fusion_store \<Rightarrow> u64 \<Rightarrow> nat \<Rightarrow> bool" where
  "fused_at f Rip i \<longleftrightarrow> fo_Rip (fs_Buffer f i) = Rip \<and> fo_Fused (fs_Buffer f i)"

definition MacroOpFusionLookup :: "u64 \<Rightarrow> fusion_state \<Rightarrow> fused_op option \<times> fusion_state" where
  "MacroOpFusionLookup Rip s =
     (let f = fu_Base s in
      case find (fused_at f Rip) [0..<unat (fs_BufferCount f)] of
        None \<Rightarrow> (None, s)
      | Some i \<Rightarrow> (Some (fs_Buffer f i), s\<lparr>fu_Base := f\<lparr>fs_Buffer := (fs_Buffer f)(i :=
            (fs_Buffer f i)\<lparr>fo_ExecutionCount := fo_ExecutionCount (fs_Buffer f i) + 1\<rparr>)\<rparr>\<rparr>))"

text \<open>\<open>i\<close> and \<open>scanned\<close> of the code's loop are always equal.\<close>

fun dbo_scan :: "fusion_store \<Rightarrow> u32 \<Rightarrow> nat \<Rightarrow> nat \<Rightarrow> u32 \<Rightarrow> u32" where
  "dbo_scan f InstructionCount i 0 detected = detected"
| "dbo_scan f InstructionCount i (Suc fuel) detected =
     (if i + 1 < unat (fs_BufferCount f) \<and> i < unat InstructionCount
      then dbo_scan f InstructionCount (i + 1) fuel
             (if fo_Fused (fs_Buffer f i) \<and> fs_PairCount f > 0 then detected + 1 else detected)
      else detected)"

definition MacroOpFusionDboAnalyze :: "u64 \<Rightarrow> u32 \<Rightarrow> fusion_state \<Rightarrow> fusion_state" where
  "MacroOpFusionDboAnalyze RegionStartRip InstructionCount s =
     (let t = (fu_Tracking s)\<lparr>ft_WorkloadId := RegionStartRip,
                 ft_TotalInstructions := ucast InstructionCount\<rparr>;
          detected = dbo_scan (fu_V71 s) InstructionCount 0 (unat (fs_BufferCount (fu_V71 s))) 0;
          t = t\<lparr>ft_FusedOps := ucast detected, ft_CacheHits := fs_Successes (fu_V71 s)\<rparr>;
          t = (if detected > 0 then t\<lparr>ft_DboPatternsDetected := True\<rparr> else t)
      in s\<lparr>fu_Tracking := t\<rparr>)"

definition MacroOpFusionGetStats :: "fusion_state \<Rightarrow> u64 \<times> u64 \<times> u64 \<times> u64" where
  "MacroOpFusionGetStats s = (fs_Attempts (fu_Base s), fs_Successes (fu_Base s),
     fs_Attempts (fu_V71 s), fs_Successes (fu_V71 s))"

section \<open>The list of fused requests\<close>

text \<open>The buffer holds the first requests that fused, in order, up to its size; the pair table
  holds the first up to its own.\<close>

definition store_holds :: "nat \<Rightarrow> nat \<Rightarrow> fuse_req list \<Rightarrow> fusion_store \<Rightarrow> bool" where
  "store_holds mp bs L f \<longleftrightarrow>
     unat (fs_PairCount f) = min mp (length L) \<and> unat (fs_BufferCount f) = min bs (length L) \<and>
     fs_Successes f = of_nat (length L) \<and> (\<forall>r\<in>set L. fusable r) \<and>
     (\<forall>i<min mp (length L). fp_Rip (fs_Pairs f i) = fr_Rip1 (L ! i) \<and> fp_Fused (fs_Pairs f i) \<and>
        fp_Type (fs_Pairs f i) = MacroOpFusionGetType (fr_Opcode1 (L ! i)) (fr_Opcode2 (L ! i))
          (fr_Opcode2Extra (L ! i))) \<and>
     (\<forall>i<min bs (length L). fo_Rip (fs_Buffer f i) = fr_Rip1 (L ! i) \<and> fo_Fused (fs_Buffer f i) \<and>
        fo_TargetRip (fs_Buffer f i) = fr_Rip2 (L ! i) + ucast (fr_Length2 (L ! i)))"

lemma store_holds_zero: "store_holds mp bs [] zero_store"
  by (simp add: store_holds_def zero_store_def)

lemma fusable_type:
  "MacroOpFusionIsFusable o1 o2 x \<longleftrightarrow> MacroOpFusionGetType o1 o2 x \<noteq> FusionTypeNone"
  by (simp add: MacroOpFusionIsFusable_def MacroOpFusionGetType_def)

lemma fuse_refused: "\<not> fusable r \<Longrightarrow>
    fuse_store mp bs r f = (EFI_UNSUPPORTED, f\<lparr>fs_Attempts := fs_Attempts f + 1\<rparr>)"
  by (simp add: fuse_store_def)

lemma count_up:
  assumes "unat (c :: u32) = min m n" "m < 2 ^ 31"
  shows "unat (if unat c < m then c + 1 else c) = min m (Suc n)"
proof (cases "n < m")
  case True
  then have "unat (c + 1) = Suc n" using assms by (simp add: unat_word_ariths)
  with True assms show ?thesis by simp
qed (use assms in simp)

lemma fuse_holds:
  assumes "store_holds mp bs L f" "fusable r" "mp < 2 ^ 31" "bs < 2 ^ 31"
  shows "fst (fuse_store mp bs r f) = EFI_SUCCESS \<and> store_holds mp bs (L @ [r]) (snd (fuse_store mp bs r f))"
proof -
  have p: "unat (fs_PairCount f) = min mp (length L)" and b: "unat (fs_BufferCount f) = min bs (length L)"
    using assms(1) by (simp_all add: store_holds_def)
  let ?f = "snd (fuse_store mp bs r f)"
  have pc: "unat (fs_PairCount ?f) = min mp (Suc (length L))"
    using count_up [OF p assms(3)] assms(2)
    by (auto simp: fuse_store_def Let_def split: if_splits)
  have bc: "unat (fs_BufferCount ?f) = min bs (Suc (length L))"
    using count_up [OF b assms(4)] assms(2)
    by (auto simp: fuse_store_def Let_def split: if_splits)
  have pairs: "fs_Pairs ?f i = (if i = length L \<and> i < mp then put_pair r (fs_Pairs f i) else fs_Pairs f i)" for i
    using p assms(2) by (auto simp: fuse_store_def Let_def)
  have buf: "fs_Buffer ?f i = (if i = length L \<and> i < bs then put_op r (fs_Buffer f i) else fs_Buffer f i)" for i
    using b assms(2) by (auto simp: fuse_store_def Let_def)
  have s: "fs_Successes ?f = fs_Successes f + 1" "fst (fuse_store mp bs r f) = EFI_SUCCESS"
    using assms(2) by (simp_all add: fuse_store_def Let_def)
  have i: "i < length L" if "i < Suc (length L)" "i \<noteq> length L" for i using that by simp
  show ?thesis
    using assms(1,2) s pc bc
    by (auto simp: store_holds_def pairs buf put_pair_def put_op_def nth_append dest: i)
qed

text \<open>A look-up changes only an execution count.\<close>

lemma lookup_holds:
  assumes "store_holds mp bs L (fu_Base s)"
  shows "store_holds mp bs L (fu_Base (snd (MacroOpFusionLookup Rip s)))"
  using assms
  by (auto simp: MacroOpFusionLookup_def store_holds_def Let_def split: option.splits)

lemma lookup_value:
  assumes "store_holds mp bs L (fu_Base s)"
  shows "map_option fo_TargetRip (fst (MacroOpFusionLookup Rip s)) =
    map_option (\<lambda>r. fr_Rip2 r + ucast (fr_Length2 r)) (find (\<lambda>r. fr_Rip1 r = Rip) (take bs L))"
proof -
  let ?f = "fu_Base s" and ?n = "min bs (length L)"
  have n: "unat (fs_BufferCount ?f) = ?n" using assms by (simp add: store_holds_def)
  have at: "fused_at ?f Rip i = (fr_Rip1 (L ! i) = Rip)"
    "fo_TargetRip (fs_Buffer ?f i) = fr_Rip2 (L ! i) + ucast (fr_Length2 (L ! i))" if "i < ?n" for i
    using assms that by (auto simp: store_holds_def fused_at_def)
  have L: "take bs L = map (nth L) [0..<?n]"
    by (rule nth_equalityI) auto
  have fm: "find P (map g xs) = map_option g (find (P \<circ> g) xs)" for P and g :: "nat \<Rightarrow> fuse_req" and xs
    by (induction xs) auto
  have "find (fused_at ?f Rip) [0..<?n] = find ((\<lambda>r. fr_Rip1 r = Rip) \<circ> nth L) [0..<?n]"
    using at(1) by (intro find_cong) auto
  moreover have "fo_TargetRip (fs_Buffer ?f i) = fr_Rip2 (L ! i) + ucast (fr_Length2 (L ! i))"
    if "find P [0..<?n] = Some i" for P i
    using that at(2) by (auto simp: find_Some_iff)
  ultimately show ?thesis
    by (simp add: MacroOpFusionLookup_def Let_def n L fm comp_def split: option.splits)
qed

section \<open>Sequences of requests\<close>

datatype fusion_op = FuTry fuse_req | FuTryV71 fuse_req | FuLookup u64 | FuAnalyze u64 u32

fun fusion_step :: "fusion_op \<Rightarrow> fusion_state \<Rightarrow> fusion_state" where
  "fusion_step (FuTry r) s = snd (MacroOpFusionTryFuse r s)"
| "fusion_step (FuTryV71 r) s = snd (MacroOpFusionV71TryFuse r s)"
| "fusion_step (FuLookup a) s = snd (MacroOpFusionLookup a s)"
| "fusion_step (FuAnalyze a n) s = MacroOpFusionDboAnalyze a n s"

definition fusion_run :: "fusion_op list \<Rightarrow> fusion_state \<Rightarrow> fusion_state" where
  "fusion_run ops s = fold fusion_step ops (MacroOpFusionV71Init (MacroOpFusionInit s))"

text \<open>The requests that fused, in order, in each of the two stores.\<close>

definition fused_base :: "fusion_op list \<Rightarrow> fuse_req list" where
  "fused_base ops = concat (map (\<lambda>x. case x of FuTry r \<Rightarrow> if fusable r then [r] else [] | _ \<Rightarrow> []) ops)"

definition fused_v71 :: "fusion_op list \<Rightarrow> fuse_req list" where
  "fused_v71 ops = concat (map (\<lambda>x. case x of FuTryV71 r \<Rightarrow> if fusable r then [r] else [] | _ \<Rightarrow> []) ops)"

lemma fuse_holds_cases:
  assumes "store_holds mp bs L f" "mp < 2 ^ 31" "bs < 2 ^ 31"
  shows "store_holds mp bs (L @ (if fusable r then [r] else [])) (snd (fuse_store mp bs r f))"
  using fuse_holds [OF assms(1) _ assms(2,3)] assms(1)
  by (auto simp: fuse_refused store_holds_def)

lemma step_holds:
  assumes "store_holds MAX_FUSION_PAIRS FUSION_BUFFER_SIZE (fused_base ops) (fu_Base s)"
    "store_holds MAX_FUSION_PAIRS_V71 FUSION_BUFFER_SIZE_V71 (fused_v71 ops) (fu_V71 s)"
  shows "store_holds MAX_FUSION_PAIRS FUSION_BUFFER_SIZE (fused_base (ops @ [x])) (fu_Base (fusion_step x s))
    \<and> store_holds MAX_FUSION_PAIRS_V71 FUSION_BUFFER_SIZE_V71 (fused_v71 (ops @ [x])) (fu_V71 (fusion_step x s))"
proof (cases x)
  case (FuTry r)
  with assms fuse_holds_cases [OF assms(1), of r] show ?thesis
    by (simp add: fused_base_def fused_v71_def MacroOpFusionTryFuse_def split_def Let_def
        MAX_FUSION_PAIRS_def FUSION_BUFFER_SIZE_def)
next
  case (FuTryV71 r)
  with assms fuse_holds_cases [OF assms(2), of r] show ?thesis
    by (simp add: fused_base_def fused_v71_def MacroOpFusionV71TryFuse_def split_def Let_def
        MAX_FUSION_PAIRS_V71_def FUSION_BUFFER_SIZE_V71_def)
next
  case (FuLookup a)
  have "fu_V71 (snd (MacroOpFusionLookup a s)) = fu_V71 s"
    by (simp add: MacroOpFusionLookup_def Let_def split: option.splits)
  with FuLookup assms lookup_holds [OF assms(1), of a] show ?thesis
    by (simp add: fused_base_def fused_v71_def)
next
  case (FuAnalyze a n)
  with assms show ?thesis
    by (simp add: fused_base_def fused_v71_def MacroOpFusionDboAnalyze_def Let_def)
qed

lemma run_holds:
  "store_holds MAX_FUSION_PAIRS FUSION_BUFFER_SIZE (fused_base ops) (fu_Base (fusion_run ops s)) \<and>
   store_holds MAX_FUSION_PAIRS_V71 FUSION_BUFFER_SIZE_V71 (fused_v71 ops) (fu_V71 (fusion_run ops s))"
proof (induction ops rule: rev_induct)
  case Nil
  show ?case
    by (simp add: fusion_run_def fused_base_def fused_v71_def MacroOpFusionV71Init_def
        MacroOpFusionInit_def store_holds_zero)
next
  case (snoc x ops)
  then show ?case using step_holds [of ops "fusion_run ops s" x] by (simp add: fusion_run_def)
qed

lemma dbo_scan_all:
  assumes "\<And>j. j < unat (fs_BufferCount f) \<Longrightarrow> fo_Fused (fs_Buffer f j)" "fs_PairCount f > 0"
    "unat (fs_BufferCount f) \<le> i + fuel"
  shows "dbo_scan f n i fuel d = d + of_nat (min (unat (fs_BufferCount f) - 1) (unat n) - i)"
  using assms(3)
proof (induction fuel arbitrary: i d)
  case (Suc fuel)
  show ?case
  proof (cases "i + 1 < unat (fs_BufferCount f) \<and> i < unat n")
    case True
    then have "min (unat (fs_BufferCount f) - 1) (unat n) - i =
        Suc (min (unat (fs_BufferCount f) - 1) (unat n) - (i + 1))" by auto
    moreover have "fo_Fused (fs_Buffer f i)" using True assms(1) by simp
    ultimately show ?thesis using Suc.IH [of "i + 1" "d + 1"] Suc.prems True assms(2) by simp
  qed auto
qed simp

section \<open>Properties\<close>

text \<open>C26: the buffer is a log of the requests that fused, kept up to its size. After any sequence
  of operations a look-up finds an address exactly if one of the first 512 fused requests of
  the base version started there, and gives the end of the first such pair; a request fuses
  exactly if its opcodes have a fusion type.\<close>

theorem fusion_lookup_log:
  "map_option fo_TargetRip (fst (MacroOpFusionLookup Rip (fusion_run ops s))) =
     map_option (\<lambda>r. fr_Rip2 r + ucast (fr_Length2 r))
       (find (\<lambda>r. fr_Rip1 r = Rip) (take 512 (fused_base ops))) \<and>
   (fst (MacroOpFusionTryFuse r s) = EFI_SUCCESS \<longleftrightarrow>
     MacroOpFusionGetType (fr_Opcode1 r) (fr_Opcode2 r) (fr_Opcode2Extra r) \<noteq> FusionTypeNone)"
  using lookup_value [OF conjunct1 [OF run_holds [of ops s]], of Rip]
  by (simp add: FUSION_BUFFER_SIZE_def MacroOpFusionTryFuse_def fuse_store_def fusable_def fusable_type
      split_def Let_def)

text \<open>The region analysis reports one fused operation too few: the number of v7.1 operations
  in the buffer less one, capped by the instruction count, so that a single fused operation is
  never detected.\<close>

theorem fusion_analyze_off_by_one:
  "unat (ft_FusedOps (fu_Tracking (MacroOpFusionDboAnalyze a n (fusion_run ops s)))) =
     min (min 1024 (length (fused_v71 ops)) - 1) (unat n)"
proof -
  let ?f = "fu_V71 (fusion_run ops s)" and ?L = "fused_v71 ops"
  have h: "store_holds MAX_FUSION_PAIRS_V71 FUSION_BUFFER_SIZE_V71 ?L ?f"
    using run_holds [of ops s] by simp
  then have c: "unat (fs_BufferCount ?f) = min 1024 (length ?L)"
    and fused: "\<And>j. j < unat (fs_BufferCount ?f) \<Longrightarrow> fo_Fused (fs_Buffer ?f j)"
    and p: "unat (fs_PairCount ?f) = min 64 (length ?L)"
    by (simp_all add: store_holds_def FUSION_BUFFER_SIZE_V71_def MAX_FUSION_PAIRS_V71_def)
  have d: "dbo_scan ?f n 0 (unat (fs_BufferCount ?f)) 0 =
      of_nat (min (min 1024 (length ?L) - 1) (unat n))"
  proof (cases "?L = []")
    case True
    then show ?thesis using c by simp
  next
    case False
    then have "0 < unat (fs_PairCount ?f)" using p by simp
    then have "fs_PairCount ?f > 0" by (auto simp: word_gt_0)
    from dbo_scan_all [OF fused this, of 0] show ?thesis by (simp add: c)
  qed
  have "unat (of_nat (min (min 1024 (length ?L) - 1) (unat n)) :: u32) =
      min (min 1024 (length ?L) - 1) (unat n)"
    by (rule unat_of_nat_small) simp
  then show ?thesis
    by (simp add: MacroOpFusionDboAnalyze_def Let_def d unsigned_ucast_eq take_bit_nat_eq_self)
qed

end
