(* ===== verification/BandwidthGovernor.thy ===== *)
theory BandwidthGovernor
  imports Prelude Complex_Main
begin

text \<open>
  The bandwidth governor, \<open>performance/bwgov/bandwidthgovernor.c\<close>. The state is \<open>None\<close> while the
  pool allocation has not succeeded. The governor's arithmetic on doubles is a parameter, the
  record \<open>bw_arith\<close> over a type \<open>'p\<close> of doubles with one field for each expression of the code.
  Scaling a thread count by \<open>1.0 - BW_DESCHEDULE_FRACTION\<close> is exact in a double and truncated,
  hence \<open>3 n div 4\<close>.
\<close>

section \<open>State\<close>

definition V71_MAX_THREADS :: u32 where "V71_MAX_THREADS = 84"

text \<open>\<open>BW_PEAK_GBS\<close>, 0.0, \<open>x > 0.0\<close>, \<open>(double)n * 0.15\<close>, \<open>a * 0.9 + w * 0.1\<close>, \<open>a / b\<close>,
  \<open>x >= BW_THROTTLE_THRESHOLD\<close>, \<open>x <= BW_REENABLE_THRESHOLD\<close> and \<open>x * 100.0\<close>.\<close>

record 'p bw_arith =
  ba_Default :: 'p
  ba_Zero :: 'p
  ba_Positive :: "'p \<Rightarrow> bool"
  ba_Window :: "u64 \<Rightarrow> 'p"
  ba_Average :: "'p \<Rightarrow> 'p \<Rightarrow> 'p"
  ba_Quotient :: "'p \<Rightarrow> 'p \<Rightarrow> 'p"
  ba_Throttle :: "'p \<Rightarrow> bool"
  ba_Reenable :: "'p \<Rightarrow> bool"
  ba_Percent :: "'p \<Rightarrow> 'p"

text \<open>A window with \<open>t\<close> transactions is at or above the throttle threshold, at or below the
  re-enable threshold, of a peak.\<close>

definition ba_Hot :: "'p bw_arith \<Rightarrow> 'p \<Rightarrow> u64 \<Rightarrow> bool" where
  "ba_Hot ar peak t \<longleftrightarrow> ba_Throttle ar (ba_Quotient ar (ba_Window ar t) peak)"

definition ba_Cool :: "'p bw_arith \<Rightarrow> 'p \<Rightarrow> u64 \<Rightarrow> bool" where
  "ba_Cool ar peak t \<longleftrightarrow> ba_Reenable ar (ba_Quotient ar (ba_Window ar t) peak)"

datatype bw_state = BwStateNormal | BwStateThrottled | BwStateSevere

record 'p bw_governor =
  bw_Initialized :: bool
  bw_State :: bw_state
  bw_MaxThreads :: u32
  bw_ActiveThreads :: u32
  bw_TransactionsThisWindow :: u64
  bw_TotalTransactions :: u64
  bw_WindowCount :: u64
  bw_CurrentBwGbs :: 'p
  bw_AverageBwGbs :: 'p
  bw_PeakBwGbs :: 'p
  bw_ThrottleEvents :: u64
  bw_ReenableEvents :: u64
  bw_DboPrefetchRequests :: u64
  bw_DboPrefetchHits :: u64

section \<open>Operations\<close>

definition BwGovernorInit ::
  "'p bw_arith \<Rightarrow> bool \<Rightarrow> u32 \<Rightarrow> 'p \<Rightarrow> efi_status \<times> 'p bw_governor option" where
  "BwGovernorInit ar alloc MaxThreads PeakBwGbs =
     (if \<not> alloc then (EFI_OUT_OF_RESOURCES, None)
      else (EFI_SUCCESS, Some
        \<lparr>bw_Initialized = True, bw_State = BwStateNormal, bw_MaxThreads = MaxThreads,
         bw_ActiveThreads = MaxThreads, bw_TransactionsThisWindow = 0, bw_TotalTransactions = 0,
         bw_WindowCount = 0, bw_CurrentBwGbs = ba_Zero ar, bw_AverageBwGbs = ba_Zero ar,
         bw_PeakBwGbs = (if ba_Positive ar PeakBwGbs then PeakBwGbs else ba_Default ar),
         bw_ThrottleEvents = 0, bw_ReenableEvents = 0, bw_DboPrefetchRequests = 0,
         bw_DboPrefetchHits = 0\<rparr>))"

definition BwGovernorV71Init :: "'p bw_arith \<Rightarrow> bool \<Rightarrow> efi_status \<times> 'p bw_governor option" where
  "BwGovernorV71Init ar alloc = BwGovernorInit ar alloc V71_MAX_THREADS (ba_Default ar)"

definition bw_guard ::
  "('p bw_governor \<Rightarrow> 'p bw_governor) \<Rightarrow> 'p bw_governor option \<Rightarrow> 'p bw_governor option" where
  "bw_guard f g = (case g of None \<Rightarrow> None | Some s \<Rightarrow> Some (if \<not> bw_Initialized s then s else f s))"

definition BwGovernorRegisterTransaction ::
  "u32 \<Rightarrow> 'p bw_governor option \<Rightarrow> 'p bw_governor option" where
  "BwGovernorRegisterTransaction Count =
     bw_guard (\<lambda>s. s\<lparr>bw_TransactionsThisWindow := bw_TransactionsThisWindow s + ucast Count,
                      bw_TotalTransactions := bw_TotalTransactions s + ucast Count\<rparr>)"

definition BwGovernorV71RegisterDboPrefetch ::
  "u32 \<Rightarrow> u32 \<Rightarrow> 'p bw_governor option \<Rightarrow> 'p bw_governor option" where
  "BwGovernorV71RegisterDboPrefetch Requests Hits =
     bw_guard (\<lambda>s. s\<lparr>bw_DboPrefetchRequests := bw_DboPrefetchRequests s + ucast Requests,
                      bw_DboPrefetchHits := bw_DboPrefetchHits s + ucast Hits\<rparr>)"

definition bw_throttled_threads :: "u32 \<Rightarrow> u32" where
  "bw_throttled_threads n = of_nat (unat n * 3 div 4)"

definition bw_transition :: "'p bw_arith \<Rightarrow> 'p \<Rightarrow> 'p bw_governor \<Rightarrow> 'p bw_governor" where
  "bw_transition ar utilization s =
     (if ba_Throttle ar utilization then
        (if bw_State s = BwStateNormal then
           s\<lparr>bw_State := BwStateThrottled,
             bw_ActiveThreads := bw_throttled_threads (bw_MaxThreads s),
             bw_ThrottleEvents := bw_ThrottleEvents s + 1\<rparr>
         else if bw_State s = BwStateThrottled then
           s\<lparr>bw_State := BwStateSevere, bw_ActiveThreads := bw_MaxThreads s div 2,
             bw_ThrottleEvents := bw_ThrottleEvents s + 1\<rparr>
         else s)
      else if ba_Reenable ar utilization then
        (if bw_State s = BwStateSevere then
           s\<lparr>bw_State := BwStateThrottled,
             bw_ActiveThreads := bw_throttled_threads (bw_MaxThreads s),
             bw_ReenableEvents := bw_ReenableEvents s + 1\<rparr>
         else if bw_State s = BwStateThrottled then
           s\<lparr>bw_State := BwStateNormal, bw_ActiveThreads := bw_MaxThreads s,
             bw_ReenableEvents := bw_ReenableEvents s + 1\<rparr>
         else s)
      else s)"

definition BwGovernorProcessWindow ::
  "'p bw_arith \<Rightarrow> 'p bw_governor option \<Rightarrow> 'p bw_governor option" where
  "BwGovernorProcessWindow ar =
     bw_guard (\<lambda>s. let s = s\<lparr>bw_WindowCount := bw_WindowCount s + 1\<rparr>;
                        windowBw = ba_Window ar (bw_TransactionsThisWindow s);
                        s = s\<lparr>bw_CurrentBwGbs := windowBw\<rparr>;
                        s = s\<lparr>bw_AverageBwGbs := ba_Average ar (bw_AverageBwGbs s) windowBw\<rparr>;
                        s = bw_transition ar (ba_Quotient ar (bw_CurrentBwGbs s) (bw_PeakBwGbs s)) s
                    in s\<lparr>bw_TransactionsThisWindow := 0\<rparr>)"

definition BwGovernorGetActiveThreads :: "'p bw_governor option \<Rightarrow> u32" where
  "BwGovernorGetActiveThreads g =
     (case g of None \<Rightarrow> V71_MAX_THREADS
      | Some s \<Rightarrow> if \<not> bw_Initialized s then V71_MAX_THREADS else bw_ActiveThreads s)"

definition BwGovernorV71GetEffectiveThreads :: "'p bw_governor option \<Rightarrow> u32" where
  "BwGovernorV71GetEffectiveThreads g =
     (case g of None \<Rightarrow> V71_MAX_THREADS
      | Some s \<Rightarrow>
          if \<not> bw_Initialized s then V71_MAX_THREADS
          else if bw_State s = BwStateNormal then bw_MaxThreads s
          else bw_ActiveThreads s)"

definition BwGovernorGetState :: "'p bw_governor option \<Rightarrow> bw_state" where
  "BwGovernorGetState g = (case g of None \<Rightarrow> BwStateNormal | Some s \<Rightarrow> bw_State s)"

text \<open>The figures \<open>BwGovernorPrintStats\<close> prints.\<close>

record 'p bw_report =
  br_TotalTransactions :: u64
  br_WindowCount :: u64
  br_CurrentBw :: 'p
  br_CurrentPercent :: 'p
  br_PeakBw :: 'p
  br_AverageBw :: 'p
  br_ActiveThreads :: u32
  br_MaxThreads :: u32
  br_State :: bw_state
  br_ThrottleEvents :: u64
  br_ReenableEvents :: u64

definition BwGovernorPrintStats :: "'p bw_arith \<Rightarrow> 'p bw_governor option \<Rightarrow> 'p bw_report option" where
  "BwGovernorPrintStats ar g =
     (case g of None \<Rightarrow> None
      | Some s \<Rightarrow> Some
          \<lparr>br_TotalTransactions = bw_TotalTransactions s, br_WindowCount = bw_WindowCount s,
           br_CurrentBw = bw_CurrentBwGbs s,
           br_CurrentPercent =
             (if ba_Positive ar (bw_PeakBwGbs s)
              then ba_Percent ar (ba_Quotient ar (bw_CurrentBwGbs s) (bw_PeakBwGbs s)) else ba_Zero ar),
           br_PeakBw = bw_PeakBwGbs s, br_AverageBw = bw_AverageBwGbs s,
           br_ActiveThreads = bw_ActiveThreads s, br_MaxThreads = bw_MaxThreads s, br_State = bw_State s,
           br_ThrottleEvents = bw_ThrottleEvents s, br_ReenableEvents = bw_ReenableEvents s\<rparr>)"

section \<open>The abstract governor: a saturating level\<close>

fun bw_level :: "bw_state \<Rightarrow> nat" where
  "bw_level BwStateNormal = 0"
| "bw_level BwStateThrottled = 1"
| "bw_level BwStateSevere = 2"

text \<open>The states are ordered by their level.\<close>

instantiation bw_state :: linorder
begin

definition less_eq_bw_state :: "bw_state \<Rightarrow> bw_state \<Rightarrow> bool" where
  "less_eq_bw_state x y \<longleftrightarrow> bw_level x \<le> bw_level y"

definition less_bw_state :: "bw_state \<Rightarrow> bw_state \<Rightarrow> bool" where
  "less_bw_state x y \<longleftrightarrow> bw_level x < bw_level y"

instance
proof
  fix x y :: bw_state
  assume "x \<le> y" "y \<le> x"
  then show "x = y" by (cases x; cases y) (simp_all add: less_eq_bw_state_def)
qed (auto simp: less_eq_bw_state_def less_bw_state_def)

end

definition level_threads :: "nat \<Rightarrow> nat \<Rightarrow> nat" where
  "level_threads k n = (if k = 0 then n else if k = 1 then n * 3 div 4 else n div 2)"

datatype bw_op = BwRegister u32 | BwPrefetch u32 u32 | BwWindow

fun bw_step :: "'p bw_arith \<Rightarrow> bw_op \<Rightarrow> 'p bw_governor option \<Rightarrow> 'p bw_governor option" where
  "bw_step ar (BwRegister n) g = BwGovernorRegisterTransaction n g"
| "bw_step ar (BwPrefetch r h) g = BwGovernorV71RegisterDboPrefetch r h g"
| "bw_step ar BwWindow g = BwGovernorProcessWindow ar g"

definition bw_run :: "'p bw_arith \<Rightarrow> bw_op list \<Rightarrow> 'p bw_governor option \<Rightarrow> 'p bw_governor option" where
  "bw_run ar ops g = fold (bw_step ar) ops g"

text \<open>The level and the transactions of the window so far.\<close>

fun level_step :: "(u64 \<Rightarrow> bool) \<Rightarrow> (u64 \<Rightarrow> bool) \<Rightarrow> bw_op \<Rightarrow> nat \<times> u64 \<Rightarrow> nat \<times> u64" where
  "level_step hot cool (BwRegister n) (k, t) = (k, t + ucast n)"
| "level_step hot cool (BwPrefetch r h) (k, t) = (k, t)"
| "level_step hot cool BwWindow (k, t) =
     (if hot t then min 2 (k + 1) else if cool t then k - 1 else k, 0)"

definition level_run :: "(u64 \<Rightarrow> bool) \<Rightarrow> (u64 \<Rightarrow> bool) \<Rightarrow> bw_op list \<Rightarrow> nat \<times> u64" where
  "level_run hot cool ops = fold (level_step hot cool) ops (0, 0)"

definition bw_refines :: "u32 \<Rightarrow> 'p \<Rightarrow> nat \<times> u64 \<Rightarrow> 'p bw_governor \<Rightarrow> bool" where
  "bw_refines n peak kt s \<longleftrightarrow>
     bw_Initialized s \<and> bw_MaxThreads s = n \<and> bw_PeakBwGbs s = peak \<and>
     bw_level (bw_State s) = fst kt \<and> bw_TransactionsThisWindow s = snd kt \<and>
     unat (bw_ActiveThreads s) = level_threads (fst kt) (unat n) \<and>
     bw_ThrottleEvents s = bw_ReenableEvents s + of_nat (fst kt)"

lemma throttled_threads_nat: "unat (bw_throttled_threads n) = unat n * 3 div 4"
proof -
  have "unat n < 2 ^ 32" using unsigned_less [of n, where ?'a = nat] by simp
  then show ?thesis unfolding bw_throttled_threads_def by (intro unat_of_nat_small) simp
qed

lemma level_step_refines:
  assumes "bw_refines n peak kt s"
  shows "\<exists>s'. bw_step ar op (Some s) = Some s' \<and>
    bw_refines n peak (level_step (ba_Hot ar peak) (ba_Cool ar peak) op kt) s'"
proof (cases op)
  case BwWindow
  obtain k t where kt: "kt = (k, t)" by (cases kt)
  from assms show ?thesis
    by (cases "bw_State s")
       (auto simp: BwWindow kt bw_refines_def BwGovernorProcessWindow_def bw_guard_def bw_transition_def
          ba_Hot_def ba_Cool_def Let_def level_threads_def throttled_threads_nat unat_div_distrib)
qed (use assms in \<open>cases kt, auto simp: bw_refines_def BwGovernorRegisterTransaction_def
       BwGovernorV71RegisterDboPrefetch_def bw_guard_def\<close>)+

text \<open>The same operations with at least as many transactions registered by each.\<close>

fun bw_heavier :: "bw_op \<Rightarrow> bw_op \<Rightarrow> bool" where
  "bw_heavier (BwRegister n) (BwRegister n') \<longleftrightarrow> n \<le> n'"
| "bw_heavier (BwPrefetch r h) (BwPrefetch r' h') \<longleftrightarrow> True"
| "bw_heavier BwWindow BwWindow \<longleftrightarrow> True"
| "bw_heavier _ _ \<longleftrightarrow> False"

lemma unat_register:
  assumes "unat (t :: u64) + 2 ^ 32 \<le> 2 ^ 64"
  shows "unat (t + ucast (n :: u32)) = unat t + unat n"
proof -
  have "unat n < 2 ^ 32" using unsigned_less [of n, where ?'a = nat] by simp
  moreover from this have "unat (ucast n :: u64) = unat n"
    by (simp add: unsigned_ucast_eq take_bit_nat_eq_self)
  ultimately show ?thesis using assms by (simp add: unat_word_ariths)
qed

lemma level_fold_mono:
  assumes hot: "\<And>t t'. t \<le> t' \<Longrightarrow> hot t \<Longrightarrow> hot t'" and cool: "\<And>t t'. t \<le> t' \<Longrightarrow> cool t' \<Longrightarrow> cool t"
    and "list_all2 bw_heavier ops ops'" "k \<le> k'" "k' \<le> 2" "t \<le> t'"
    and "unat t' + length ops * 2 ^ 32 \<le> 2 ^ 64"
  shows "fst (fold (level_step hot cool) ops (k, t)) \<le> fst (fold (level_step hot cool) ops' (k', t')) \<and>
    fst (fold (level_step hot cool) ops' (k', t')) \<le> 2"
  using assms(3-)
proof (induction arbitrary: k k' t t' rule: list_all2_induct)
  case (Cons op ops op' ops')
  note IH = Cons.IH
  show ?case
  proof (cases op)
    case (BwRegister n)
    then obtain n' where op': "op' = BwRegister n'" "n \<le> n'" using Cons.hyps by (cases op') auto
    have room: "unat t' + 2 ^ 32 \<le> 2 ^ 64" "unat t + 2 ^ 32 \<le> 2 ^ 64"
      using Cons.prems by (auto simp: word_le_nat_alt)
    have n': "unat n' < 2 ^ 32" using unsigned_less [of n', where ?'a = nat] by simp
    show ?thesis
      using IH [of k k' "t + ucast n" "t' + ucast n'"] Cons.prems op' n' room
      by (simp add: BwRegister word_le_nat_alt unat_register)
  next
    case (BwPrefetch r h)
    then obtain r' h' where "op' = BwPrefetch r' h'" using Cons.hyps by (cases op') auto
    then show ?thesis using IH [of k k' t t'] Cons.prems by (simp add: BwPrefetch)
  next
    case BwWindow
    then have op': "op' = BwWindow" using Cons.hyps by (cases op') auto
    define j where "j = (if hot t then min 2 (k + 1) else if cool t then k - 1 else k)"
    define j' where "j' = (if hot t' then min 2 (k' + 1) else if cool t' then k' - 1 else k')"
    have "j \<le> j'" "j' \<le> 2"
      unfolding j_def j'_def
      using Cons.prems hot [OF Cons.prems(3)] cool [OF Cons.prems(3)] by auto
    then have "fst (fold (level_step hot cool) ops (j, 0)) \<le> fst (fold (level_step hot cool) ops' (j', 0)) \<and>
        fst (fold (level_step hot cool) ops' (j', 0)) \<le> 2"
      using Cons.prems(4) by (intro IH) simp_all
    then show ?thesis by (simp only: BwWindow op' fold_simps level_step.simps j_def j'_def)
  qed
qed simp

lemma level_threads_antimono: "k \<le> k' \<Longrightarrow> level_threads k' n \<le> level_threads k n"
proof -
  have "n * 3 div 4 \<le> n" "n div 2 \<le> n * 3 div 4" by linarith+
  moreover assume "k \<le> k'"
  ultimately show ?thesis by (auto simp: level_threads_def)
qed

lemma bw_run_refines:
  assumes "BwGovernorInit ar True n p = (st, g)"
  defines "peak \<equiv> (if ba_Positive ar p then p else ba_Default ar)"
  shows "\<exists>s. bw_run ar ops g = Some s \<and>
    bw_refines n peak (level_run (ba_Hot ar peak) (ba_Cool ar peak) ops) s"
proof (induction ops rule: rev_induct)
  case Nil
  then show ?case
    using assms(1)
    by (auto simp: BwGovernorInit_def bw_run_def level_run_def bw_refines_def level_threads_def peak_def)
next
  case (snoc op ops)
  then obtain s where s: "bw_run ar ops g = Some s"
    "bw_refines n peak (level_run (ba_Hot ar peak) (ba_Cool ar peak) ops) s" by blast
  from level_step_refines [OF s(2), of ar op] s(1) show ?case
    by (simp add: bw_run_def level_run_def)
qed

text \<open>What is printed after a window: the bandwidth of that window, and the threads of the level.\<close>

lemma bw_print_window:
  assumes "BwGovernorInit ar True n p = (st, g)"
    and "peak = (if ba_Positive ar p then p else ba_Default ar)"
  shows "\<exists>r. BwGovernorPrintStats ar (bw_run ar (ops @ [BwWindow]) g) = Some r \<and>
    br_CurrentBw r = ba_Window ar (snd (level_run (ba_Hot ar peak) (ba_Cool ar peak) ops)) \<and>
    unat (br_ActiveThreads r) =
      level_threads (fst (level_run (ba_Hot ar peak) (ba_Cool ar peak) (ops @ [BwWindow]))) (unat n)"
proof -
  obtain s where s: "bw_run ar ops g = Some s"
    "bw_refines n peak (level_run (ba_Hot ar peak) (ba_Cool ar peak) ops) s"
    using bw_run_refines [OF assms(1)] unfolding assms(2) by blast
  obtain s' where s': "bw_run ar (ops @ [BwWindow]) g = Some s'"
    "bw_refines n peak (level_run (ba_Hot ar peak) (ba_Cool ar peak) (ops @ [BwWindow])) s'"
    using bw_run_refines [OF assms(1)] unfolding assms(2) by blast
  have "BwGovernorProcessWindow ar (Some s) = Some s'"
    using s(1) s'(1) by (simp add: bw_run_def)
  then have "bw_CurrentBwGbs s' = ba_Window ar (bw_TransactionsThisWindow s)"
    using s(2) by (auto simp: BwGovernorProcessWindow_def bw_guard_def bw_transition_def bw_refines_def Let_def)
  with s s' show ?thesis by (simp add: BwGovernorPrintStats_def bw_refines_def)
qed

section \<open>Properties\<close>

text \<open>C35: the governor refines a level between 0 and 2: one step up after a window at or above the
  throttle threshold, one down after a window at or below the re-enable threshold, none
  between, never two steps at once. The active threads are all, three quarters or half of the
  maximum by level, the throttle events exceed the re-enable events by the level, and both
  thread queries agree.\<close>

theorem bw_governor_refines_level:
  fixes ops :: "bw_op list"
  assumes "BwGovernorInit ar True n p = (st, g)"
  defines "peak \<equiv> (if ba_Positive ar p then p else ba_Default ar)"
  defines "k \<equiv> fst (level_run (ba_Hot ar peak) (ba_Cool ar peak) ops)"
  shows "bw_level (BwGovernorGetState (bw_run ar ops g)) = k \<and>
    unat (BwGovernorGetActiveThreads (bw_run ar ops g)) = level_threads k (unat n) \<and>
    BwGovernorV71GetEffectiveThreads (bw_run ar ops g) = BwGovernorGetActiveThreads (bw_run ar ops g) \<and>
    (\<exists>s. bw_run ar ops g = Some s \<and> bw_ThrottleEvents s = bw_ReenableEvents s + of_nat k)"
proof -
  obtain s where s: "bw_run ar ops g = Some s"
    "bw_refines n peak (level_run (ba_Hot ar peak) (ba_Cool ar peak) ops) s"
    using bw_run_refines [OF assms(1)] unfolding peak_def by blast
  have "bw_MaxThreads s = bw_ActiveThreads s" if "bw_State s = BwStateNormal"
  proof -
    have "k = 0" using s(2) that by (simp add: bw_refines_def k_def)
    then show ?thesis
      using s(2) by (simp add: bw_refines_def k_def level_threads_def word_unat_eq_iff)
  qed
  with s show ?thesis
    by (simp add: bw_refines_def k_def BwGovernorGetState_def BwGovernorGetActiveThreads_def
        BwGovernorV71GetEffectiveThreads_def)
qed

text \<open>The constants of the code, with rational numbers in place of doubles.\<close>

definition bw64 :: "rat bw_arith" where
  "bw64 = \<lparr>ba_Default = 64, ba_Zero = 0, ba_Positive = (\<lambda>x. 0 < x), ba_Window = (\<lambda>n. of_nat (unat n) * 15 / 100),
     ba_Average = (\<lambda>a w. a * 9 / 10 + w / 10), ba_Quotient = (\<lambda>a b. a / b), ba_Throttle = (\<lambda>x. 85 / 100 \<le> x),
     ba_Reenable = (\<lambda>x. x \<le> 60 / 100), ba_Percent = (\<lambda>x. x * 100)\<rparr>"

theorem bw_governor_refines_level_witness:
  "unat (BwGovernorGetActiveThreads (bw_run bw64 [BwRegister 400, BwWindow, BwRegister 300, BwWindow]
     (snd (BwGovernorInit bw64 True 84 64)))) = 63"
  using bw_governor_refines_level [of bw64 84 64 "fst (BwGovernorInit bw64 True 84 64)"
      "snd (BwGovernorInit bw64 True 84 64)" "[BwRegister 400, BwWindow, BwRegister 300, BwWindow]"]
  by (simp add: level_run_def bw64_def level_threads_def ba_Hot_def ba_Cool_def)

text \<open>The governor is monotone in the load: when at least as much traffic is registered between
  the same windows, the state is at least as severe and no more threads run, provided the
  utilisation grows with the transactions and at most \<open>2 ^ 32\<close> operations keep the window's
  64-bit counter from wrapping. The hysteresis does not break this: the same history with more
  load never leaves more threads active.\<close>

theorem bw_governor_monotone:
  fixes ops ops' :: "bw_op list"
  assumes "BwGovernorInit ar True n p = (st, g)"
    and "peak = (if ba_Positive ar p then p else ba_Default ar)"
    and "\<And>t t'. t \<le> t' \<Longrightarrow> ba_Hot ar peak t \<Longrightarrow> ba_Hot ar peak t'"
    and "\<And>t t'. t \<le> t' \<Longrightarrow> ba_Cool ar peak t' \<Longrightarrow> ba_Cool ar peak t"
    and "list_all2 bw_heavier ops ops'" "length ops \<le> 2 ^ 32"
  shows "BwGovernorGetState (bw_run ar ops g) \<le> BwGovernorGetState (bw_run ar ops' g) \<and>
    BwGovernorGetActiveThreads (bw_run ar ops' g) \<le> BwGovernorGetActiveThreads (bw_run ar ops g)"
proof -
  let ?level = "level_run (ba_Hot ar peak) (ba_Cool ar peak)"
  have mono: "fst (?level ops) \<le> fst (?level ops')"
    unfolding level_run_def
    by (rule conjunct1 [OF level_fold_mono])
      (use assms(6) in \<open>auto intro: assms(3-5)\<close>)
  obtain s where s: "bw_run ar ops g = Some s" "bw_refines n peak (?level ops) s"
    using bw_run_refines [OF assms(1)] unfolding assms(2) by blast
  obtain s' where s': "bw_run ar ops' g = Some s'" "bw_refines n peak (?level ops') s'"
    using bw_run_refines [OF assms(1)] unfolding assms(2) by blast
  show ?thesis
    using mono s s' level_threads_antimono [OF mono, of "unat n"]
    by (simp add: bw_refines_def less_eq_bw_state_def BwGovernorGetState_def
        BwGovernorGetActiveThreads_def word_le_nat_alt)
qed

theorem bw_governor_monotone_witness:
  "BwGovernorGetState (bw_run bw64 [BwRegister 300, BwWindow] (snd (BwGovernorInit bw64 True 84 64))) \<le>
   BwGovernorGetState (bw_run bw64 [BwRegister 400, BwWindow] (snd (BwGovernorInit bw64 True 84 64)))"
proof -
  have "list_all2 bw_heavier [BwRegister 300, BwWindow] [BwRegister 400, BwWindow]" by simp
  moreover have "ba_Hot bw64 64 t \<Longrightarrow> ba_Hot bw64 64 t'" "ba_Cool bw64 64 t' \<Longrightarrow> ba_Cool bw64 64 t" if "t \<le> t'" for t t'
  proof -
    have "(of_nat (unat t) :: rat) \<le> of_nat (unat t')"
      using that unfolding of_nat_le_iff by (simp add: word_le_nat_alt)
    then show "ba_Hot bw64 64 t \<Longrightarrow> ba_Hot bw64 64 t'" "ba_Cool bw64 64 t' \<Longrightarrow> ba_Cool bw64 64 t"
      unfolding ba_Hot_def ba_Cool_def bw64_def by simp_all
  qed
  ultimately show ?thesis
    by (intro conjunct1 [OF bw_governor_monotone [of bw64 84 64 "fst (BwGovernorInit bw64 True 84 64)" _ 64]])
       (simp_all add: bw64_def)
qed

end
