(* ===== verification/InterruptLatency.thy ===== *)
theory InterruptLatency
  imports Prelude "HOL-Library.Multiset"
begin

text \<open>
  The interrupt-latency framework, \<open>performance/interrupt/interruptlatency.c\<close>: a table of 256
  event slots, 256 handlers, and the statistics. The time-stamp counter an operation reads is
  an argument of it.
\<close>

section \<open>State\<close>

definition MAX_INTERRUPT_VECTORS :: nat where "MAX_INTERRUPT_VECTORS = 256"
definition POSTED_INTERRUPT_VECTOR :: u8 where "POSTED_INTERRUPT_VECTOR = 0xFE"
definition INTERRUPT_COALESCE_WINDOW :: u64 where "INTERRUPT_COALESCE_WINDOW = 100"

record intr_event =
  ie_Vector :: u8
  ie_ArrivalTime :: u64
  ie_DeliveryTime :: u64
  ie_Pending :: bool
  ie_Coalesced :: bool

record intr_handler =
  ih_Vector :: u8
  ih_HandlerAddress :: u64
  ih_Registered :: bool
  ih_TotalLatency :: u64
  ih_MaxLatency :: u64
  ih_Count :: u64

record intr_state =
  il_Events :: "nat \<Rightarrow> intr_event"
  il_Handlers :: "nat \<Rightarrow> intr_handler"
  il_MaxObservedLatency :: u64
  il_TotalInterrupts :: u64
  il_PostedInterrupts :: u64
  il_CoalescedInterrupts :: u64
  il_FastPathInterrupts :: u64

definition InterruptLatencyInit :: intr_state where
  "InterruptLatencyInit =
     \<lparr>il_Events = (\<lambda>_. \<lparr>ie_Vector = 0, ie_ArrivalTime = 0, ie_DeliveryTime = 0, ie_Pending = False,
        ie_Coalesced = False\<rparr>),
      il_Handlers = (\<lambda>_. \<lparr>ih_Vector = 0, ih_HandlerAddress = 0, ih_Registered = False,
        ih_TotalLatency = 0, ih_MaxLatency = 0, ih_Count = 0\<rparr>),
      il_MaxObservedLatency = 0, il_TotalInterrupts = 0, il_PostedInterrupts = 0,
      il_CoalescedInterrupts = 0, il_FastPathInterrupts = 0\<rparr>"

section \<open>Operations\<close>

definition InterruptRegisterHandler :: "u8 \<Rightarrow> u64 \<Rightarrow> intr_state \<Rightarrow> efi_status \<times> intr_state" where
  "InterruptRegisterHandler Vector HandlerAddress s =
     (if unat Vector \<ge> MAX_INTERRUPT_VECTORS then (EFI_INVALID_PARAMETER, s)
      else (EFI_SUCCESS, s\<lparr>il_Handlers := (il_Handlers s)(unat Vector :=
        (il_Handlers s (unat Vector))\<lparr>ih_Vector := Vector, ih_HandlerAddress := HandlerAddress,
           ih_Registered := True\<rparr>)\<rparr>))"

text \<open>Slot \<open>i\<close> holds a pending event of the vector; that event is recent enough to coalesce with.\<close>

definition pending_for :: "intr_state \<Rightarrow> u8 \<Rightarrow> nat \<Rightarrow> bool" where
  "pending_for s Vector i \<longleftrightarrow> ie_Pending (il_Events s i) \<and> ie_Vector (il_Events s i) = Vector"

definition coalesces :: "intr_state \<Rightarrow> u8 \<Rightarrow> u64 \<Rightarrow> nat \<Rightarrow> bool" where
  "coalesces s Vector t i \<longleftrightarrow>
     pending_for s Vector i \<and> t - ie_ArrivalTime (il_Events s i) < INTERRUPT_COALESCE_WINDOW"

definition put_event :: "nat \<Rightarrow> intr_event \<Rightarrow> intr_state \<Rightarrow> intr_state" where
  "put_event i e s = s\<lparr>il_Events := (il_Events s)(i := e)\<rparr>"

definition InterruptTrigger :: "u64 \<Rightarrow> u8 \<Rightarrow> intr_state \<Rightarrow> intr_state" where
  "InterruptTrigger arrivalTime Vector s =
     (let s = s\<lparr>il_TotalInterrupts := il_TotalInterrupts s + 1\<rparr> in
      case find (coalesces s Vector arrivalTime) [0..<MAX_INTERRUPT_VECTORS] of
        Some i \<Rightarrow>
          (put_event i ((il_Events s i)\<lparr>ie_Coalesced := True\<rparr>) s)
            \<lparr>il_CoalescedInterrupts := il_CoalescedInterrupts s + 1\<rparr>
      | None \<Rightarrow>
          (case find (\<lambda>i. \<not> ie_Pending (il_Events s i)) [0..<MAX_INTERRUPT_VECTORS] of
             None \<Rightarrow> s
           | Some i \<Rightarrow> put_event i ((il_Events s i)\<lparr>ie_Vector := Vector, ie_ArrivalTime := arrivalTime,
                 ie_Pending := True, ie_Coalesced := False\<rparr>) s))"

definition count_latency :: "u64 \<Rightarrow> intr_handler \<Rightarrow> intr_handler" where
  "count_latency latency h =
     (let h = h\<lparr>ih_TotalLatency := ih_TotalLatency h + latency, ih_Count := ih_Count h + 1\<rparr>
      in if latency > ih_MaxLatency h then h\<lparr>ih_MaxLatency := latency\<rparr> else h)"

definition InterruptDeliver :: "u64 \<Rightarrow> u8 \<Rightarrow> intr_state \<Rightarrow> intr_state" where
  "InterruptDeliver deliveryTime Vector s =
     (let (latency, s) =
        (case find (pending_for s Vector) [0..<MAX_INTERRUPT_VECTORS] of
           None \<Rightarrow> (0, s)
         | Some i \<Rightarrow>
             (let latency = deliveryTime - ie_ArrivalTime (il_Events s i);
                  s = put_event i ((il_Events s i)\<lparr>ie_DeliveryTime := deliveryTime, ie_Pending := False\<rparr>) s;
                  s = (if latency > il_MaxObservedLatency s
                       then s\<lparr>il_MaxObservedLatency := latency\<rparr> else s);
                  s = (if ih_Registered (il_Handlers s (unat Vector))
                       then s\<lparr>il_Handlers := (il_Handlers s)(unat Vector :=
                              count_latency latency (il_Handlers s (unat Vector)))\<rparr> else s)
              in (latency, s)))
      in if latency < 5 then s\<lparr>il_FastPathInterrupts := il_FastPathInterrupts s + 1\<rparr> else s)"

definition InterruptUsePosted :: "u8 \<Rightarrow> intr_state \<Rightarrow> bool \<times> intr_state" where
  "InterruptUsePosted Vector s =
     (if Vector = POSTED_INTERRUPT_VECTOR
      then (True, s\<lparr>il_PostedInterrupts := il_PostedInterrupts s + 1\<rparr>) else (False, s))"

definition InterruptUseFastPath :: "u8 \<Rightarrow> u64 \<Rightarrow> bool" where
  "InterruptUseFastPath Vector CurrentLatency = (if CurrentLatency < 1000 then True else Vector < 32)"

definition InterruptGetStats :: "intr_state \<Rightarrow> u64 \<times> u64 \<times> u64 \<times> u64 \<times> u64" where
  "InterruptGetStats s = (il_TotalInterrupts s, il_MaxObservedLatency s, il_PostedInterrupts s,
     il_CoalescedInterrupts s, il_FastPathInterrupts s)"

section \<open>The pending vectors as a multiset\<close>

definition pending_slots :: "intr_state \<Rightarrow> nat set" where
  "pending_slots s = {i. i < MAX_INTERRUPT_VECTORS \<and> ie_Pending (il_Events s i)}"

definition pending_vectors :: "intr_state \<Rightarrow> u8 multiset" where
  "pending_vectors s = image_mset (\<lambda>i. ie_Vector (il_Events s i)) (mset_set (pending_slots s))"

lemma finite_slots [simp]: "finite (pending_slots s)"
  by (simp add: pending_slots_def)

lemma pending_size: "size (pending_vectors s) = card (pending_slots s)"
  by (simp add: pending_vectors_def)

lemma pending_cong:
  assumes "\<And>i. ie_Pending (il_Events s' i) = ie_Pending (il_Events s i)"
    "\<And>i. ie_Vector (il_Events s' i) = ie_Vector (il_Events s i)"
  shows "pending_vectors s' = pending_vectors s"
  using assms by (simp add: pending_vectors_def pending_slots_def)

lemma pending_add:
  assumes "i < MAX_INTERRUPT_VECTORS" "\<not> ie_Pending (il_Events s i)" "ie_Pending e"
  shows "pending_vectors (put_event i e s) = add_mset (ie_Vector e) (pending_vectors s)"
proof -
  have slots: "pending_slots (put_event i e s) = insert i (pending_slots s)"
    using assms by (auto simp: pending_slots_def put_event_def)
  have i: "i \<notin> pending_slots s" using assms(2) by (simp add: pending_slots_def)
  have "image_mset (\<lambda>j. ie_Vector (il_Events (put_event i e s) j)) (mset_set (pending_slots s)) =
      pending_vectors s"
    unfolding pending_vectors_def using i by (intro image_mset_cong) (auto simp: put_event_def)
  then show ?thesis
    using i by (simp add: pending_vectors_def [of "put_event i e s"] slots) (simp add: put_event_def)
qed

lemma pending_remove:
  assumes "i < MAX_INTERRUPT_VECTORS" "ie_Pending (il_Events s i)" "\<not> ie_Pending e"
  shows "pending_vectors s = add_mset (ie_Vector (il_Events s i)) (pending_vectors (put_event i e s))"
proof -
  have "put_event i (il_Events s i) (put_event i e s) = s" by (simp add: put_event_def)
  with pending_add [of i "put_event i e s" "il_Events s i"] assms show ?thesis
    by (simp add: put_event_def)
qed

lemma find_upt_Some: "find P [0..<n] = Some i \<Longrightarrow> i < n \<and> P i"
  by (auto simp: find_Some_iff)

lemma find_upt_None: "find P [0..<n] = None \<longleftrightarrow> (\<forall>i<n. \<not> P i)"
  by (auto simp: find_None_iff)

lemma pending_member: "v \<in># pending_vectors s \<longleftrightarrow> (\<exists>i<MAX_INTERRUPT_VECTORS. pending_for s v i)"
  by (auto simp: pending_vectors_def pending_slots_def pending_for_def)

lemma pending_full: "size (pending_vectors s) < MAX_INTERRUPT_VECTORS \<longleftrightarrow>
    (\<exists>i<MAX_INTERRUPT_VECTORS. \<not> ie_Pending (il_Events s i))"
proof -
  have sub: "pending_slots s \<subseteq> {..<MAX_INTERRUPT_VECTORS}" by (auto simp: pending_slots_def)
  have "card (pending_slots s) < card {..<MAX_INTERRUPT_VECTORS} \<longleftrightarrow>
      pending_slots s \<noteq> {..<MAX_INTERRUPT_VECTORS}"
    using card_subset_eq [OF finite_lessThan sub] card_mono [OF finite_lessThan sub] by fastforce
  moreover have "pending_slots s \<noteq> {..<MAX_INTERRUPT_VECTORS} \<longleftrightarrow>
      (\<exists>i<MAX_INTERRUPT_VECTORS. \<not> ie_Pending (il_Events s i))"
    by (auto simp: pending_slots_def)
  ultimately show ?thesis by (simp add: pending_size)
qed

lemma pending_counters [simp]:
  "pending_vectors (x\<lparr>il_CoalescedInterrupts := n\<rparr>) = pending_vectors x"
  "pending_vectors (x\<lparr>il_TotalInterrupts := n\<rparr>) = pending_vectors x"
  "pending_vectors (x\<lparr>il_FastPathInterrupts := n\<rparr>) = pending_vectors x"
  "pending_vectors (x\<lparr>il_MaxObservedLatency := n\<rparr>) = pending_vectors x"
  "pending_vectors (x\<lparr>il_Handlers := h\<rparr>) = pending_vectors x"
  by (rule pending_cong; simp)+

lemma pending_at_most: "size (pending_vectors s) \<le> MAX_INTERRUPT_VECTORS"
proof -
  have "size (pending_vectors s) \<le> card {..<MAX_INTERRUPT_VECTORS}"
    unfolding pending_size by (intro card_mono) (auto simp: pending_slots_def)
  then show ?thesis by simp
qed

lemma trigger_bag:
  "pending_vectors (InterruptTrigger t v s) =
     (if \<exists>i<256. coalesces s v t i then pending_vectors s
      else if size (pending_vectors s) < 256 then add_mset v (pending_vectors s)
      else pending_vectors s) \<and>
   il_CoalescedInterrupts (InterruptTrigger t v s) =
     il_CoalescedInterrupts s + (if \<exists>i<256. coalesces s v t i then 1 else 0) \<and>
   il_TotalInterrupts (InterruptTrigger t v s) = il_TotalInterrupts s + 1"
proof -
  let ?s = "s\<lparr>il_TotalInterrupts := il_TotalInterrupts s + 1\<rparr>"
  have c: "coalesces ?s v t = coalesces s v t"
    by (simp add: coalesces_def pending_for_def fun_eq_iff)
  show ?thesis
  proof (cases "find (coalesces s v t) [0..<256]")
    case (Some i)
    then have "\<exists>i<256. coalesces s v t i" using find_upt_Some by blast
    moreover have "pending_vectors (put_event i ((il_Events s i)\<lparr>ie_Coalesced := True\<rparr>) ?s) = pending_vectors s"
      by (rule pending_cong) (simp_all add: put_event_def)
    ultimately show ?thesis
      using Some by (simp add: InterruptTrigger_def Let_def c MAX_INTERRUPT_VECTORS_def) (simp add: put_event_def)
  next
    case none: None
    then have nc: "\<not> (\<exists>i<256. coalesces s v t i)" by (simp add: find_upt_None)
    show ?thesis
    proof (cases "find (\<lambda>i. \<not> ie_Pending (il_Events s i)) [0..<256]")
      case None
      then have "\<not> size (pending_vectors s) < 256"
        using pending_full [of s] by (simp add: find_upt_None MAX_INTERRUPT_VECTORS_def)
      then show ?thesis using none None nc by (simp add: InterruptTrigger_def Let_def c MAX_INTERRUPT_VECTORS_def)
    next
      case (Some i)
      then have i: "i < 256" "\<not> ie_Pending (il_Events s i)" using find_upt_Some by blast+
      then have "size (pending_vectors s) < 256" using pending_full [of s] by (auto simp: MAX_INTERRUPT_VECTORS_def)
      moreover have "pending_vectors (put_event i ((il_Events s i)\<lparr>ie_Vector := v, ie_ArrivalTime := t,
          ie_Pending := True, ie_Coalesced := False\<rparr>) ?s) = add_mset v (pending_vectors s)"
        using pending_add [of i ?s] i by (simp add: MAX_INTERRUPT_VECTORS_def)
      ultimately show ?thesis
        using none Some nc by (simp add: InterruptTrigger_def Let_def c MAX_INTERRUPT_VECTORS_def) (simp add: put_event_def)
    qed
  qed
qed

lemma deliver_bag: "pending_vectors (InterruptDeliver t v s) = pending_vectors s - {#v#}"
proof (cases "find (pending_for s v) [0..<256]")
  case None
  then have "v \<notin># pending_vectors s" by (simp add: find_upt_None pending_member MAX_INTERRUPT_VECTORS_def)
  then show ?thesis using None by (simp add: InterruptDeliver_def Let_def MAX_INTERRUPT_VECTORS_def)
next
  case (Some i)
  then have i: "i < 256" "ie_Pending (il_Events s i)" "ie_Vector (il_Events s i) = v"
    using find_upt_Some [OF Some] by (simp_all add: pending_for_def)
  have "pending_vectors (put_event i ((il_Events s i)\<lparr>ie_DeliveryTime := t, ie_Pending := False\<rparr>) s) =
      pending_vectors s - {#v#}"
    using pending_remove [of i s "(il_Events s i)\<lparr>ie_DeliveryTime := t, ie_Pending := False\<rparr>"] i
    by (simp add: MAX_INTERRUPT_VECTORS_def)
  then show ?thesis using Some by (simp add: InterruptDeliver_def Let_def MAX_INTERRUPT_VECTORS_def)
qed

section \<open>Properties\<close>

text \<open>C27: the event table is a bag of at most 256 vectors. Triggering a vector adds it, except when
  an event of the same vector arrived less than 100 ticks ago (the two are merged and counted
  as coalesced) or when the bag is full: then the interrupt is dropped without a trace, though
  it is counted. Delivering a vector takes one out, if there is one.\<close>

theorem interrupt_bag:
  "pending_vectors (InterruptTrigger t v s) =
     (if \<exists>i<256. coalesces s v t i then pending_vectors s
      else if size (pending_vectors s) < 256 then add_mset v (pending_vectors s)
      else pending_vectors s) \<and>
   il_CoalescedInterrupts (InterruptTrigger t v s) =
     il_CoalescedInterrupts s + (if \<exists>i<256. coalesces s v t i then 1 else 0) \<and>
   il_TotalInterrupts (InterruptTrigger t v s) = il_TotalInterrupts s + 1 \<and>
   pending_vectors (InterruptDeliver t v s) = pending_vectors s - {#v#} \<and>
   size (pending_vectors s) \<le> 256"
  using trigger_bag [of t v s] deliver_bag [of t v s] pending_at_most [of s]
  by (simp add: MAX_INTERRUPT_VECTORS_def)

text \<open>Delivering a pending vector measures its latency from the arrival of the first pending
  slot of that vector, charges it to a registered handler, and counts it as fast when it is
  below 5; delivering a vector that nobody triggered changes nothing but the fast-path count,
  which it increments.\<close>

theorem interrupt_deliver_latency:
  "case find (pending_for s v) [0..<256] of
     None \<Rightarrow> InterruptDeliver t v s = s\<lparr>il_FastPathInterrupts := il_FastPathInterrupts s + 1\<rparr>
   | Some i \<Rightarrow>
       (let l = t - ie_ArrivalTime (il_Events s i); s' = InterruptDeliver t v s in
         il_MaxObservedLatency s' = max (il_MaxObservedLatency s) l \<and>
         il_FastPathInterrupts s' = il_FastPathInterrupts s + (if l < 5 then 1 else 0) \<and>
         (if ih_Registered (il_Handlers s (unat v))
          then ih_Count (il_Handlers s' (unat v)) = ih_Count (il_Handlers s (unat v)) + 1 \<and>
            ih_TotalLatency (il_Handlers s' (unat v)) = ih_TotalLatency (il_Handlers s (unat v)) + l \<and>
            ih_MaxLatency (il_Handlers s' (unat v)) = max (ih_MaxLatency (il_Handlers s (unat v))) l
          else il_Handlers s' = il_Handlers s))"
  by (auto simp: InterruptDeliver_def Let_def MAX_INTERRUPT_VECTORS_def put_event_def count_latency_def
      max_def split: option.splits)

end
