(* ===== verification/ByteLayout.thy ===== *)
theory ByteLayout
  imports Prelude
begin

text \<open>
  Buffers of bytes that the firmware fills in place: a write at an offset, little-endian
  fields, and tables of fixed-width records. The locale \<open>packed_records\<close> is the contract of a
  structure whose bytes are written one after the other through a moving pointer; the ACPI
  table, the E820 map and their readers use it.
\<close>

section \<open>Writes at an offset\<close>

definition put_bytes :: "nat \<Rightarrow> u8 list \<Rightarrow> u8 list \<Rightarrow> u8 list" where
  "put_bytes off bs buf = take off buf @ bs @ drop (off + length bs) buf"

lemma length_put_bytes [simp]:
  "off + length bs \<le> length buf \<Longrightarrow> length (put_bytes off bs buf) = length buf"
  by (simp add: put_bytes_def)

lemma put_bytes_append:
  assumes "p + length xs + length ys \<le> length buf"
  shows "put_bytes (p + length xs) ys (put_bytes p xs buf) = put_bytes p (xs @ ys) buf"
  using assms by (cases xs) (auto simp: put_bytes_def min_def ac_simps)

lemma put_bytes_nil [simp]: "put_bytes p [] buf = buf"
  by (simp add: put_bytes_def)

lemma put_bytes_whole:
  "length bs = length buf \<Longrightarrow> put_bytes 0 bs buf = bs"
  by (simp add: put_bytes_def)

lemma put_bytes_prefix:
  "length hs = length xs \<Longrightarrow> put_bytes 0 hs (xs @ ys) = hs @ ys"
  by (simp add: put_bytes_def)

section \<open>Little-endian fields\<close>

definition le_bytes :: "nat \<Rightarrow> 'a::len word \<Rightarrow> u8 list" where
  "le_bytes n w = map (\<lambda>i. ucast (drop_bit (8 * i) w)) [0..<n]"

fun le_word :: "u8 list \<Rightarrow> 'a::len word" where
  "le_word [] = 0"
| "le_word (b # bs) = ucast b OR push_bit 8 (le_word bs)"

lemma length_le_bytes [simp]: "length (le_bytes n w) = n"
  by (simp add: le_bytes_def)

lemma bit_le_word:
  "bit (le_word bs :: 'a::len word) i \<longleftrightarrow>
     i < LENGTH('a) \<and> i div 8 < length bs \<and> bit (bs ! (i div 8)) (i mod 8)"
proof (induction bs arbitrary: i)
  case (Cons b bs)
  show ?case
  proof (cases "i < 8")
    case True
    then show ?thesis
      by (auto simp: bit_or_iff bit_push_bit_iff bit_ucast_iff possible_bit_def)
  next
    case False
    then obtain j where j: "i = 8 + j" using le_Suc_ex [of 8 i] by auto
    have "\<not> bit b (8 + j)" using bit_imp_le_length [of b "8 + j"] by auto
    moreover have "(8 + j) div 8 = Suc (j div 8)" "(8 + j) mod 8 = j mod 8" by simp_all
    ultimately show ?thesis
      using Cons.IH [of j]
      by (auto simp: j bit_or_iff bit_push_bit_iff bit_ucast_iff possible_bit_def)
  qed
qed simp

lemma le_word_le_bytes:
  assumes "LENGTH('a::len) \<le> 8 * n"
  shows "le_word (le_bytes n (w :: 'a word)) = w"
proof (rule bit_word_eqI)
  fix i assume i: "i < LENGTH('a)"
  then have k: "i div 8 < n" using assms by linarith
  have "8 * (i div 8) + i mod 8 = i" by simp
  then have "bit (le_bytes n w ! (i div 8)) (i mod 8) = bit w i"
    using k by (simp add: le_bytes_def bit_ucast_iff bit_drop_bit_eq)
  with i k show "bit (le_word (le_bytes n w) :: 'a word) i = bit w i"
    by (simp add: bit_le_word)
qed

section \<open>Sums of bytes\<close>

definition byte_sum :: "u8 list \<Rightarrow> u8" where
  "byte_sum bs = fold (\<lambda>b s. s + b) bs 0"

lemma byte_sum_from: "fold (\<lambda>b s. s + b) bs (x :: u8) = x + sum_list bs"
  by (induction bs arbitrary: x) (simp_all add: add.assoc)

lemma byte_sum_append [simp]: "byte_sum (xs @ ys) = byte_sum xs + byte_sum ys"
  by (simp add: byte_sum_def byte_sum_from)

lemma byte_sum_Cons [simp]: "byte_sum (b # bs) = b + byte_sum bs"
  using byte_sum_append [of "[b]" bs] by (simp add: byte_sum_def)

lemma byte_sum_Nil [simp]: "byte_sum [] = 0"
  by (simp add: byte_sum_def)

section \<open>Tables of fixed-width records\<close>

locale packed_records =
  fixes enc :: "'r \<Rightarrow> u8 list" and width :: nat
  assumes enc_length: "length (enc x) = width"
begin

definition table :: "'r list \<Rightarrow> u8 list" where
  "table xs = concat (map enc xs)"

lemma length_table: "length (table xs) = width * length xs"
  by (induction xs) (simp_all add: table_def enc_length)

lemma table_record:
  assumes "i < length xs"
  shows "take width (drop (i * width) (table xs @ ys)) = enc (xs ! i)"
  using assms
proof (induction xs arbitrary: i)
  case (Cons x xs)
  show ?case
  proof (cases i)
    case 0
    then show ?thesis by (simp add: table_def enc_length)
  next
    case (Suc j)
    with Cons show ?thesis by (simp add: table_def enc_length)
  qed
qed simp

text \<open>Writing the records one after the other through a pointer writes the table.\<close>

lemma write_records:
  assumes "p + width * length xs \<le> length buf"
  shows "fold (\<lambda>x (ptr, buf). (ptr + width, put_bytes ptr (enc x) buf)) xs (p, buf) =
    (p + width * length xs, put_bytes p (table xs) buf)"
  using assms
proof (induction xs arbitrary: p buf)
  case (Cons x xs)
  have "put_bytes (p + width) (table xs) (put_bytes p (enc x) buf) = put_bytes p (enc x @ table xs) buf"
    using put_bytes_append [of p "enc x" "table xs" buf] Cons.prems
    by (simp add: enc_length length_table)
  then show ?case
    using Cons by (simp add: enc_length) (simp add: table_def)
qed (simp add: table_def)

end

locale packed_codec = packed_records enc width
  for enc :: "'r \<Rightarrow> u8 list" and width :: nat +
  fixes dec :: "u8 list \<Rightarrow> 'r"
  assumes dec_enc: "dec (enc x) = x"
begin

definition read_record :: "nat \<Rightarrow> u8 list \<Rightarrow> 'r" where
  "read_record i buf = dec (take width (drop (i * width) buf))"

lemma read_table: "i < length xs \<Longrightarrow> read_record i (table xs @ ys) = xs ! i"
  using table_record [of i xs ys] dec_enc
  by (simp add: read_record_def del: take_append drop_append)

lemma read_all: "map (\<lambda>i. read_record i (table xs @ ys)) [0..<length xs] = xs"
  by (rule nth_equalityI) (simp_all add: read_table)

end

end
