(* ===== verification/LegacyBoot.thy ===== *)
theory LegacyBoot
  imports ByteLayout
begin

text \<open>
  Legacy boot support: the compatibility module's interrupts 13h, 15h/E820 and 16h
  (legacy/csm/CsmModule.c), the boot sector scan (legacy/boot/BootProtocol.c) and the option
  ROM registration (legacy/drivers/DriverCompat.c). The UEFI services and the block devices are
  parameters: a read is given the caller's buffer and returns a status and the new buffer.
\<close>

section \<open>Block devices\<close>

record 'd block_io =
  bi_MediaId :: u32
  bi_BlockSize :: u32
  bi_LogicalPartition :: bool
  bi_ReadBlocks :: "u32 \<Rightarrow> u64 \<Rightarrow> u64 \<Rightarrow> u8 list \<Rightarrow> 'd \<Rightarrow> efi_status \<times> u8 list"
  bi_WriteBlocks :: "u32 \<Rightarrow> u64 \<Rightarrow> u64 \<Rightarrow> u8 list \<Rightarrow> 'd \<Rightarrow> efi_status \<times> 'd"

text \<open>A handle answers \<open>HandleProtocol\<close> with a status and, without error, its block device.\<close>

type_synonym 'd block_handle = "efi_status \<times> 'd block_io"

section \<open>Interrupt 13h\<close>

definition CsmEmulateInt13 ::
  "efi_status \<Rightarrow> 'd block_handle list \<Rightarrow> u8 \<Rightarrow> u8 \<Rightarrow> u64 \<Rightarrow> u16 \<Rightarrow> u8 list \<Rightarrow> 'd \<Rightarrow>
    efi_status \<times> u8 list \<times> 'd" where
  "CsmEmulateInt13 LocateHandleBuffer handles Drive Function Lba SectorCount Buffer d =
     (if EFI_ERROR LocateHandleBuffer \<or> length handles = 0 then (EFI_NO_MEDIA, Buffer, d)
      else
        (let (status, blockIo) = handles ! 0 in
         if EFI_ERROR status then (status, Buffer, d)
         else
           (let mediaId = bi_MediaId blockIo; blockSize = bi_BlockSize blockIo;
                bytes = ucast (ucast SectorCount * blockSize :: u32) :: u64
            in if Function = 0x02 then
                 (let (status, Buffer) = bi_ReadBlocks blockIo mediaId Lba bytes Buffer d
                  in (status, Buffer, d))
               else if Function = 0x03 then
                 (let (status, d) = bi_WriteBlocks blockIo mediaId Lba bytes Buffer d
                  in (status, Buffer, d))
               else (EFI_UNSUPPORTED, Buffer, d))))"

section \<open>Interrupt 15h, function E820\<close>

datatype efi_memory_type =
    EfiConventionalMemory
  | EfiLoaderCode
  | EfiLoaderData
  | EfiBootServicesCode
  | EfiBootServicesData
  | EfiACPIReclaimMemory
  | EfiACPIMemoryNVS
  | OtherMemoryType u32

record efi_memory_descriptor =
  md_Type :: efi_memory_type
  md_PhysicalStart :: u64
  md_NumberOfPages :: u64

text \<open>An answer of \<open>GetMemoryMap\<close>: the status, the sizes it stores, and the descriptors, which stand
  \<open>descriptorSize\<close> bytes apart.\<close>

record memory_map_reply =
  mr_status :: efi_status
  mr_mapSize :: u64
  mr_descriptorSize :: u64
  mr_descriptors :: "nat \<Rightarrow> efi_memory_descriptor"

record e820_entry =
  e8_Base :: u64
  e8_Length :: u64
  e8_Type :: u32
  e8_Extended :: u32

definition SIZE_4KB :: u64 where "SIZE_4KB = 0x1000"

fun e820_type :: "efi_memory_type \<Rightarrow> u32" where
  "e820_type EfiConventionalMemory = 1"
| "e820_type EfiLoaderCode = 1"
| "e820_type EfiLoaderData = 1"
| "e820_type EfiBootServicesCode = 1"
| "e820_type EfiBootServicesData = 1"
| "e820_type EfiACPIReclaimMemory = 3"
| "e820_type EfiACPIMemoryNVS = 4"
| "e820_type (OtherMemoryType _) = 2"

definition e820_of :: "efi_memory_descriptor \<Rightarrow> e820_entry" where
  "e820_of desc =
     \<lparr>e8_Base = md_PhysicalStart desc, e8_Length = md_NumberOfPages desc * SIZE_4KB,
      e8_Type = e820_type (md_Type desc), e8_Extended = 1\<rparr>"

definition e820_bytes :: "e820_entry \<Rightarrow> u8 list" where
  "e820_bytes e =
     le_bytes 8 (e8_Base e) @ le_bytes 8 (e8_Length e) @ le_bytes 4 (e8_Type e) @ le_bytes 4 (e8_Extended e)"

definition e820_read :: "u8 list \<Rightarrow> e820_entry" where
  "e820_read bs =
     \<lparr>e8_Base = le_word (take 8 bs), e8_Length = le_word (take 8 (drop 8 bs)),
      e8_Type = le_word (take 4 (drop 16 bs)), e8_Extended = le_word (drop 20 bs)\<rparr>"

text \<open>A division by zero is \<open>None\<close>.\<close>

definition CsmEmulateInt15E820 ::
  "memory_map_reply \<Rightarrow> bool \<Rightarrow> memory_map_reply \<Rightarrow> u8 list \<Rightarrow> u32 \<Rightarrow>
    (efi_status \<times> u8 list \<times> u32) option" where
  "CsmEmulateInt15E820 first allocates second E820MapBuffer MapCount =
     (if mr_status first \<noteq> EFI_BUFFER_TOO_SMALL then Some (mr_status first, E820MapBuffer, MapCount)
      else if \<not> allocates then Some (EFI_OUT_OF_RESOURCES, E820MapBuffer, MapCount)
      else if EFI_ERROR (mr_status second) then Some (mr_status second, E820MapBuffer, MapCount)
      else if mr_descriptorSize second = 0 then None
      else
        (let count = ucast (mr_mapSize second div mr_descriptorSize second) :: u32;
             count = (if count > MapCount then MapCount else count);
             buf = put_bytes 0 (replicate (unat (count * 24)) 0) E820MapBuffer;
             (outPtr, buf) = fold (\<lambda>desc (outPtr, buf).
                 (outPtr + 24, put_bytes outPtr (e820_bytes (e820_of desc)) buf))
               (map (mr_descriptors second) [0..<unat count]) (0, buf)
         in Some (EFI_SUCCESS, buf, count)))"

section \<open>Interrupt 16h\<close>

record efi_input_key =
  ik_ScanCode :: u16
  ik_UnicodeChar :: u16

text \<open>The shift is computed on \<open>int\<close> and cut to 16 bits. \<open>None\<close>: the caller passed no pointer.\<close>

definition CsmEmulateInt16Keyboard ::
  "efi_status \<times> efi_input_key \<Rightarrow> u16 option \<Rightarrow> efi_status \<times> u16 option" where
  "CsmEmulateInt16Keyboard ReadKeyStroke ScanCode =
     (case ScanCode of
        None \<Rightarrow> (EFI_INVALID_PARAMETER, None)
      | Some old \<Rightarrow>
          (let (status, key) = ReadKeyStroke in
           if EFI_ERROR status then (status, Some old)
           else (EFI_SUCCESS,
             Some (ucast (push_bit 8 (ucast (ik_ScanCode key) :: u32) OR (ucast (ik_UnicodeChar key) AND 0xFF))))))"

definition CsmInit :: efi_status where "CsmInit = EFI_SUCCESS"

section \<open>The boot sector\<close>

text \<open>The pool: the blocks that are allocated, by their address, with their bytes. Freeing an
  address that is no block is an error of the caller (\<open>None\<close>). What the allocator answers is a
  parameter, \<open>alloc n P\<close> at the \<open>n\<close>-th device and with the pool \<open>P\<close>.\<close>

type_synonym pool = "u64 \<Rightarrow> u8 list option"

definition FreePool :: "u64 \<Rightarrow> pool \<Rightarrow> pool option" where
  "FreePool a P = (case P a of None \<Rightarrow> None | Some _ \<Rightarrow> Some (P(a := None)))"

definition boot_signature :: "u8 list \<Rightarrow> u16" where
  "boot_signature buffer = le_word (take 2 (drop 510 buffer))"

text \<open>The result is the status, the address and size handed to the caller, and the pool.\<close>

type_synonym boot_result = "efi_status \<times> (u64 \<times> u64) option \<times> pool"

fun boot_scan ::
  "(nat \<Rightarrow> pool \<Rightarrow> u64 option) \<Rightarrow> 'd \<Rightarrow> u64 \<Rightarrow> nat \<Rightarrow> 'd block_handle list \<Rightarrow> pool \<Rightarrow> boot_result option" where
  "boot_scan alloc d handles i [] P =
     (case FreePool handles P of None \<Rightarrow> None | Some P \<Rightarrow> Some (EFI_NOT_FOUND, None, P))"
| "boot_scan alloc d handles i ((status, blockIo) # hs) P =
     (if EFI_ERROR status \<or> bi_LogicalPartition blockIo then boot_scan alloc d handles (i + 1) hs P
      else
        (case alloc i P of
           None \<Rightarrow>
             (case FreePool handles P of None \<Rightarrow> None | Some P \<Rightarrow> Some (EFI_OUT_OF_RESOURCES, None, P))
         | Some buffer \<Rightarrow>
             (let P = P(buffer \<mapsto> replicate 4096 0);
                  (status, bytes) = bi_ReadBlocks blockIo (bi_MediaId blockIo) 0 SIZE_4KB (replicate 4096 0) d;
                  P = P(buffer \<mapsto> bytes)
              in if \<not> EFI_ERROR status \<and> boot_signature bytes = 0xAA55
                 then (case FreePool handles P of
                         None \<Rightarrow> None
                       | Some P \<Rightarrow> Some (EFI_SUCCESS, Some (buffer, SIZE_4KB), P))
                 else (case FreePool buffer P of
                         None \<Rightarrow> None
                       | Some P \<Rightarrow> boot_scan alloc d handles (i + 1) hs P))))"

text \<open>\<open>LocateHandleBuffer\<close> answers with a status and, without error, has allocated the array of the
  handles. \<open>wanted\<close>: both out-pointers are given.\<close>

definition BootProtocolScanAndLoad ::
  "efi_status \<times> u64 \<times> u8 list \<Rightarrow> 'd block_handle list \<Rightarrow> (nat \<Rightarrow> pool \<Rightarrow> u64 option) \<Rightarrow> 'd \<Rightarrow> bool \<Rightarrow> pool \<Rightarrow>
    boot_result option" where
  "BootProtocolScanAndLoad LocateHandleBuffer hs alloc d wanted P =
     (if \<not> wanted then Some (EFI_INVALID_PARAMETER, None, P)
      else
        (let (status, handles, array) = LocateHandleBuffer;
             P = (if EFI_ERROR status then P else P(handles \<mapsto> array))
         in if EFI_ERROR status \<or> length hs = 0 then Some (EFI_NOT_FOUND, None, P)
            else boot_scan alloc d handles 0 hs P))"

section \<open>Option ROMs\<close>

definition DriverCompatRegisterRom :: "u64 \<Rightarrow> u32 \<Rightarrow> efi_status" where
  "DriverCompatRegisterRom RomAddress RomSize = EFI_SUCCESS"

section \<open>The E820 map\<close>

interpretation e820: packed_codec e820_bytes 24 e820_read
  by unfold_locales (simp_all add: e820_bytes_def e820_read_def le_word_le_bytes)

text \<open>C29: a successful E820 call stores one 24-byte entry for each memory descriptor, in order, with
  the descriptor's start, its pages in bytes and its translated type, up to the number the caller
  has room for; it reports that number and leaves the rest of the caller's buffer alone. A map
  that does not fit is cut without an error.\<close>

theorem csm_e820_entries:
  assumes "CsmEmulateInt15E820 first allocates second buf MapCount = Some (EFI_SUCCESS, buf', n)"
    "mr_status first = EFI_BUFFER_TOO_SMALL" "\<not> EFI_ERROR (mr_status second)"
    "24 * unat MapCount \<le> length buf"
  defines "size32 \<equiv> unat (mr_mapSize second div mr_descriptorSize second) mod 2 ^ 32"
  shows "unat n = min size32 (unat MapCount) \<and> length buf' = length buf \<and>
    map (\<lambda>i. e820.read_record i buf') [0..<unat n] = map (e820_of \<circ> mr_descriptors second) [0..<unat n] \<and>
    drop (24 * unat n) buf' = drop (24 * unat n) buf"
proof -
  let ?c = "ucast (mr_mapSize second div mr_descriptorSize second) :: u32"
  let ?es = "map (e820_of \<circ> mr_descriptors second) [0..<unat n]"
  let ?z = "put_bytes 0 (replicate (unat (n * 24)) 0) buf"
  have n: "n = (if ?c > MapCount then MapCount else ?c)"
    and b: "buf' = snd (fold (\<lambda>desc (outPtr, buf). (outPtr + 24, put_bytes outPtr (e820_bytes (e820_of desc)) buf))
        (map (mr_descriptors second) [0..<unat n]) (0, ?z))"
    using assms(1-3) by (auto simp: CsmEmulateInt15E820_def Let_def split_def split: if_splits)
  have c: "unat ?c = size32" by (simp add: size32_def unsigned_ucast_eq take_bit_eq_mod)
  have len: "unat n = min size32 (unat MapCount)"
    unfolding n by (simp add: c [symmetric] min_def word_less_nat_alt)
  have room: "24 * unat n \<le> length buf" using len assms(4) by simp
  have z: "unat (n * 24) \<le> 24 * unat n"
    by (simp add: unat_word_ariths)
  have zl: "length ?z = length buf" using z room by simp
  have "buf' = put_bytes 0 (e820.table ?es) ?z"
    using e820.write_records [of 0 ?es ?z] room zl unfolding b by (simp add: fold_map comp_def)
  moreover have el: "length (e820.table ?es) = 24 * unat n" by (simp add: e820.length_table)
  moreover have "drop (24 * unat n) ?z = drop (24 * unat n) buf"
    using z by (simp add: put_bytes_def)
  ultimately have buf': "buf' = e820.table ?es @ drop (24 * unat n) buf"
    by (simp add: put_bytes_def)
  show ?thesis
    using e820.read_all [of ?es "drop (24 * unat n) buf"] room len unfolding buf'
    by (simp add: e820.length_table)
qed

definition sample_map :: memory_map_reply where
  "sample_map =
     \<lparr>mr_status = EFI_SUCCESS, mr_mapSize = 96, mr_descriptorSize = 48,
      mr_descriptors = (\<lambda>i. \<lparr>md_Type = EfiACPIMemoryNVS, md_PhysicalStart = of_nat i * 0x2000, md_NumberOfPages = 2\<rparr>)\<rparr>"

theorem csm_e820_entries_witness:
  "\<exists>buf'. CsmEmulateInt15E820 (sample_map\<lparr>mr_status := EFI_BUFFER_TOO_SMALL\<rparr>) True sample_map (replicate 30 7) 1 =
     Some (EFI_SUCCESS, buf', 1) \<and> drop 24 buf' = replicate 6 7 \<and>
     e820.read_record 0 buf' = \<lparr>e8_Base = 0, e8_Length = 0x2000, e8_Type = 4, e8_Extended = 1\<rparr>"
proof -
  let ?f = "sample_map\<lparr>mr_status := EFI_BUFFER_TOO_SMALL\<rparr>"
  obtain buf' where r: "CsmEmulateInt15E820 ?f True sample_map (replicate 30 7) 1 = Some (EFI_SUCCESS, buf', 1)"
    by (simp add: CsmEmulateInt15E820_def sample_map_def Let_def split_def)
  show ?thesis
    using csm_e820_entries [OF r] r
    by (simp add: sample_map_def e820_of_def SIZE_4KB_def)
qed

section \<open>Properties of the boot sector scan\<close>

definition physical_disk :: "'d block_handle \<Rightarrow> bool" where
  "physical_disk h \<longleftrightarrow> \<not> EFI_ERROR (fst h) \<and> \<not> bi_LogicalPartition (snd h)"

definition sector0 :: "'d \<Rightarrow> 'd block_handle \<Rightarrow> efi_status \<times> u8 list" where
  "sector0 d h = bi_ReadBlocks (snd h) (bi_MediaId (snd h)) 0 SIZE_4KB (replicate 4096 0) d"

definition boot_disk :: "'d \<Rightarrow> 'd block_handle \<Rightarrow> bool" where
  "boot_disk d h \<longleftrightarrow> \<not> EFI_ERROR (fst (sector0 d h)) \<and> boot_signature (snd (sector0 d h)) = 0xAA55"

text \<open>The search stops at a physical disk that has a boot sector, or for which there is no memory.\<close>

definition scan_stops :: "(nat \<Rightarrow> pool \<Rightarrow> u64 option) \<Rightarrow> pool \<Rightarrow> 'd \<Rightarrow> nat \<times> 'd block_handle \<Rightarrow> bool" where
  "scan_stops alloc P d c \<longleftrightarrow>
     physical_disk (snd c) \<and> (alloc (fst c) P = None \<or> boot_disk d (snd c))"

text \<open>The allocator hands out blocks that are not in use.\<close>

definition alloc_law :: "(nat \<Rightarrow> pool \<Rightarrow> u64 option) \<Rightarrow> bool" where
  "alloc_law alloc \<longleftrightarrow> (\<forall>i P a. alloc i P = Some a \<longrightarrow> P a = None)"

lemma free_block: "P a \<noteq> None \<Longrightarrow> FreePool a P = Some (P(a := None))"
  by (auto simp: FreePool_def)

text \<open>A buffer is freed before the next one is allocated, so that every allocation finds the same
  pool.\<close>

lemma boot_scan_find:
  assumes "alloc_law alloc" "P handles \<noteq> None"
  shows "boot_scan alloc d handles i hs P =
     (case find (scan_stops alloc P d) (enumerate i hs) of
        None \<Rightarrow> Some (EFI_NOT_FOUND, None, P(handles := None))
      | Some (j, h) \<Rightarrow>
          (case alloc j P of
             None \<Rightarrow> Some (EFI_OUT_OF_RESOURCES, None, P(handles := None))
           | Some a \<Rightarrow> Some (EFI_SUCCESS, Some (a, SIZE_4KB), (P(handles := None))(a \<mapsto> snd (sector0 d h)))))"
proof (induction hs arbitrary: i)
  case Nil
  show ?case by (simp add: free_block assms(2))
next
  case (Cons h hs)
  obtain status blockIo where h: "h = (status, blockIo)" by (rule prod.exhaust)
  obtain st bytes where r: "bi_ReadBlocks blockIo (bi_MediaId blockIo) 0 SIZE_4KB (replicate 4096 0) d = (st, bytes)"
    by (rule prod.exhaust)
  show ?case
  proof (cases "physical_disk h")
    case False
    then show ?thesis using Cons.IH [of "i + 1"] by (auto simp: h physical_disk_def scan_stops_def)
  next
    case True
    then have p: "\<not> EFI_ERROR status" "\<not> bi_LogicalPartition blockIo" by (simp_all add: h physical_disk_def)
    show ?thesis
    proof (cases "alloc i P")
      case None
      with True p show ?thesis by (simp add: h scan_stops_def free_block assms(2))
    next
      case (Some a)
      then have a: "P a = None" using assms(1) by (simp add: alloc_law_def)
      then have ne: "a \<noteq> handles" using assms(2) by auto
      have same: "P(a := None) = P" using a by auto
      show ?thesis
      proof (cases "boot_disk d h")
        case boot: True
        have "(P(a \<mapsto> bytes))(handles := None) = (P(handles := None))(a \<mapsto> bytes)"
          using ne by (rule fun_upd_twist)
        with boot Some p ne True assms(2) show ?thesis
          by (simp add: h scan_stops_def boot_disk_def sector0_def r free_block)
      next
        case no: False
        then have s: "\<not> scan_stops alloc P d (i, h)" using Some by (simp add: scan_stops_def)
        have "boot_scan alloc d handles i (h # hs) P = boot_scan alloc d handles (i + 1) hs P"
          using no Some p same by (auto simp: h boot_disk_def sector0_def r free_block Let_def)
        then show ?thesis using s by (simp only: Cons.IH) simp
      qed
    qed
  qed
qed

text \<open>C32: the scan is the search for the first physical disk whose sector carries the boot signature:
  disks before it are skipped when they are partitions, cannot be opened, cannot be read or lack
  the signature, but the first failed allocation ends the search. The caller gets a buffer with
  that disk's sector, and its size. Nothing is freed that is not allocated, and the pool is
  afterwards what it was before the call, with that buffer added when there is one: the
  buffers of the other disks and the array of handles are freed on every path. (With no
  device, \<open>LocateHandleBuffer\<close> fails and has allocated nothing; if it succeeded with an empty
  array, that would stay.)\<close>

theorem boot_scan_is_search:
  fixes array :: "u8 list"
  assumes "alloc_law alloc" "P handles = None"
  defines "P1 \<equiv> P(handles \<mapsto> array)"
  shows "BootProtocolScanAndLoad (st, handles, array) hs alloc d True P =
     (if EFI_ERROR st then Some (EFI_NOT_FOUND, None, P)
      else if hs = [] then Some (EFI_NOT_FOUND, None, P1)
      else case find (scan_stops alloc P1 d) (enumerate 0 hs) of
        None \<Rightarrow> Some (EFI_NOT_FOUND, None, P)
      | Some (j, h) \<Rightarrow>
          (case alloc j P1 of
             None \<Rightarrow> Some (EFI_OUT_OF_RESOURCES, None, P)
           | Some a \<Rightarrow> Some (EFI_SUCCESS, Some (a, SIZE_4KB), P(a \<mapsto> snd (sector0 d h)))))"
proof -
  have freed: "P1(handles := None) = P" using assms(2) by (auto simp: P1_def)
  have "P1 handles \<noteq> None" by (simp add: P1_def)
  from boot_scan_find [where P = P1 and handles = handles and d = d and i = 0 and hs = hs, OF assms(1) this]
  show ?thesis
    unfolding freed by (simp add: BootProtocolScanAndLoad_def flip: P1_def)
qed

text \<open>Two disks, the second with a boot sector, and an allocator with one free block.\<close>

definition sample_disk :: "u8 \<Rightarrow> unit block_handle" where
  "sample_disk b = (EFI_SUCCESS,
     \<lparr>bi_MediaId = 0, bi_BlockSize = 512, bi_LogicalPartition = False,
      bi_ReadBlocks = (\<lambda>_ _ _ buf _. (EFI_SUCCESS, buf[510 := b, 511 := 0xAA])),
      bi_WriteBlocks = (\<lambda>_ _ _ _ d. (EFI_SUCCESS, d))\<rparr>)"

definition one_block :: "nat \<Rightarrow> pool \<Rightarrow> u64 option" where
  "one_block i P = (if P 0x2000 = None then Some 0x2000 else None)"

lemma sample_sector: "boot_signature ((replicate 4096 0)[510 := b, 511 := 0xAA]) = le_word [b, 0xAA]"
proof -
  have "take 2 (drop 510 ((replicate 4096 0)[510 := b, 511 := 0xAA])) = [b, 0xAA :: u8]"
    by (rule nth_equalityI) (auto simp: less_2_cases_iff)
  then show ?thesis by (simp add: boot_signature_def)
qed

theorem boot_scan_is_search_witness:
  "BootProtocolScanAndLoad (EFI_SUCCESS, 0x1000, [1, 2]) [sample_disk 0, sample_disk 0x55] one_block () True
     (\<lambda>_. None) =
   Some (EFI_SUCCESS, Some (0x2000, SIZE_4KB), [0x2000 \<mapsto> (replicate 4096 0)[510 := 0x55, 511 := 0xAA]])"
proof -
  let ?P = "(\<lambda>_. None)(0x1000 \<mapsto> [1, 2]) :: pool"
  have law: "alloc_law one_block" by (simp add: alloc_law_def one_block_def)
  have s: "sector0 () (sample_disk b) = (EFI_SUCCESS, (replicate 4096 0)[510 := b, 511 := 0xAA])" for b
    by (simp add: sector0_def sample_disk_def)
  have "physical_disk (sample_disk b)" for b by (simp add: physical_disk_def sample_disk_def)
  moreover have "boot_disk () (sample_disk b) = (le_word [b, 0xAA] = (0xAA55 :: u16))" for b
    by (simp only: boot_disk_def s fst_conv snd_conv sample_sector) simp
  moreover have "le_word [0, 0xAA] \<noteq> (0xAA55 :: u16)" "le_word [0x55, 0xAA] = (0xAA55 :: u16)"
    by simp_all
  ultimately have "find (scan_stops one_block ?P ()) (enumerate 0 [sample_disk 0, sample_disk 0x55]) =
      Some (1, sample_disk 0x55)"
    by (simp add: scan_stops_def one_block_def)
  then show ?thesis
    using boot_scan_is_search [OF law, where P = "\<lambda>_. None" and handles = "0x1000" and array = "[1, 2]"
      and st = EFI_SUCCESS and hs = "[sample_disk 0, sample_disk 0x55]" and d = "()"]
    by (simp add: one_block_def s)
qed

text \<open>The interrupt 13h handler never looks at the drive number: all drives are the first handle.\<close>

lemma int13_ignores_drive:
  "CsmEmulateInt13 st hs Drive f lba n buf d = CsmEmulateInt13 st hs Drive' f lba n buf d"
  by (simp add: CsmEmulateInt13_def)

text \<open>The byte count is computed on 32 bits: a read of \<open>n\<close> sectors asks for their size modulo
  \<open>2 ^ 32\<close>.\<close>

lemma int13_read_size:
  assumes "\<not> EFI_ERROR st" "hs \<noteq> []" "\<not> EFI_ERROR (fst (hs ! 0))"
  shows "CsmEmulateInt13 st hs Drive 0x02 lba n buf d =
    (let b = snd (hs ! 0); r = bi_ReadBlocks b (bi_MediaId b) lba
         (of_nat (unat n * unat (bi_BlockSize b) mod 2 ^ 32)) buf d
     in (fst r, snd r, d))"
proof -
  have "(ucast (ucast n * bi_BlockSize b :: u32) :: u64) = of_nat (unat n * unat (bi_BlockSize b) mod 2 ^ 32)"
    for b :: "'a block_io"
  proof -
    have "unat (ucast n * bi_BlockSize b :: u32) = unat n * unat (bi_BlockSize b) mod 2 ^ 32"
      using unsigned_less [of n, where ?'a = nat]
      by (simp add: unat_word_ariths unsigned_ucast_eq take_bit_nat_eq_self)
    then show ?thesis by (metis of_nat_unat)
  qed
  then show ?thesis using assms by (simp add: CsmEmulateInt13_def Let_def split_def)
qed

lemma int16_bytes:
  assumes "\<not> EFI_ERROR st"
  shows "CsmEmulateInt16Keyboard (st, key) (Some old) =
    (EFI_SUCCESS, Some (push_bit 8 (ik_ScanCode key) OR (ik_UnicodeChar key AND 0xFF)))"
proof -
  have "(ucast (push_bit 8 (ucast (ik_ScanCode key) :: u32) OR (ucast (ik_UnicodeChar key) AND 0xFF)) :: u16) =
      push_bit 8 (ik_ScanCode key) OR (ik_UnicodeChar key AND 0xFF)"
    by (rule bit_word_eqI)
      (auto simp: bit_ucast_iff bit_or_iff bit_and_iff bit_push_bit_iff possible_bit_def)
  then show ?thesis using assms by (simp add: CsmEmulateInt16Keyboard_def)
qed

end
