(* ===== verification/PostRoutines.thy ===== *)
theory PostRoutines
  imports Hardware
begin

text \<open>
  The power-on routines (bemibiospkg/bemibioscore/post/postroutines.c): processor topology and
  cache size from CPUID, the tests for the two virtualisation extensions, the number of Bemi
  threads and the memory test. CPUID, the model-specific registers and the memory's answers are
  parameters.
\<close>

section \<open>Topology\<close>

definition topology_level :: "(u32 \<Rightarrow> u32 \<Rightarrow> cpuid_regs) \<Rightarrow> nat \<Rightarrow> u32 \<times> u32 \<Rightarrow> u32 \<times> u32" where
  "topology_level cpuidex level tc =
     (let r = cpuidex 0x0B (of_nat level); type = drop_bit 8 (cr_Ecx r) AND 0xFF; (threadsPerCore, cores) = tc
      in if type = 1 then (cr_Ebx r AND 0xFFFF, cores)
         else if type = 2 then (threadsPerCore, cr_Ebx r AND 0xFFFF)
         else (threadsPerCore, cores))"

definition cache_bytes :: "cpuid_regs \<Rightarrow> u32" where
  "cache_bytes r =
     (let ways = (drop_bit 22 (cr_Ebx r) AND 0x3FF) + 1;
          partitions = (drop_bit 12 (cr_Ebx r) AND 0x3FF) + 1;
          lineSize = (cr_Ebx r AND 0xFFF) + 1;
          sets = cr_Ecx r + 1
      in ways * partitions * lineSize * sets)"

text \<open>The body of the cache loop: the new size and whether the loop breaks.\<close>

definition cache_level :: "(u32 \<Rightarrow> u32 \<Rightarrow> cpuid_regs) \<Rightarrow> nat \<Rightarrow> u32 \<Rightarrow> u32 \<times> bool" where
  "cache_level cpuidex cacheLevel cacheSizeL3 =
     (let r = cpuidex 0x04 (of_nat cacheLevel); cacheType = cr_Eax r AND 0x1F
      in if cacheType = 0 then (cacheSizeL3, True)
         else if cacheType = 3 then (cache_bytes r, False)
         else (cacheSizeL3, False))"

definition PostDetectTopology ::
  "(u32 \<Rightarrow> cpuid_regs) \<Rightarrow> (u32 \<Rightarrow> u32 \<Rightarrow> cpuid_regs) \<Rightarrow> efi_status \<times> u64 \<times> u64" where
  "PostDetectTopology cpuid cpuidex =
     (let maxLeaf = cr_Eax (cpuid 0x00);
          (threadsPerCore, cores) =
            (if maxLeaf \<ge> 0x0B then fold (topology_level cpuidex) [0..<2] (1, 0)
             else if maxLeaf \<ge> 0x01
             then (ucast (ucast (drop_bit 16 (cr_Ebx (cpuid 0x01)) AND 0xFF) :: u8), 0)
             else (1, 0));
          cores = (if cores = 0 then threadsPerCore else cores);
          cacheSizeL3 = (if maxLeaf \<ge> 0x04 then for_break (cache_level cpuidex) [0..<10] 0 else 0)
      in (EFI_SUCCESS, ucast cores * ucast threadsPerCore, ucast cacheSizeL3))"

section \<open>Virtualisation extensions\<close>

definition PostValidateVmxSupport :: "(u32 \<Rightarrow> cpuid_regs) \<Rightarrow> (u32 \<Rightarrow> u64) \<Rightarrow> efi_status \<times> bool" where
  "PostValidateVmxSupport cpuid rdmsr =
     (EFI_SUCCESS,
      if cr_Ecx (cpuid 0x01) AND BIT5 = 0 then False
      else (let featureControl = rdmsr 0x3A
            in featureControl AND BIT0 \<noteq> 0 \<and> featureControl AND BIT2 \<noteq> 0))"

definition PostValidateSvmSupport :: "(u32 \<Rightarrow> cpuid_regs) \<Rightarrow> efi_status \<times> bool" where
  "PostValidateSvmSupport cpuid = (EFI_SUCCESS, cr_Ecx (cpuid 0x80000001) AND BIT2 \<noteq> 0)"

section \<open>Threads\<close>

definition PostCalculateThreadCount :: "u64 \<Rightarrow> u64 \<Rightarrow> efi_status \<times> u64" where
  "PostCalculateThreadCount CpuCount CacheSizes =
     (let l3Mb = CacheSizes div (1024 * 1024);
          baseThreads = (if l3Mb \<ge> 16 then CpuCount * 4 else if l3Mb \<ge> 8 then CpuCount * 3 else CpuCount * 2);
          baseThreads = (if baseThreads > 84 then 84 else baseThreads);
          baseThreads = (if baseThreads < 1 then 1 else baseThreads)
      in (EFI_SUCCESS, baseThreads))"

lemma thread_count_range:
  "1 \<le> snd (PostCalculateThreadCount n c)" "snd (PostCalculateThreadCount n c) \<le> 84"
proof -
  obtain x where x: "snd (PostCalculateThreadCount n c) =
      (let b = (if x > 84 then 84 else x) in if b < 1 then 1 else b)"
    unfolding PostCalculateThreadCount_def Let_def snd_conv by blast
  show "1 \<le> snd (PostCalculateThreadCount n c)" "snd (PostCalculateThreadCount n c) \<le> 84"
    unfolding x by (auto simp: Let_def word_le_nat_alt word_less_nat_alt unat_gt_0 Suc_le_eq)
qed

section \<open>Memory test\<close>

definition POST_PATTERN :: u64 where "POST_PATTERN = 0xDEADBEEFCAFEBABE"

text \<open>\<open>mem i v\<close>: what word \<open>i\<close> of the buffer reads after \<open>v\<close> was stored. The result holds the writes
  to the diagnostic port.\<close>

definition PostExecutePowerOnSelfTest ::
  "bool \<Rightarrow> (nat \<Rightarrow> u64 \<Rightarrow> u64) \<Rightarrow> efi_status \<times> (u16 \<times> u8) list" where
  "PostExecutePowerOnSelfTest allocates mem =
     (if \<not> allocates then (EFI_OUT_OF_RESOURCES, [])
      else
        (let testBuffer = map (\<lambda>i. mem i POST_PATTERN) [0..<256] in
         if find (\<lambda>i. testBuffer ! i \<noteq> POST_PATTERN) [0..<256] \<noteq> None then (EFI_DEVICE_ERROR, [])
         else (EFI_SUCCESS, [(0x80, 0x01)])))"

lemma self_test_passes:
  "fst (PostExecutePowerOnSelfTest True mem) = EFI_SUCCESS \<longleftrightarrow> (\<forall>i<256. mem i POST_PATTERN = POST_PATTERN)"
  by (auto simp: PostExecutePowerOnSelfTest_def Let_def find_None_iff)

section \<open>Properties\<close>

text \<open>The number of threads is always between 1 and 84; it is the number of processors times 2,
  3 or 4 by the size of the last cache, as long as that product fits in 64 bits.\<close>

theorem post_thread_count_bounds:
  "1 \<le> snd (PostCalculateThreadCount n c) \<and> snd (PostCalculateThreadCount n c) \<le> 84 \<and>
   unat (snd (PostCalculateThreadCount n c)) =
     (let f = (if 16 * 2 ^ 20 \<le> unat c then 4 else if 8 * 2 ^ 20 \<le> unat c then 3 else 2)
      in min 84 (max 1 (f * unat n mod 2 ^ 64)))"
proof -
  have d: "(16 \<le> c div 0x100000) = (16 * 2 ^ 20 \<le> unat c)" "(8 \<le> c div 0x100000) = (8 * 2 ^ 20 \<le> unat c)"
    by (simp_all add: word_le_nat_alt unat_div_distrib) linarith+
  have m: "unat (n * 4) = 4 * unat n mod 2 ^ 64" "unat (n * 3) = 3 * unat n mod 2 ^ 64"
    "unat (n * 2) = 2 * unat n mod 2 ^ 64"
    by (simp_all add: unat_word_ariths mult.commute)
  define clamp :: "u64 \<Rightarrow> u64" where
    "clamp x = (let b = (if x > 84 then 84 else x) in if b < 1 then 1 else b)" for x
  have b: "unat (clamp x) = min 84 (max 1 (unat x))" for x
    by (auto simp: clamp_def Let_def word_le_nat_alt word_less_nat_alt unat_eq_0 unat_gt_0 Suc_le_eq
        max_def)
  let ?x = "if 16 \<le> c div 0x100000 then n * 4 else if 8 \<le> c div 0x100000 then n * 3 else n * 2"
  have v: "snd (PostCalculateThreadCount n c) = clamp ?x"
    by (simp add: PostCalculateThreadCount_def clamp_def Let_def)
  have x: "unat ?x =
      (if 16 * 2 ^ 20 \<le> unat c then 4 else if 8 * 2 ^ 20 \<le> unat c then 3 else 2) * unat n mod 2 ^ 64"
    unfolding d by (simp add: m)
  show ?thesis
    using thread_count_range [of n c] b [of ?x] unfolding v Let_def x by blast
qed

text \<open>What the processor manual documents for CPUID leaf 0Bh on a package with \<open>c\<close> cores of \<open>t\<close>
  threads: level 0 (type 1) reports the threads of a core, level 1 (type 2) the threads of the
  whole package.\<close>

definition reports_topology :: "(u32 \<Rightarrow> cpuid_regs) \<Rightarrow> (u32 \<Rightarrow> u32 \<Rightarrow> cpuid_regs) \<Rightarrow> nat \<Rightarrow> nat \<Rightarrow> bool" where
  "reports_topology cpuid cpuidex c t \<longleftrightarrow>
     0x0B \<le> cr_Eax (cpuid 0) \<and>
     drop_bit 8 (cr_Ecx (cpuidex 0x0B 0)) AND 0xFF = 1 \<and> cr_Ebx (cpuidex 0x0B 0) AND 0xFFFF = of_nat t \<and>
     drop_bit 8 (cr_Ecx (cpuidex 0x0B 1)) AND 0xFF = 2 \<and> cr_Ebx (cpuidex 0x0B 1) AND 0xFFFF = of_nat (c * t)"

text \<open>On a processor that reports its topology as documented, the count is wrong as soon as the
  cores have more than one thread: the package's threads are multiplied by the threads of a core
  again. So a package of 8 two-thread cores counts as 32 processors.\<close>

theorem post_topology_overcounts:
  assumes "reports_topology cpuid cpuidex c t" "0 < c" "0 < t" "c * t < 2 ^ 16"
  shows "unat (fst (snd (PostDetectTopology cpuid cpuidex))) = (c * t) * t \<and>
    (unat (fst (snd (PostDetectTopology cpuid cpuidex))) = c * t \<longleftrightarrow> t = 1)"
proof -
  have t: "t < 2 ^ 16"
    using assms(2,4) le_less_trans [of t "c * t" "2 ^ 16"] by simp
  have w: "unat (of_nat (c * t) :: u32) = c * t" "unat (of_nat t :: u32) = t"
    by (rule unat_of_nat_small, use assms(4) in simp) (rule unat_of_nat_small, use t in simp)
  have nz: "(of_nat (c * t) :: u32) \<noteq> 0"
    using w(1) assms(2,3) by (metis mult_eq_0_iff neq0_conv unsigned_0)
  have "fst (snd (PostDetectTopology cpuid cpuidex)) = ucast (of_nat (c * t) :: u32) * ucast (of_nat t :: u32)"
    using assms(1) nz
    by (simp add: PostDetectTopology_def reports_topology_def topology_level_def Let_def split_def upt_rec
        del: of_nat_mult)
  also have "\<dots> = of_nat (c * t * t)"
    using w by (metis of_nat_mult of_nat_unat)
  finally have v: "fst (snd (PostDetectTopology cpuid cpuidex)) = of_nat (c * t * t)" .
  have "c * t * t < 2 ^ 16 * 2 ^ 16" using assms(4) t by (intro mult_strict_mono') simp_all
  then have "unat (of_nat (c * t * t) :: u64) = c * t * t" by (intro unat_of_nat_small) simp
  then show ?thesis using v assms(2,3) by simp
qed

definition sample_topology :: "u32 \<Rightarrow> u32 \<Rightarrow> cpuid_regs" where
  "sample_topology leaf level =
     (if leaf = 0x0B
      then (if level = 0 then \<lparr>cr_Eax = 1, cr_Ebx = 2, cr_Ecx = 0x100, cr_Edx = 0\<rparr>
            else \<lparr>cr_Eax = 4, cr_Ebx = 16, cr_Ecx = 0x201, cr_Edx = 0\<rparr>)
      else zero_regs)"

theorem post_topology_overcounts_witness:
  "unat (fst (snd (PostDetectTopology (\<lambda>_. zero_regs\<lparr>cr_Eax := 0x16\<rparr>) sample_topology))) = 32"
proof -
  have "reports_topology (\<lambda>_. zero_regs\<lparr>cr_Eax := 0x16\<rparr>) sample_topology 8 2"
    by (simp add: reports_topology_def sample_topology_def zero_regs_def)
  from post_topology_overcounts [OF this] show ?thesis by simp
qed

end
