(* ===== verification/AcpiTables.thy ===== *)
theory AcpiTables
  imports ByteLayout
begin

text \<open>
  The ACPI multiple-processor table (hwcompat/acpi/AcpiTables.c). The layouts of the
  structures and the numeric constants come from the industry-standard header, which is not
  under src/: they are a parameter \<open>acpi_abi\<close>, whose documented properties \<open>acpi_abi_ok\<close> states
  (the sizes, and that the checksum is one byte of the header). The boot services are a
  parameter too; the calls that take the table are recorded in order.
\<close>

section \<open>Structures\<close>

record acpi_header =
  ah_Signature :: u32
  ah_Length :: u32
  ah_Revision :: u8
  ah_Checksum :: u8
  ah_OemId :: "u8 list"
  ah_OemTableId :: u64
  ah_OemRevision :: u32
  ah_CreatorId :: u32
  ah_CreatorRevision :: u32

record madt_header =
  mh_Header :: acpi_header
  mh_LocalApicAddress :: u32
  mh_Flags :: u32

record lapic_entry =
  la_Type :: u8
  la_Length :: u8
  la_AcpiProcessorId :: u8
  la_ApicId :: u8
  la_Flags :: u32

record ioapic_entry =
  io_Type :: u8
  io_Length :: u8
  io_IoApicId :: u8
  io_IoApicAddress :: u32
  io_GlobalSystemInterruptBase :: u32

record acpi_abi =
  ab_header :: "acpi_header \<Rightarrow> u8 list"
  ab_lapic :: "lapic_entry \<Rightarrow> u8 list"
  ab_ioapic :: "ioapic_entry \<Rightarrow> u8 list"
  ab_sizeof_header :: u64
  ab_sizeof_lapic :: u64
  ab_sizeof_ioapic :: u64
  ab_MADT_SIGNATURE :: u32
  ab_PROCESSOR_LOCAL_APIC :: u8
  ab_IO_APIC :: u8

definition acpi_abi_ok :: "acpi_abi \<Rightarrow> bool" where
  "acpi_abi_ok A \<longleftrightarrow>
     ab_sizeof_header A = 36 \<and> ab_sizeof_lapic A = 8 \<and> ab_sizeof_ioapic A = 12 \<and>
     (\<forall>h. length (ab_header A h) = 36) \<and>
     (\<forall>l. length (ab_lapic A l) = 8) \<and> (\<forall>i. length (ab_ioapic A i) = 12) \<and>
     (\<forall>h c. byte_sum (ab_header A (h\<lparr>ah_Checksum := c\<rparr>)) =
        c + byte_sum (ab_header A (h\<lparr>ah_Checksum := 0\<rparr>)))"

text \<open>\<open>MADT_TABLE_HEADER\<close> is declared in the file itself, packed.\<close>

definition madt_header_bytes :: "acpi_abi \<Rightarrow> madt_header \<Rightarrow> u8 list" where
  "madt_header_bytes A h =
     ab_header A (mh_Header h) @ le_bytes 4 (mh_LocalApicAddress h) @ le_bytes 4 (mh_Flags h)"

definition sizeof_madt_header :: "acpi_abi \<Rightarrow> u64" where
  "sizeof_madt_header A = ab_sizeof_header A + 4 + 4"

text \<open>\<open>SIGNATURE_32\<close> and \<open>SIGNATURE_64\<close> of the UEFI library put the first character lowest.\<close>

definition signature :: "string \<Rightarrow> 'a::len word" where
  "signature s = le_word (map (\<lambda>c. of_nat (of_char c)) s)"

section \<open>Building the table\<close>

definition AcpiCalcChecksum :: "u8 list \<Rightarrow> u8" where
  "AcpiCalcChecksum bs = word_of_int (256 - uint (byte_sum bs))"

definition madt_size :: "acpi_abi \<Rightarrow> u32 \<Rightarrow> u64" where
  "madt_size A CpuCount =
     sizeof_madt_header A + ucast CpuCount * ab_sizeof_lapic A + ab_sizeof_ioapic A"

definition madt_header_of :: "acpi_abi \<Rightarrow> u64 \<Rightarrow> madt_header" where
  "madt_header_of A MadtSize =
     \<lparr>mh_Header =
        \<lparr>ah_Signature = ab_MADT_SIGNATURE A, ah_Length = ucast MadtSize, ah_Revision = 3,
         ah_Checksum = 0, ah_OemId = map (\<lambda>c. of_nat (of_char c)) ''BEMI  '',
         ah_OemTableId = signature ''BEMIBIOS'', ah_OemRevision = 1,
         ah_CreatorId = signature ''BEMI'', ah_CreatorRevision = 1\<rparr>,
      mh_LocalApicAddress = 0xFEE00000, mh_Flags = 1\<rparr>"

definition lapic_of :: "acpi_abi \<Rightarrow> u32 \<Rightarrow> lapic_entry" where
  "lapic_of A i =
     \<lparr>la_Type = ab_PROCESSOR_LOCAL_APIC A, la_Length = ucast (ab_sizeof_lapic A),
      la_AcpiProcessorId = ucast i, la_ApicId = ucast i, la_Flags = 1\<rparr>"

definition ioapic_of :: "acpi_abi \<Rightarrow> u32 \<Rightarrow> ioapic_entry" where
  "ioapic_of A CpuCount =
     \<lparr>io_Type = ab_IO_APIC A, io_Length = ucast (ab_sizeof_ioapic A), io_IoApicId = ucast CpuCount,
      io_IoApicAddress = 0xFEC00000, io_GlobalSystemInterruptBase = 0\<rparr>"

definition madt_put_lapics :: "acpi_abi \<Rightarrow> u32 \<Rightarrow> nat \<times> u8 list \<Rightarrow> nat \<times> u8 list" where
  "madt_put_lapics A CpuCount =
     fold (\<lambda>i (CurrentPtr, buf).
         (CurrentPtr + unat (ab_sizeof_lapic A), put_bytes CurrentPtr (ab_lapic A (lapic_of A (of_nat i))) buf))
       [0..<unat CpuCount]"

definition madt_table :: "acpi_abi \<Rightarrow> u32 \<Rightarrow> u8 list" where
  "madt_table A CpuCount =
     (let MadtSize = madt_size A CpuCount; buf = replicate (unat MadtSize) 0;
          h = madt_header_of A MadtSize;
          buf = put_bytes 0 (madt_header_bytes A h) buf;
          (CurrentPtr, buf) = madt_put_lapics A CpuCount (unat (sizeof_madt_header A), buf);
          buf = put_bytes CurrentPtr (ab_ioapic A (ioapic_of A CpuCount)) buf;
          h = h\<lparr>mh_Header := (mh_Header h)\<lparr>ah_Checksum := AcpiCalcChecksum buf\<rparr>\<rparr>
      in put_bytes 0 (madt_header_bytes A h) buf)"

section \<open>Installing it\<close>

record acpi_services =
  as_allocates :: bool
  as_LocateProtocol :: efi_status
  as_InstallAcpiTable :: "u8 list \<Rightarrow> efi_status"
  as_InstallConfigurationTable :: "u8 list \<Rightarrow> efi_status"

datatype acpi_call =
    InstallAcpiTable "u8 list"
  | InstallConfigurationTable "u8 list"
  | FreeMadt

definition AcpiInitTables ::
  "acpi_abi \<Rightarrow> acpi_services \<Rightarrow> u32 \<Rightarrow> efi_status \<times> acpi_call list" where
  "AcpiInitTables A sv CpuCount =
     (if \<not> as_allocates sv then (EFI_OUT_OF_RESOURCES, [])
      else
        (let Madt = madt_table A CpuCount in
         if \<not> EFI_ERROR (as_LocateProtocol sv)
         then (as_InstallAcpiTable sv Madt, [InstallAcpiTable Madt, FreeMadt])
         else (as_InstallConfigurationTable sv Madt, [InstallConfigurationTable Madt, FreeMadt])))"

section \<open>What the table holds\<close>

lemma madt_header_length:
  "acpi_abi_ok A \<Longrightarrow> length (madt_header_bytes A h) = 44"
  by (simp add: acpi_abi_ok_def madt_header_bytes_def)

lemma madt_header_checksum:
  "acpi_abi_ok A \<Longrightarrow>
     byte_sum (madt_header_bytes A (h\<lparr>mh_Header := (mh_Header h)\<lparr>ah_Checksum := c\<rparr>\<rparr>)) =
     c + byte_sum (madt_header_bytes A (h\<lparr>mh_Header := (mh_Header h)\<lparr>ah_Checksum := 0\<rparr>\<rparr>))"
proof -
  assume "acpi_abi_ok A"
  then have "byte_sum (ab_header A ((mh_Header h)\<lparr>ah_Checksum := c\<rparr>)) =
      c + byte_sum (ab_header A ((mh_Header h)\<lparr>ah_Checksum := 0\<rparr>))"
    unfolding acpi_abi_ok_def by blast
  then show ?thesis by (simp add: madt_header_bytes_def add.assoc)
qed

lemma checksum_cancels: "AcpiCalcChecksum bs + byte_sum bs = 0"
proof -
  have "AcpiCalcChecksum bs = word_of_int 256 - byte_sum bs"
    unfolding AcpiCalcChecksum_def by (simp only: of_int_diff word_of_int_uint)
  moreover have "(word_of_int 256 :: u8) = 0" by simp
  ultimately show ?thesis by simp
qed

lemma unat_madt_size:
  "acpi_abi_ok A \<Longrightarrow> unat (madt_size A n) = 44 + 8 * unat n + 12"
proof -
  assume A: "acpi_abi_ok A"
  have n: "unat n < 2 ^ 32" using unsigned_less [of n, where ?'a = nat] by simp
  have "madt_size A n = of_nat (44 + 8 * unat n + 12)"
    using A by (simp add: acpi_abi_ok_def madt_size_def sizeof_madt_header_def algebra_simps)
  moreover have "44 + 8 * unat n + 12 < 2 ^ LENGTH(64)" using n by simp
  ultimately show ?thesis by (metis unat_of_nat_small)
qed

definition madt_lapics :: "acpi_abi \<Rightarrow> u32 \<Rightarrow> lapic_entry list" where
  "madt_lapics A n = map (\<lambda>i. lapic_of A (of_nat i)) [0..<unat n]"

lemma length_madt_lapics [simp]: "length (madt_lapics A n) = unat n"
  by (simp add: madt_lapics_def)

lemma lapic_records: "acpi_abi_ok A \<Longrightarrow> packed_records (ab_lapic A) 8"
  by unfold_locales (simp add: acpi_abi_ok_def)

text \<open>The table is the concatenation of its parts.\<close>

definition madt_final_header :: "acpi_abi \<Rightarrow> u32 \<Rightarrow> madt_header" where
  "madt_final_header A n =
     (let h = madt_header_of A (madt_size A n);
          body = concat (map (ab_lapic A) (madt_lapics A n)) @ ab_ioapic A (ioapic_of A n)
      in h\<lparr>mh_Header := (mh_Header h)\<lparr>ah_Checksum := AcpiCalcChecksum (madt_header_bytes A h @ body)\<rparr>\<rparr>)"

lemma madt_table_parts:
  assumes A: "acpi_abi_ok A"
  shows "madt_table A n = madt_header_bytes A (madt_final_header A n) @
    concat (map (ab_lapic A) (madt_lapics A n)) @ ab_ioapic A (ioapic_of A n)"
proof -
  note rec = lapic_records [OF A]
  let ?sz = "unat (madt_size A n)" and ?h = "madt_header_of A (madt_size A n)"
  let ?L = "concat (map (ab_lapic A) (madt_lapics A n))" and ?io = "ab_ioapic A (ioapic_of A n)"
  let ?hb = "madt_header_bytes A ?h"
  have tab: "packed_records.table (ab_lapic A) (madt_lapics A n) = ?L"
    by (simp add: packed_records.table_def [OF rec])
  have len: "length ?hb = 44" "length ?L = 8 * unat n" "length ?io = 12"
    using A packed_records.length_table [OF rec, of "madt_lapics A n"]
    by (simp_all add: madt_header_length tab) (simp add: acpi_abi_ok_def)
  have sz: "?sz = 44 + 8 * unat n + 12" by (rule unat_madt_size [OF A])
  let ?b1 = "put_bytes 0 ?hb (replicate ?sz 0)"
  have b1: "length ?b1 = ?sz" by (simp add: len sz)
  have loop: "madt_put_lapics A n (44, ?b1) = (44 + 8 * unat n, put_bytes 44 ?L ?b1)"
  proof -
    have "madt_put_lapics A n = fold (\<lambda>x (ptr, buf). (ptr + 8, put_bytes ptr (ab_lapic A x) buf)) (madt_lapics A n)"
      using A by (simp add: madt_put_lapics_def madt_lapics_def fold_map comp_def acpi_abi_ok_def)
    moreover have "44 + 8 * length (madt_lapics A n) \<le> length ?b1" by (simp add: len sz)
    ultimately show ?thesis
      using packed_records.write_records [OF rec, of 44 "madt_lapics A n" ?b1] by (simp only: tab length_madt_lapics)
  qed
  have start: "unat (sizeof_madt_header A) = 44"
    using A by (simp add: sizeof_madt_header_def acpi_abi_ok_def)
  have one: "put_bytes 44 ?L ?b1 = put_bytes 0 (?hb @ ?L) (replicate ?sz 0)"
    using put_bytes_append [of 0 ?hb ?L "replicate ?sz 0"] by (simp add: len sz)
  have "put_bytes (44 + 8 * unat n) ?io (put_bytes 44 ?L ?b1) =
      put_bytes 0 ((?hb @ ?L) @ ?io) (replicate ?sz 0)"
    using put_bytes_append [of 0 "?hb @ ?L" ?io "replicate ?sz 0"] unfolding one by (simp add: len sz)
  also have "\<dots> = ?hb @ ?L @ ?io" by (subst put_bytes_whole) (simp_all add: len sz)
  finally have body: "put_bytes (44 + 8 * unat n) ?io (put_bytes 44 ?L ?b1) = ?hb @ ?L @ ?io" .
  show ?thesis
    unfolding madt_table_def Let_def start loop prod.case body madt_final_header_def
    by (rule put_bytes_prefix) (simp add: madt_header_length [OF A])
qed

text \<open>An instance of the layout: the little-endian encoding the ACPI specification gives.\<close>

definition acpi6 :: acpi_abi where
  "acpi6 =
     \<lparr>ab_header = (\<lambda>h. le_bytes 4 (ah_Signature h) @ le_bytes 4 (ah_Length h) @ [ah_Revision h, ah_Checksum h] @
         take 6 (ah_OemId h @ replicate 6 0) @ le_bytes 8 (ah_OemTableId h) @ le_bytes 4 (ah_OemRevision h) @
         le_bytes 4 (ah_CreatorId h) @ le_bytes 4 (ah_CreatorRevision h)),
      ab_lapic = (\<lambda>l. [la_Type l, la_Length l, la_AcpiProcessorId l, la_ApicId l] @ le_bytes 4 (la_Flags l)),
      ab_ioapic = (\<lambda>i. [io_Type i, io_Length i, io_IoApicId i, 0] @ le_bytes 4 (io_IoApicAddress i) @
         le_bytes 4 (io_GlobalSystemInterruptBase i)),
      ab_sizeof_header = 36, ab_sizeof_lapic = 8, ab_sizeof_ioapic = 12,
      ab_MADT_SIGNATURE = signature ''APIC'', ab_PROCESSOR_LOCAL_APIC = 0, ab_IO_APIC = 1\<rparr>"

lemma acpi6_ok: "acpi_abi_ok acpi6"
  by (simp add: acpi_abi_ok_def acpi6_def min_def ac_simps)

definition lapic6_dec :: "u8 list \<Rightarrow> lapic_entry" where
  "lapic6_dec bs =
     \<lparr>la_Type = bs ! 0, la_Length = bs ! 1, la_AcpiProcessorId = bs ! 2, la_ApicId = bs ! 3,
      la_Flags = le_word (drop 4 bs)\<rparr>"

interpretation lapic6: packed_codec "ab_lapic acpi6" 8 lapic6_dec
  by unfold_locales (simp_all add: acpi6_def lapic6_dec_def le_word_le_bytes)

section \<open>Properties\<close>

lemma madt_sum: 
  assumes A: "acpi_abi_ok A"
  shows "byte_sum (madt_table A n) = 0"
proof -
  let ?h = "madt_header_of A (madt_size A n)"
  let ?body = "concat (map (ab_lapic A) (madt_lapics A n)) @ ab_ioapic A (ioapic_of A n)"
  have z: "?h\<lparr>mh_Header := (mh_Header ?h)\<lparr>ah_Checksum := 0\<rparr>\<rparr> = ?h"
    by (simp add: madt_header_of_def)
  have "byte_sum (madt_table A n) =
      AcpiCalcChecksum (madt_header_bytes A ?h @ ?body) + byte_sum (madt_header_bytes A ?h @ ?body)"
    using madt_header_checksum [OF A, where h = ?h and c = "AcpiCalcChecksum (madt_header_bytes A ?h @ ?body)"] z
    by (simp add: madt_table_parts [OF A] madt_final_header_def Let_def add.assoc del: byte_sum_append)
      (simp add: add.assoc)
  then show ?thesis by (simp only: checksum_cancels)
qed

text \<open>C30: the table the code builds is well formed for every number of processors: its bytes sum
  to zero, it is as long as the size it is installed with (56 bytes and 8 for each processor),
  the record of processor \<open>i\<close> stands at offset \<open>44 + 8 i\<close> with the processor number, cut to a
  byte, as its two ids, and the last 12 bytes describe the I/O APIC.\<close>

theorem acpi_madt_layout:
  assumes "acpi_abi_ok A"
  shows "byte_sum (madt_table A n) = 0 \<and>
    length (madt_table A n) = unat (madt_size A n) \<and>
    unat (madt_size A n) = 56 + 8 * unat n \<and>
    take 44 (madt_table A n) = madt_header_bytes A (madt_final_header A n) \<and>
    (\<forall>i<unat n. take 8 (drop (44 + 8 * i) (madt_table A n)) = ab_lapic A (lapic_of A (of_nat i))) \<and>
    drop (44 + 8 * unat n) (madt_table A n) = ab_ioapic A (ioapic_of A n)"
proof -
  note A = assms and rec = lapic_records [OF assms]
  let ?L = "concat (map (ab_lapic A) (madt_lapics A n))"
  have tab: "packed_records.table (ab_lapic A) (madt_lapics A n) = ?L"
    by (simp add: packed_records.table_def [OF rec])
  have len: "length (madt_header_bytes A (madt_final_header A n)) = 44" "length ?L = 8 * unat n"
    "length (ab_ioapic A (ioapic_of A n)) = 12"
    using A packed_records.length_table [OF rec, of "madt_lapics A n"]
    by (simp_all add: madt_header_length tab) (simp add: acpi_abi_ok_def)
  have "take 8 (drop (44 + 8 * i) (madt_table A n)) = ab_lapic A (lapic_of A (of_nat i))"
    if i: "i < unat n" for i
  proof -
    have "drop (44 + 8 * i) (madt_table A n) = drop (i * 8) (?L @ ab_ioapic A (ioapic_of A n))"
      by (simp add: madt_table_parts [OF A] len mult.commute)
    moreover have "madt_lapics A n ! i = lapic_of A (of_nat i)" using i by (simp add: madt_lapics_def)
    ultimately show ?thesis
      using packed_records.table_record [OF rec, of i "madt_lapics A n" "ab_ioapic A (ioapic_of A n)"] i
      by (simp only: tab length_madt_lapics)
  qed
  then show ?thesis
    using madt_sum [OF A, of n] by (simp add: unat_madt_size [OF A] madt_table_parts [OF A] len)
qed

theorem acpi_madt_layout_witness:
  "byte_sum (madt_table acpi6 2) = 0 \<and> length (madt_table acpi6 2) = 72 \<and>
   take 8 (drop 52 (madt_table acpi6 2)) = [0, 8, 1, 1, 1, 0, 0, 0]"
proof -
  have "ab_lapic acpi6 (lapic_of acpi6 1) = [0, 8, 1, 1, 1, 0, 0, 0]"
    by (simp add: acpi6_def lapic_of_def le_bytes_def upt_rec)
  moreover have "\<forall>i<unat (2 :: u32). take 8 (drop (44 + 8 * i) (madt_table acpi6 2)) =
      ab_lapic acpi6 (lapic_of acpi6 (of_nat i))"
    and "byte_sum (madt_table acpi6 2) = 0 \<and> length (madt_table acpi6 2) = 72"
    using acpi_madt_layout [OF acpi6_ok, of 2] by simp_all
  ultimately show ?thesis by (auto dest: spec [where x = 1])
qed

text \<open>The processor ids that a reader of the table finds.\<close>

definition madt_ids :: "u32 \<Rightarrow> u8 list" where
  "madt_ids n = map (\<lambda>i. la_ApicId (lapic6.read_record i (drop 44 (madt_table acpi6 n)))) [0..<unat n]"

lemma byte_of_nat: "(ucast (of_nat i :: u32) :: u8) = of_nat i"
  by (rule word_unat_eq_iff [THEN iffD2])
    (simp add: unsigned_ucast_eq unsigned_of_nat take_bit_eq_mod mod_mod_cancel)

lemma madt_ids_eq: "madt_ids n = map of_nat [0..<unat n]"
proof -
  have t: "drop 44 (madt_table acpi6 n) =
      lapic6.table (madt_lapics acpi6 n) @ ab_ioapic acpi6 (ioapic_of acpi6 n)"
    by (simp add: madt_table_parts [OF acpi6_ok] madt_header_length [OF acpi6_ok] lapic6.table_def)
  have "la_ApicId (lapic6.read_record i (drop 44 (madt_table acpi6 n))) = of_nat i" if "i < unat n" for i
    using lapic6.read_table [of i "madt_lapics acpi6 n" "ab_ioapic acpi6 (ioapic_of acpi6 n)"] that
    by (simp add: t madt_lapics_def lapic_of_def byte_of_nat)
  then show ?thesis by (simp add: madt_ids_def)
qed

lemma distinct_bytes: "distinct (map (of_nat :: nat \<Rightarrow> u8) [0..<n]) \<longleftrightarrow> n \<le> 256"
proof
  assume d: "distinct (map (of_nat :: nat \<Rightarrow> u8) [0..<n])"
  have "n = card (set (map (of_nat :: nat \<Rightarrow> u8) [0..<n]))" using distinct_card [OF d] by simp
  also have "\<dots> \<le> card (UNIV :: u8 set)" by (rule card_mono) simp_all
  finally show "n \<le> 256" by (simp add: card_word)
next
  assume n: "n \<le> 256"
  have "inj_on (of_nat :: nat \<Rightarrow> u8) {0..<n}"
  proof (rule inj_onI)
    fix i j assume "i \<in> {0..<n}" "j \<in> {0..<n}" and e: "(of_nat i :: u8) = of_nat j"
    then have "i < 2 ^ LENGTH(8)" "j < 2 ^ LENGTH(8)" using n by simp_all
    then show "i = j" using e by (metis unat_of_nat_small)
  qed
  then show "distinct (map (of_nat :: nat \<Rightarrow> u8) [0..<n])" by (simp add: distinct_map)
qed

text \<open>The ids a reader of the table finds are different exactly for at most 256 processors, and
  the id given to the I/O APIC is free exactly for at most 255: beyond that the table is still
  installed, with ids that name two devices.\<close>

theorem acpi_ids_unique_iff:
  "(distinct (madt_ids n) \<longleftrightarrow> unat n \<le> 256) \<and>
   (io_IoApicId (ioapic_of acpi6 n) \<in> set (madt_ids n) \<longleftrightarrow> 256 \<le> unat n)"
proof -
  have "(ucast n :: u8) \<in> of_nat ` {0..<unat n} \<longleftrightarrow> 256 \<le> unat n" (is "?l \<longleftrightarrow> ?r")
  proof
    assume ?l
    then obtain i where i: "i < unat n" "(ucast n :: u8) = of_nat i" by auto
    show ?r
    proof (rule ccontr)
      assume "\<not> ?r"
      then have n: "unat n < 256" by simp
      then have "i < 2 ^ LENGTH(8)" using i(1) by simp
      then have "unat (of_nat i :: u8) = i" by (rule unat_of_nat_small)
      moreover have "unat (ucast n :: u8) = unat n"
        using n by (simp add: unsigned_ucast_eq take_bit_nat_eq_self)
      ultimately show False using i by simp
    qed
  next
    assume r: ?r
    have "(ucast n :: u8) = of_nat (unat n mod 256)"
      by (rule word_unat_eq_iff [THEN iffD2])
        (simp add: unat_of_nat_small unsigned_ucast_eq take_bit_eq_mod)
    moreover have "unat n mod 256 < unat n" using r by (meson less_le_trans mod_less_divisor zero_less_numeral)
    ultimately show ?l by auto
  qed
  then show ?thesis by (simp add: madt_ids_eq distinct_bytes ioapic_of_def image_iff)
qed

text \<open>When the ACPI protocol is missing, the table is handed to the configuration table by its
  address and its buffer is freed before the function returns success.\<close>

lemma acpi_fallback_freed:
  assumes "as_allocates sv" "EFI_ERROR (as_LocateProtocol sv)"
  shows "AcpiInitTables A sv n =
    (as_InstallConfigurationTable sv (madt_table A n),
     [InstallConfigurationTable (madt_table A n), FreeMadt])"
  using assms by (simp add: AcpiInitTables_def Let_def)

end
