(* ===== verification/SmbiosTables.thy ===== *)
theory SmbiosTables
  imports ByteLayout
begin

text \<open>
  The SMBIOS structures of the firmware (hwcompat/smbios/SmbiosTables.c). A structure is its
  assigned fields (the others are zero) and its 64 bytes of strings. The numbers of the
  industry-standard header (structure types and sizes, the upgrade code) are a parameter, and
  so are the statuses the SMBIOS protocol returns; the structures handed to it are recorded.
\<close>

section \<open>The string block\<close>

definition ascii :: "string \<Rightarrow> u8 list" where
  "ascii s = map (\<lambda>c. of_nat (of_char c)) s"

text \<open>\<open>AsciiStrCpyS\<close> of the UEFI library copies the string and its zero when they fit; the
  strings are 64 bytes.\<close>

definition str_cpy :: "nat \<Rightarrow> u8 list \<Rightarrow> u8 list \<Rightarrow> u8 list" where
  "str_cpy off s buf =
     (if length s < length buf - off then put_bytes off (s @ [0]) buf else buf)"

definition string_block :: "u8 list list \<Rightarrow> u8 list" where
  "string_block ss =
     (let (len, buf) = fold (\<lambda>s (off, buf). (off + (length s + 1), str_cpy off s buf)) ss (0, replicate 64 0)
      in buf[len := 0])"

section \<open>The structures\<close>

record smbios_abi =
  sb_BIOS_INFORMATION :: u8
  sb_SYSTEM_INFORMATION :: u8
  sb_PROCESSOR_INFORMATION :: u8
  sb_sizeof_type0 :: u8
  sb_sizeof_type1 :: u8
  sb_sizeof_type4 :: u8
  sb_ProcessorUpgradeNone :: u8

record smbios_header =
  sh_Type :: u8
  sh_Length :: u8
  sh_Strings :: "u8 list"

record smbios_type0 = smbios_header +
  s0_Vendor :: u8
  s0_BiosVersion :: u8

record smbios_type1 = smbios_header +
  s1_Manufacturer :: u8
  s1_ProductName :: u8

record smbios_type4 = smbios_header +
  s4_Socket :: u8
  s4_ProcessorManufacturer :: u8
  s4_ProcessorVersion :: u8
  s4_Status :: u8
  s4_ProcessorUpgrade :: u8
  s4_CoreCount :: u8
  s4_EnabledCoreCount :: u8
  s4_ThreadCount :: u8

datatype smbios_structure =
    SmbiosType0 smbios_type0
  | SmbiosType1 smbios_type1
  | SmbiosType4 smbios_type4

definition smbios_T0 :: "smbios_abi \<Rightarrow> smbios_type0" where
  "smbios_T0 A =
     \<lparr>sh_Type = sb_BIOS_INFORMATION A, sh_Length = sb_sizeof_type0 A,
      sh_Strings = string_block [ascii ''BEMI'', ascii ''v7.2''], s0_Vendor = 1, s0_BiosVersion = 2\<rparr>"

definition smbios_T1 :: "smbios_abi \<Rightarrow> smbios_type1" where
  "smbios_T1 A =
     \<lparr>sh_Type = sb_SYSTEM_INFORMATION A, sh_Length = sb_sizeof_type1 A,
      sh_Strings = string_block [ascii ''BEMI Hardware'', ascii ''BEMI Box''],
      s1_Manufacturer = 1, s1_ProductName = 2\<rparr>"

definition smbios_T4 :: "smbios_abi \<Rightarrow> u32 \<Rightarrow> smbios_type4" where
  "smbios_T4 A CpuCount =
     \<lparr>sh_Type = sb_PROCESSOR_INFORMATION A, sh_Length = sb_sizeof_type4 A,
      sh_Strings = string_block [ascii ''Socket BEMI'', ascii ''BEMI Corp'', ascii ''BEMI Processor''],
      s4_Socket = 1, s4_ProcessorManufacturer = 2, s4_ProcessorVersion = 3, s4_Status = 1,
      s4_ProcessorUpgrade = sb_ProcessorUpgradeNone A, s4_CoreCount = ucast CpuCount,
      s4_EnabledCoreCount = ucast CpuCount, s4_ThreadCount = ucast CpuCount\<rparr>"

record smbios_services =
  ss_LocateProtocol :: efi_status
  ss_Add :: "smbios_structure \<Rightarrow> efi_status"

text \<open>The statuses of the three additions are only printed; the result pairs each structure with
  the status its addition returned.\<close>

definition SmbiosInitTables ::
  "smbios_abi \<Rightarrow> smbios_services \<Rightarrow> u32 \<Rightarrow> efi_status \<times> (smbios_structure \<times> efi_status) list" where
  "SmbiosInitTables A sv CpuCount =
     (if EFI_ERROR (ss_LocateProtocol sv) then (ss_LocateProtocol sv, [])
      else (EFI_SUCCESS,
        map (\<lambda>t. (t, ss_Add sv t))
          [SmbiosType0 (smbios_T0 A), SmbiosType1 (smbios_T1 A), SmbiosType4 (smbios_T4 A CpuCount)]))"

section \<open>Reading the strings back\<close>

text \<open>A reader takes zero-terminated strings up to the empty one; string number \<open>k\<close> is the
  \<open>k\<close>-th of them, and number 0 is no string.\<close>

function (sequential) read_strings :: "u8 list \<Rightarrow> u8 list list" where
  "read_strings [] = []"
| "read_strings (b # bs) =
     (if b = 0 then []
      else (b # takeWhile (\<lambda>x. x \<noteq> 0) bs) # read_strings (drop 1 (dropWhile (\<lambda>x. x \<noteq> 0) bs)))"
  by pat_completeness auto
termination
proof (relation "measure length")
  fix b :: u8 and bs :: "u8 list"
  have "length (dropWhile (\<lambda>x. x \<noteq> 0) bs) \<le> length bs" by (rule length_dropWhile_le)
  then show "(drop 1 (dropWhile (\<lambda>x. x \<noteq> 0) bs), b # bs) \<in> measure length" by simp
qed simp

definition string_ref :: "u8 list \<Rightarrow> u8 \<Rightarrow> u8 list option" where
  "string_ref buf r =
     (if r = 0 \<or> length (read_strings buf) < unat r then None else Some (read_strings buf ! (unat r - 1)))"

definition zstrings :: "u8 list list \<Rightarrow> u8 list" where
  "zstrings ss = concat (map (\<lambda>s. s @ [0]) ss)"

lemma read_zstrings:
  assumes "\<forall>s\<in>set ss. s \<noteq> [] \<and> 0 \<notin> set s"
  shows "read_strings (zstrings ss @ 0 # rest) = ss"
  using assms
proof (induction ss)
  case Nil
  then show ?case by (simp add: zstrings_def)
next
  case (Cons s ss)
  then obtain b t where s: "s = b # t" "b \<noteq> 0" "0 \<notin> set t" by (cases s) auto
  have "takeWhile (\<lambda>x. x \<noteq> 0) (t @ 0 # r) = t" "dropWhile (\<lambda>x. x \<noteq> 0) (t @ 0 # r) = 0 # r" for r
    using s(3) by (induction t) auto
  with Cons s show ?case by (simp add: zstrings_def)
qed

lemma copy_strings:
  assumes "off + length (zstrings ss) \<le> length buf"
  shows "fold (\<lambda>s (off, buf). (off + (length s + 1), str_cpy off s buf)) ss (off, buf) =
    (off + length (zstrings ss), put_bytes off (zstrings ss) buf)"
  using assms
proof (induction ss arbitrary: off buf)
  case (Cons s ss)
  have z: "zstrings (s # ss) = (s @ [0]) @ zstrings ss" by (simp add: zstrings_def)
  have "off + length s < length buf" using Cons.prems unfolding z by simp
  then have "str_cpy off s buf = put_bytes off (s @ [0]) buf" by (simp add: str_cpy_def less_diff_conv)
  moreover have "put_bytes (off + (length s + 1)) (zstrings ss) (put_bytes off (s @ [0]) buf) =
      put_bytes off (zstrings (s # ss)) buf"
    using put_bytes_append [of off "s @ [0]" "zstrings ss" buf] Cons.prems by (simp add: z)
  ultimately show ?case
    using Cons.IH [of "off + (length s + 1)" "put_bytes off (s @ [0]) buf"] Cons.prems
    by (simp add: z)
qed (simp add: zstrings_def)

lemma string_block_bytes:
  assumes "length (zstrings ss) < 64"
  shows "string_block ss = zstrings ss @ 0 # replicate (63 - length (zstrings ss)) 0"
proof -
  let ?z = "zstrings ss"
  have "replicate 64 (0 :: u8) = replicate (length ?z) 0 @ replicate (64 - length ?z) 0"
    using assms by (simp add: replicate_add [symmetric])
  then have "put_bytes 0 ?z (replicate 64 0) = ?z @ replicate (64 - length ?z) 0"
    by (simp add: put_bytes_def)
  moreover have "64 - length ?z = Suc (63 - length ?z)" using assms by simp
  ultimately show ?thesis
    using copy_strings [of 0 ss "replicate 64 0"] assms
    by (simp add: string_block_def list_update_append)
qed

text \<open>C33: the string block is read back as it was written, for any list of non-empty strings
  without zero bytes that fit with their terminators and the final zero in the 64 bytes of the
  structure, and the block keeps its 64 bytes.\<close>

theorem smbios_strings_roundtrip:
  assumes "\<forall>s\<in>set ss. s \<noteq> [] \<and> 0 \<notin> set s" "(\<Sum>s\<leftarrow>ss. length s + 1) < 64"
  shows "read_strings (string_block ss) = ss \<and> length (string_block ss) = 64"
proof -
  have "length (zstrings ss) = (\<Sum>s\<leftarrow>ss. length s + 1)"
    by (induction ss) (simp_all add: zstrings_def)
  then have l: "length (zstrings ss) < 64" using assms(2) by simp
  then show ?thesis
    using read_zstrings [OF assms(1)] by (simp add: string_block_bytes)
qed

theorem smbios_strings_roundtrip_witness:
  "read_strings (string_block [[66, 69], [77]]) = [[66, 69], [77]]"
  using smbios_strings_roundtrip [of "[[66, 69], [77]]"] by simp

lemma code_strings:
  "read_strings (string_block [ascii ''BEMI'', ascii ''v7.2'']) = [ascii ''BEMI'', ascii ''v7.2'']"
  "read_strings (string_block [ascii ''BEMI Hardware'', ascii ''BEMI Box'']) =
     [ascii ''BEMI Hardware'', ascii ''BEMI Box'']"
  "read_strings (string_block [ascii ''Socket BEMI'', ascii ''BEMI Corp'', ascii ''BEMI Processor'']) =
     [ascii ''Socket BEMI'', ascii ''BEMI Corp'', ascii ''BEMI Processor'']"
proof -
  have s: "length (zstrings (map ascii ss)) = (\<Sum>s\<leftarrow>ss. length s + 1)" for ss
    by (induction ss) (simp_all add: zstrings_def ascii_def)
  have "read_strings (string_block ss) = ss"
    if "length (zstrings ss) < 64" "\<forall>s\<in>set ss. s \<noteq> [] \<and> 0 \<notin> set s" for ss
    using read_zstrings [OF that(2)] that(1) by (simp add: string_block_bytes)
  note r = this [of "map ascii _", simplified s]
  show "read_strings (string_block [ascii ''BEMI'', ascii ''v7.2'']) = [ascii ''BEMI'', ascii ''v7.2'']"
    using r [of "[''BEMI'', ''v7.2'']"] by (simp add: ascii_def)
  show "read_strings (string_block [ascii ''BEMI Hardware'', ascii ''BEMI Box'']) =
     [ascii ''BEMI Hardware'', ascii ''BEMI Box'']"
    using r [of "[''BEMI Hardware'', ''BEMI Box'']"] by (simp add: ascii_def)
  show "read_strings (string_block [ascii ''Socket BEMI'', ascii ''BEMI Corp'', ascii ''BEMI Processor'']) =
     [ascii ''Socket BEMI'', ascii ''BEMI Corp'', ascii ''BEMI Processor'']"
    using r [of "[''Socket BEMI'', ''BEMI Corp'', ''BEMI Processor'']"] by (simp add: ascii_def)
qed

text \<open>Every string number in the structures names the string the code means, and the processor
  counts are the count modulo 256: 256 processors are reported as none. The function reports
  success whatever the protocol answers to the three additions.\<close>

theorem smbios_structures_resolve:
  "let T0 = smbios_T0 A; T1 = smbios_T1 A; T4 = smbios_T4 A n in
     string_ref (sh_Strings T0) (s0_Vendor T0) = Some (ascii ''BEMI'') \<and>
     string_ref (sh_Strings T0) (s0_BiosVersion T0) = Some (ascii ''v7.2'') \<and>
     string_ref (sh_Strings T1) (s1_Manufacturer T1) = Some (ascii ''BEMI Hardware'') \<and>
     string_ref (sh_Strings T1) (s1_ProductName T1) = Some (ascii ''BEMI Box'') \<and>
     string_ref (sh_Strings T4) (s4_Socket T4) = Some (ascii ''Socket BEMI'') \<and>
     string_ref (sh_Strings T4) (s4_ProcessorManufacturer T4) = Some (ascii ''BEMI Corp'') \<and>
     string_ref (sh_Strings T4) (s4_ProcessorVersion T4) = Some (ascii ''BEMI Processor'') \<and>
     unat (s4_CoreCount T4) = unat n mod 256 \<and> s4_ThreadCount T4 = s4_CoreCount T4 \<and>
     SmbiosInitTables A sv n =
       (if EFI_ERROR (ss_LocateProtocol sv) then (ss_LocateProtocol sv, [])
        else (EFI_SUCCESS, [(SmbiosType0 T0, ss_Add sv (SmbiosType0 T0)),
          (SmbiosType1 T1, ss_Add sv (SmbiosType1 T1)), (SmbiosType4 T4, ss_Add sv (SmbiosType4 T4))]))"
  by (simp add: Let_def smbios_T0_def smbios_T1_def smbios_T4_def string_ref_def code_strings
      SmbiosInitTables_def unsigned_ucast_eq take_bit_eq_mod)

end
