(* ===== verification/SmmHandler.thy ===== *)
theory SmmHandler
  imports Prelude
begin

text \<open>
  The SMM handler, \<open>hwcompat/smm/smmhandler.c\<close>: the saved state, the SMRR values, and the
  latency statistics of system-management interrupts. The time-stamp counter a function reads
  is an argument; \<open>None\<close> is a division by zero, which the restore path runs into when the
  handler has not been initialised.
\<close>

section \<open>State\<close>

definition SMM_LATENCY_BUDGET_US :: u64 where "SMM_LATENCY_BUDGET_US = 100"
definition SAVED_STATE_MAGIC :: u64 where "SAVED_STATE_MAGIC = 0x42454D49534D4D00"

record smm_state =
  sm_Magic :: u64
  sm_TraceCacheBase :: u64
  sm_TraceCacheSize :: u64
  sm_SavedTraceCacheEntries :: u64
  sm_BemiActive :: bool
  sm_SaveTimestamp :: u64
  sm_RestoreTimestamp :: u64
  sm_TscFrequency :: u64
  sm_MaxLatencyUs :: u64
  sm_TotalSmiCount :: u64
  sm_BudgetViolations :: u64
  sm_SmrrBase :: u32
  sm_SmrrMask :: u32
  sm_SmrrConfigured :: bool
  sm_Active :: bool

text \<open>The statics before initialisation.\<close>

definition smm_start :: smm_state where
  "smm_start = \<lparr>sm_Magic = 0, sm_TraceCacheBase = 0, sm_TraceCacheSize = 0,
     sm_SavedTraceCacheEntries = 0, sm_BemiActive = False, sm_SaveTimestamp = 0,
     sm_RestoreTimestamp = 0, sm_TscFrequency = 0, sm_MaxLatencyUs = 0, sm_TotalSmiCount = 0,
     sm_BudgetViolations = 0, sm_SmrrBase = 0, sm_SmrrMask = 0, sm_SmrrConfigured = False,
     sm_Active = False\<rparr>"

section \<open>Operations\<close>

definition SmmHandlerInit :: "u64 \<Rightarrow> u64 \<Rightarrow> smm_state \<Rightarrow> efi_status \<times> smm_state" where
  "SmmHandlerInit TraceCacheBase TraceCacheSize s =
     (let s = smm_start\<lparr>sm_Active := sm_Active s\<rparr>;
          s = s\<lparr>sm_Magic := SAVED_STATE_MAGIC, sm_TraceCacheBase := TraceCacheBase,
                sm_TraceCacheSize := TraceCacheSize, sm_BemiActive := True,
                sm_TscFrequency := 2500000000\<rparr>;
          s = (if TraceCacheBase \<noteq> 0 \<and> TraceCacheSize \<noteq> 0
               then s\<lparr>sm_SmrrBase := ucast TraceCacheBase,
                      sm_SmrrMask := ucast (NOT (TraceCacheSize - 1) OR 0x06),
                      sm_SmrrConfigured := True\<rparr>
               else s)
      in (EFI_SUCCESS, s))"

definition SmmHandlerSaveState :: "u64 \<Rightarrow> smm_state \<Rightarrow> efi_status \<times> smm_state" where
  "SmmHandlerSaveState tsc s =
     (let s = s\<lparr>sm_SaveTimestamp := tsc, sm_TotalSmiCount := sm_TotalSmiCount s + 1,
                sm_Active := True\<rparr>;
          s = (if sm_TraceCacheBase s \<noteq> 0 then s\<lparr>sm_SavedTraceCacheEntries := 1024\<rparr> else s)
      in (EFI_SUCCESS, s))"

definition SmmHandlerRestoreState :: "u64 \<Rightarrow> smm_state \<Rightarrow> (efi_status \<times> smm_state) option" where
  "SmmHandlerRestoreState tsc s =
     (let s = s\<lparr>sm_RestoreTimestamp := tsc, sm_Active := False\<rparr>;
          ticks = sm_RestoreTimestamp s - sm_SaveTimestamp s;
          perUs = sm_TscFrequency s div 1000000
      in if perUs = 0 then None
         else
           (let elapsedUs = ticks div perUs;
                s = (if elapsedUs > sm_MaxLatencyUs s then s\<lparr>sm_MaxLatencyUs := elapsedUs\<rparr> else s);
                s = (if elapsedUs > SMM_LATENCY_BUDGET_US
                     then s\<lparr>sm_BudgetViolations := sm_BudgetViolations s + 1\<rparr> else s)
            in Some (EFI_SUCCESS, s)))"

definition SmmHandlerRestoreTraceCache :: "smm_state \<Rightarrow> efi_status" where
  "SmmHandlerRestoreTraceCache s = EFI_SUCCESS"

definition SmmHandlerValidate :: "smm_state \<Rightarrow> efi_status" where
  "SmmHandlerValidate s = (if sm_BudgetViolations s > 0 then EFI_TIMEOUT else EFI_SUCCESS)"

definition SmmHandlerRegisterSmramRegion :: "u64 \<Rightarrow> u64 \<Rightarrow> efi_status" where
  "SmmHandlerRegisterSmramRegion Base Size =
     (if Base = 0 \<or> Size = 0 then EFI_INVALID_PARAMETER else EFI_SUCCESS)"

definition SmmHandlerConfigureCpu :: "u32 \<Rightarrow> u64 \<Rightarrow> efi_status" where
  "SmmHandlerConfigureCpu CpuIndex SmBase =
     (if SmBase = 0 then EFI_INVALID_PARAMETER else EFI_SUCCESS)"

definition SmmHandlerGetStats :: "smm_state \<Rightarrow> u64 \<times> u64 \<times> u64" where
  "SmmHandlerGetStats s = (sm_TotalSmiCount s, sm_MaxLatencyUs s, sm_BudgetViolations s)"

section \<open>Interrupts\<close>

text \<open>One system-management interrupt: the state is saved at one time and restored at another.\<close>

definition smi :: "u64 \<times> u64 \<Rightarrow> smm_state \<Rightarrow> smm_state option" where
  "smi t s = map_option snd (SmmHandlerRestoreState (snd t) (snd (SmmHandlerSaveState (fst t) s)))"

fun smi_run :: "(u64 \<times> u64) list \<Rightarrow> smm_state \<Rightarrow> smm_state option" where
  "smi_run [] s = Some s"
| "smi_run (t # ts) s = Option.bind (smi t s) (smi_run ts)"

definition smi_us :: "u64 \<times> u64 \<Rightarrow> u64" where
  "smi_us t = (snd t - fst t) div 2500"

lemma save_fields:
  "sm_TscFrequency (snd (SmmHandlerSaveState t s)) = sm_TscFrequency s"
  "sm_SaveTimestamp (snd (SmmHandlerSaveState t s)) = t"
  "sm_TotalSmiCount (snd (SmmHandlerSaveState t s)) = sm_TotalSmiCount s + 1"
  "sm_MaxLatencyUs (snd (SmmHandlerSaveState t s)) = sm_MaxLatencyUs s"
  "sm_BudgetViolations (snd (SmmHandlerSaveState t s)) = sm_BudgetViolations s"
  by (simp_all add: SmmHandlerSaveState_def Let_def)

lemma smi_step:
  assumes "sm_TscFrequency s = 2500000000"
  obtains s' where "smi t s = Some s'" "sm_TscFrequency s' = 2500000000"
    "sm_TotalSmiCount s' = sm_TotalSmiCount s + 1"
    "sm_MaxLatencyUs s' = max (sm_MaxLatencyUs s) (smi_us t)"
    "sm_BudgetViolations s' = sm_BudgetViolations s + (if smi_us t > 100 then 1 else 0)"
proof -
  obtain s' where s': "smi t s = Some s'"
    using assms by (simp add: smi_def SmmHandlerRestoreState_def save_fields Let_def)
  show ?thesis
    by (rule that [OF s'])
       (use s' assms in \<open>auto simp: smi_def SmmHandlerRestoreState_def save_fields Let_def
          smi_us_def SMM_LATENCY_BUDGET_US_def max_def split: if_splits\<close>)
qed

lemma smi_run_region:
  "smi_run ts s = Some s' \<Longrightarrow>
     sm_TraceCacheBase s' = sm_TraceCacheBase s \<and> sm_TraceCacheSize s' = sm_TraceCacheSize s \<and>
     sm_SmrrBase s' = sm_SmrrBase s"
proof (induction ts arbitrary: s)
  case (Cons t ts)
  then obtain s1 where s1: "smi t s = Some s1" "smi_run ts s1 = Some s'"
    by (auto simp: bind_eq_Some_conv)
  have "sm_TraceCacheBase s1 = sm_TraceCacheBase s \<and> sm_TraceCacheSize s1 = sm_TraceCacheSize s \<and>
      sm_SmrrBase s1 = sm_SmrrBase s"
    using s1(1) by (auto simp: smi_def SmmHandlerRestoreState_def SmmHandlerSaveState_def Let_def split: if_splits)
  with Cons.IH [OF s1(2)] show ?case by simp
qed simp

lemma smi_run_stats:
  assumes "sm_TscFrequency s = 2500000000"
  shows "\<exists>s'. smi_run ts s = Some s' \<and>
    sm_TotalSmiCount s' = sm_TotalSmiCount s + of_nat (length ts) \<and>
    sm_MaxLatencyUs s' = fold max (map smi_us ts) (sm_MaxLatencyUs s) \<and>
    sm_BudgetViolations s' = sm_BudgetViolations s + of_nat (length (filter (\<lambda>t. smi_us t > 100) ts))"
  using assms
proof (induction ts arbitrary: s)
  case (Cons t ts)
  obtain s1 where s1: "smi t s = Some s1" "sm_TscFrequency s1 = 2500000000"
    "sm_TotalSmiCount s1 = sm_TotalSmiCount s + 1"
    "sm_MaxLatencyUs s1 = max (sm_MaxLatencyUs s) (smi_us t)"
    "sm_BudgetViolations s1 = sm_BudgetViolations s + (if smi_us t > 100 then 1 else 0)"
    by (rule smi_step [OF Cons.prems])
  from Cons.IH [OF s1(2)] s1 show ?case
    by (auto simp: max.commute)
qed simp

section \<open>The range registers\<close>

lemma mask_compare:
  fixes x y :: "'a::len word"
  shows "x AND NOT (mask k) = y AND NOT (mask k) \<longleftrightarrow> drop_bit k x = drop_bit k y"
proof
  assume a: "x AND NOT (mask k) = y AND NOT (mask k)"
  show "drop_bit k x = drop_bit k y"
  proof (rule bit_word_eqI)
    fix n assume "n < LENGTH('a)"
    have "bit (x AND NOT (mask k)) (k + n) = bit (y AND NOT (mask k)) (k + n)" using a by simp
    then show "bit (drop_bit k x) n = bit (drop_bit k y) n"
      by (cases "k + n < LENGTH('a)") (auto simp: bit_simps dest: bit_imp_le_length)
  qed
next
  assume a: "drop_bit k x = drop_bit k y"
  show "x AND NOT (mask k) = y AND NOT (mask k)"
  proof (rule bit_word_eqI)
    fix n assume "n < LENGTH('a)"
    show "bit (x AND NOT (mask k)) n = bit (y AND NOT (mask k)) n"
    proof (cases "n < k")
      case False
      then have "bit (drop_bit k x) (n - k) = bit (drop_bit k y) (n - k)" using a by simp
      with False show ?thesis by (simp add: bit_simps)
    qed (simp add: bit_simps)
  qed
qed

lemma smrr_mask_bits:
  assumes "12 \<le> k" "k \<le> 31"
  shows "ucast (NOT (2 ^ k - 1 :: u64) OR 6) AND 0xFFFFF000 = (NOT (mask k) :: u32)"
proof -
  have "k = 12 \<or> k = 13 \<or> k = 14 \<or> k = 15 \<or> k = 16 \<or> k = 17 \<or> k = 18 \<or> k = 19 \<or> k = 20 \<or> k = 21 \<or>
      k = 22 \<or> k = 23 \<or> k = 24 \<or> k = 25 \<or> k = 26 \<or> k = 27 \<or> k = 28 \<or> k = 29 \<or> k = 30 \<or> k = 31"
    using assms by arith
  then show ?thesis by (elim disjE) (simp_all add: mask_eq_exp_minus_1)
qed

lemma smrr_valid_bit:
  fixes n :: u64
  assumes "4096 dvd unat n" "n \<noteq> 0"
  shows "\<not> bit (ucast (NOT (n - 1) OR 6) :: u32) 11"
proof -
  have "unat n \<noteq> 0" using assms(2) by (simp add: unat_eq_0)
  then obtain q where q: "unat n = 4096 * Suc q" using assms(1) by (metis dvdE mult_0_right not0_implies_Suc)
  have "unat (n - 1) = 4096 * q + 4095" using assms(2) q by (simp add: unat_minus_one)
  then have "unat (n - 1) div 2 ^ 11 = 2 * q + 1" by (simp add: div_nat_eqI)
  then have "odd (unat (n - 1) div 2 ^ 11)" by simp
  then have "bit (unat (n - 1)) 11" by (simp only: bit_iff_odd not_False_eq_True)
  then have "bit (n - 1) 11" by (simp only: bit_unsigned_iff)
  then show ?thesis by (simp add: bit_simps)
qed

text \<open>How the processor compares an address with a pair of range registers: bits 31 to 12 under the
  mask, below 4 GB. Bit 11 of the mask register is its valid bit.\<close>

definition smrr_matches :: "u32 \<Rightarrow> u32 \<Rightarrow> u64 \<Rightarrow> bool" where
  "smrr_matches base msk a \<longleftrightarrow> unat a < 2 ^ 32 \<and>
     (ucast a AND (msk AND 0xFFFFF000)) = (base AND (msk AND 0xFFFFF000))"

lemma smrr_matches_block:
  fixes a b :: u64
  assumes "12 \<le> k" "k \<le> 31" "unat b < 2 ^ 32" "unat a < 2 ^ 32"
  shows "smrr_matches (ucast b) (ucast (NOT (2 ^ k - 1 :: u64) OR 6)) a \<longleftrightarrow> unat a div 2 ^ k = unat b div 2 ^ k"
proof -
  have u: "unat (ucast x :: u32) = unat x" if "unat x < 2 ^ 32" for x :: u64
    using that by (simp add: unsigned_ucast_eq take_bit_nat_eq_self_iff)
  have d: "unat (drop_bit k w) = unat w div 2 ^ k" for w :: u32
    using unat_drop_bit_eq [of k w] by (simp only: drop_bit_eq_div [of k "unat w"])
  have "smrr_matches (ucast b) (ucast (NOT (2 ^ k - 1 :: u64) OR 6)) a \<longleftrightarrow>
      drop_bit k (ucast a :: u32) = drop_bit k (ucast b)"
    using assms(4) by (simp add: smrr_matches_def smrr_mask_bits [OF assms(1,2)] mask_compare)
  also have "\<dots> \<longleftrightarrow> unat (drop_bit k (ucast a :: u32)) = unat (drop_bit k (ucast b :: u32))"
    by (metis unsigned_word_eqI)
  finally show ?thesis
    by (simp only: d u [OF assms(3)] u [OF assms(4)])
qed

lemma last_in_block:
  fixes b m :: nat
  assumes "0 < m" "(b + (m - 1)) div m = b div m"
  shows "m dvd b"
proof -
  have "m * (b div m) + m > b + (m - 1)"
    using assms dividend_less_times_div [of m "b + (m - 1)"] by simp
  moreover have "m * (b div m) \<le> b" by simp
  ultimately have "b = m * (b div m)" using assms(1) by linarith
  then show ?thesis by (metis dvd_triv_left)
qed

lemma smrr_covers_aligned:
  fixes b :: u64
  assumes "12 \<le> k" "k \<le> 31" "unat b + 2 ^ k \<le> 2 ^ 32"
  shows "(\<forall>a. unat b \<le> unat a \<and> unat a < unat b + 2 ^ k \<longrightarrow>
      smrr_matches (ucast b) (ucast (NOT (2 ^ k - 1 :: u64) OR 6)) a) \<longleftrightarrow> 2 ^ k dvd unat b"
proof -
  let ?m = "(2 :: nat) ^ k"
  have p: "0 < ?m" by simp
  then have b: "unat b < 2 ^ 32" using assms(3) by linarith
  note block = smrr_matches_block [OF assms(1,2) b]
  show ?thesis
  proof
    assume cov: "\<forall>a. unat b \<le> unat a \<and> unat a < unat b + ?m \<longrightarrow>
        smrr_matches (ucast b) (ucast (NOT (2 ^ k - 1 :: u64) OR 6)) a"
    obtain a :: u64 where a: "unat a = unat b + (?m - 1)"
      by (rule that [of "of_nat (unat b + (?m - 1))"], rule unat_of_nat_small) (use assms(3) in simp)
    then have "unat a < 2 ^ 32" "unat b \<le> unat a" "unat a < unat b + ?m" using assms(3) p by linarith+
    then have "(unat b + (?m - 1)) div ?m = unat b div ?m" using cov block [of a] a by auto
    with p show "?m dvd unat b" by (rule last_in_block)
  next
    assume "?m dvd unat b"
    then obtain q where q: "unat b = ?m * q" by blast
    have "unat a div ?m = unat b div ?m" if "unat b \<le> unat a" "unat a < unat b + ?m" for a :: u64
      using that p unfolding q by (simp add: div_nat_eqI algebra_simps)
    moreover have "unat a < 2 ^ 32" if "unat a < unat b + ?m" for a :: u64 using that assms(3) by linarith
    ultimately show "\<forall>a. unat b \<le> unat a \<and> unat a < unat b + ?m \<longrightarrow>
        smrr_matches (ucast b) (ucast (NOT (2 ^ k - 1 :: u64) OR 6)) a"
      using block by blast
  qed
qed

section \<open>Properties\<close>

text \<open>After initialisation no interrupt divides by zero, and after any sequence of fewer than
  \<open>2 ^ 64\<close> of them the statistics are exact: their number, the longest one in microseconds at
  2500 ticks each, and how many took more than 100; validation fails exactly if one did. The
  same interrupt before initialisation divides by zero.\<close>

theorem smm_latency_statistics:
  assumes "length ts < 2 ^ 64"
  shows "(\<exists>s'. smi_run ts (snd (SmmHandlerInit base sz s)) = Some s' \<and>
      sm_MaxLatencyUs s' = fold max (map smi_us ts) 0 \<and>
      unat (sm_TotalSmiCount s') = length ts \<and>
      unat (sm_BudgetViolations s') = length (filter (\<lambda>t. smi_us t > 100) ts) \<and>
      (SmmHandlerValidate s' = EFI_TIMEOUT \<longleftrightarrow> (\<exists>t\<in>set ts. smi_us t > 100))) \<and>
    smi (t0, t1) smm_start = None"
proof -
  have i: "sm_TscFrequency (snd (SmmHandlerInit base sz s)) = 2500000000"
    "sm_TotalSmiCount (snd (SmmHandlerInit base sz s)) = 0"
    "sm_MaxLatencyUs (snd (SmmHandlerInit base sz s)) = 0"
    "sm_BudgetViolations (snd (SmmHandlerInit base sz s)) = 0"
    by (simp_all add: SmmHandlerInit_def smm_start_def Let_def)
  let ?v = "length (filter (\<lambda>t. smi_us t > 100) ts)"
  obtain s' where s': "smi_run ts (snd (SmmHandlerInit base sz s)) = Some s'"
    "sm_TotalSmiCount s' = of_nat (length ts)" "sm_MaxLatencyUs s' = fold max (map smi_us ts) 0"
    "sm_BudgetViolations s' = of_nat ?v"
    using smi_run_stats [OF i(1), of ts] by (auto simp: i)
  have "?v < 2 ^ 64" using le_less_trans [OF length_filter_le assms] .
  then have v: "unat (sm_BudgetViolations s') = ?v" unfolding s'(4)
    by (intro unat_of_nat_small) simp
  moreover have "unat (sm_TotalSmiCount s') = length ts"
    unfolding s'(2) by (rule unat_of_nat_small) (use assms in simp)
  moreover have "SmmHandlerValidate s' = EFI_TIMEOUT \<longleftrightarrow> ?v \<noteq> 0"
    using v unat_eq_0 [of "sm_BudgetViolations s'"] by (simp add: SmmHandlerValidate_def word_gt_0)
  moreover have "?v \<noteq> 0 \<longleftrightarrow> (\<exists>t\<in>set ts. smi_us t > 100)" by (auto simp: filter_empty_conv)
  moreover have "smi (t0, t1) smm_start = None"
    by (simp add: smi_def SmmHandlerSaveState_def SmmHandlerRestoreState_def smm_start_def Let_def)
  ultimately show "(\<exists>s'. smi_run ts (snd (SmmHandlerInit base sz s)) = Some s' \<and>
      sm_MaxLatencyUs s' = fold max (map smi_us ts) 0 \<and>
      unat (sm_TotalSmiCount s') = length ts \<and>
      unat (sm_BudgetViolations s') = length (filter (\<lambda>t. smi_us t > 100) ts) \<and>
      (SmmHandlerValidate s' = EFI_TIMEOUT \<longleftrightarrow> (\<exists>t\<in>set ts. smi_us t > 100))) \<and>
    smi (t0, t1) smm_start = None"
    using s'(1,3) by auto
qed

theorem smm_latency_statistics_witness:
  "\<exists>s'. smi_run [(0, 2500), (10000, 1010000)] (snd (SmmHandlerInit 0 0 smm_start)) = Some s' \<and>
     sm_MaxLatencyUs s' = 400 \<and> SmmHandlerValidate s' = EFI_TIMEOUT"
  using smm_latency_statistics [of "[(0, 2500), (10000, 1010000)]" 0 0 smm_start]
  by (auto simp: smi_us_def)

end
