(* ===== verification/MemoryCompressor.thy ===== *)
theory MemoryCompressor
  imports Prelude
begin

text \<open>
  The memory-link compression model (performance/bwgov/memorycompressor.c). Its doubles are a
  type \<open>'f\<close> with the operations the code uses as a parameter: the clamp at the smallest ratio,
  the product, the truncated quotient of a size by a ratio, the quotient of two totals, and the
  constants.
\<close>

record 'f hmc_arith =
  ha_clamp :: "'f \<Rightarrow> 'f"
  ha_times :: "'f \<Rightarrow> 'f \<Rightarrow> 'f"
  ha_compressed :: "u64 \<Rightarrow> 'f \<Rightarrow> u64"
  ha_quotient :: "u64 \<Rightarrow> u64 \<Rightarrow> 'f"
  ha_1_0 :: 'f
  ha_64_0 :: 'f
  ha_1_5 :: 'f
  ha_1_8 :: 'f
  ha_2_0 :: 'f
  ha_2_2 :: 'f
  V72_COMPRESSION_RATIO :: 'f
  V72_EFFECTIVE_BW :: 'f

datatype hmc_workload_pattern =
  HmcPatternGeneric | HmcPatternVideoEncoding | HmcPatternOlapScan | HmcPatternDlTraining

record 'f memory_compressor =
  mc_TargetCompressionRatio :: 'f
  mc_PeakPhysicalBwGbs :: 'f
  mc_PeakEffectiveBwGbs :: 'f
  mc_TotalRawBytesRead :: u64
  mc_TotalRawBytesWritten :: u64
  mc_TotalCompressedBytesRead :: u64
  mc_TotalCompressedBytesWritten :: u64
  mc_CacheLinesCompressed :: u64
  mc_CacheLinesDecompressed :: u64
  mc_DecompressionLatencyCycles :: u64
  mc_Initialized :: bool

section \<open>Operations\<close>

text \<open>\<open>None\<close> is the null pointer; a failed allocation leaves it so.\<close>

definition MemoryCompressorInit ::
  "'f hmc_arith \<Rightarrow> bool \<Rightarrow> 'f \<Rightarrow> 'f \<Rightarrow> efi_status \<times> 'f memory_compressor option" where
  "MemoryCompressorInit ar allocates TargetRatio PeakPhysicalBw =
     (if \<not> allocates then (EFI_OUT_OF_RESOURCES, None)
      else (EFI_SUCCESS, Some
        \<lparr>mc_TargetCompressionRatio = ha_clamp ar TargetRatio, mc_PeakPhysicalBwGbs = PeakPhysicalBw,
         mc_PeakEffectiveBwGbs = ha_times ar PeakPhysicalBw (ha_clamp ar TargetRatio),
         mc_TotalRawBytesRead = 0, mc_TotalRawBytesWritten = 0, mc_TotalCompressedBytesRead = 0,
         mc_TotalCompressedBytesWritten = 0, mc_CacheLinesCompressed = 0,
         mc_CacheLinesDecompressed = 0, mc_DecompressionLatencyCycles = 0, mc_Initialized = True\<rparr>))"

definition hmc_guard ::
  "('f memory_compressor \<Rightarrow> 'f memory_compressor) \<Rightarrow> 'f memory_compressor option \<Rightarrow> 'f memory_compressor option" where
  "hmc_guard f g = (case g of None \<Rightarrow> None | Some s \<Rightarrow> if \<not> mc_Initialized s then Some s else Some (f s))"

definition hmc_lines :: "u64 \<Rightarrow> u64" where
  "hmc_lines Size = (Size + 64 - 1) div 64"

definition MemoryCompressorWrite ::
  "'f hmc_arith \<Rightarrow> u64 \<Rightarrow> 'f memory_compressor option \<Rightarrow> 'f memory_compressor option" where
  "MemoryCompressorWrite ar Size =
     hmc_guard (\<lambda>s. s
       \<lparr>mc_TotalRawBytesWritten := mc_TotalRawBytesWritten s + Size,
        mc_TotalCompressedBytesWritten := mc_TotalCompressedBytesWritten s +
          ha_compressed ar Size (mc_TargetCompressionRatio s),
        mc_CacheLinesCompressed := mc_CacheLinesCompressed s + hmc_lines Size\<rparr>)"

definition MemoryCompressorRead ::
  "'f hmc_arith \<Rightarrow> u64 \<Rightarrow> 'f memory_compressor option \<Rightarrow> 'f memory_compressor option" where
  "MemoryCompressorRead ar Size =
     hmc_guard (\<lambda>s. let l = hmc_lines Size in s
       \<lparr>mc_TotalRawBytesRead := mc_TotalRawBytesRead s + Size,
        mc_TotalCompressedBytesRead := mc_TotalCompressedBytesRead s +
          ha_compressed ar Size (mc_TargetCompressionRatio s),
        mc_CacheLinesDecompressed := mc_CacheLinesDecompressed s + l,
        mc_DecompressionLatencyCycles := mc_DecompressionLatencyCycles s + l * 1\<rparr>)"

text \<open>The physical and the effective bandwidth.\<close>

definition MemoryCompressorGetBandwidth ::
  "'f hmc_arith \<Rightarrow> 'f memory_compressor option \<Rightarrow> 'f \<times> 'f" where
  "MemoryCompressorGetBandwidth ar g =
     (case g of
        None \<Rightarrow> (ha_64_0 ar, ha_64_0 ar)
      | Some s \<Rightarrow>
          if \<not> mc_Initialized s then (ha_64_0 ar, ha_64_0 ar)
          else
            (let totalRaw = mc_TotalRawBytesRead s + mc_TotalRawBytesWritten s;
                 totalComp = mc_TotalCompressedBytesRead s + mc_TotalCompressedBytesWritten s;
                 actualRatio = (if totalComp > 0 then ha_quotient ar totalRaw totalComp
                                else mc_TargetCompressionRatio s)
             in (mc_PeakPhysicalBwGbs s, ha_times ar (mc_PeakPhysicalBwGbs s) actualRatio)))"

fun pattern_ratio :: "'f hmc_arith \<Rightarrow> hmc_workload_pattern \<Rightarrow> 'f" where
  "pattern_ratio ar HmcPatternVideoEncoding = ha_1_8 ar"
| "pattern_ratio ar HmcPatternOlapScan = ha_2_0 ar"
| "pattern_ratio ar HmcPatternDlTraining = ha_2_2 ar"
| "pattern_ratio ar HmcPatternGeneric = ha_1_5 ar"

definition MemoryCompressorSetWorkloadPattern ::
  "'f hmc_arith \<Rightarrow> hmc_workload_pattern \<Rightarrow> 'f memory_compressor option \<Rightarrow>
    efi_status \<times> 'f memory_compressor option" where
  "MemoryCompressorSetWorkloadPattern ar Pattern g =
     (case g of
        None \<Rightarrow> (EFI_NOT_READY, None)
      | Some s \<Rightarrow>
          if \<not> mc_Initialized s then (EFI_NOT_READY, Some s)
          else
            (let NewRatio = pattern_ratio ar Pattern in
             (EFI_SUCCESS, Some (s\<lparr>mc_TargetCompressionRatio := NewRatio,
                mc_PeakEffectiveBwGbs := ha_times ar (mc_PeakPhysicalBwGbs s) NewRatio\<rparr>))))"

definition MemoryCompressorV72Init ::
  "'f hmc_arith \<Rightarrow> 'f memory_compressor option \<Rightarrow> efi_status \<times> 'f memory_compressor option" where
  "MemoryCompressorV72Init ar g =
     (case g of
        None \<Rightarrow> (EFI_NOT_READY, None)
      | Some s \<Rightarrow> (EFI_SUCCESS, Some (s\<lparr>mc_TargetCompressionRatio := V72_COMPRESSION_RATIO ar,
                mc_PeakEffectiveBwGbs := V72_EFFECTIVE_BW ar\<rparr>)))"

section \<open>Runs\<close>

datatype hmc_op = HmcWrite u64 | HmcRead u64 | HmcPattern hmc_workload_pattern | HmcV72

fun hmc_step :: "'f hmc_arith \<Rightarrow> hmc_op \<Rightarrow> 'f memory_compressor option \<Rightarrow> 'f memory_compressor option" where
  "hmc_step ar (HmcWrite n) g = MemoryCompressorWrite ar n g"
| "hmc_step ar (HmcRead n) g = MemoryCompressorRead ar n g"
| "hmc_step ar (HmcPattern p) g = snd (MemoryCompressorSetWorkloadPattern ar p g)"
| "hmc_step ar HmcV72 g = snd (MemoryCompressorV72Init ar g)"

definition hmc_run :: "'f hmc_arith \<Rightarrow> hmc_op list \<Rightarrow> 'f memory_compressor option \<Rightarrow> 'f memory_compressor option" where
  "hmc_run ar ops g = fold (hmc_step ar) ops g"

fun read_size :: "hmc_op \<Rightarrow> nat" where
  "read_size (HmcRead n) = unat n"
| "read_size _ = 0"

fun write_size :: "hmc_op \<Rightarrow> nat" where
  "write_size (HmcWrite n) = unat n"
| "write_size _ = 0"

text \<open>The ratio in force after a sequence of operations that starts with ratio \<open>r\<close>.\<close>

fun ratio_step :: "'f hmc_arith \<Rightarrow> hmc_op \<Rightarrow> 'f \<Rightarrow> 'f" where
  "ratio_step ar (HmcPattern p) r = pattern_ratio ar p"
| "ratio_step ar HmcV72 r = V72_COMPRESSION_RATIO ar"
| "ratio_step ar _ r = r"

text \<open>The lines of a transfer, in natural numbers; a size within 63 bytes of \<open>2 ^ 64\<close> wraps.\<close>

definition line_count :: "nat \<Rightarrow> nat" where "line_count n = (n + 63) mod 2 ^ 64 div 64"

lemma hmc_lines_nat: "hmc_lines n = of_nat (line_count (unat n))"
proof -
  have e: "n + 64 - 1 = n + 63" by (simp add: algebra_simps)
  have "unat (n + 64 - 1) = (unat n + 63) mod 2 ^ 64"
    unfolding e using unat_word_ariths(1) [of n "63"] by simp
  then have "unat (hmc_lines n) = line_count (unat n)"
    by (simp add: hmc_lines_def line_count_def unat_div_distrib)
  then show ?thesis by (metis of_nat_unat ucast_id)
qed

definition hmc_accounts ::
  "'f hmc_arith \<Rightarrow> 'f \<Rightarrow> 'f \<Rightarrow> hmc_op list \<Rightarrow> 'f memory_compressor \<Rightarrow> bool" where
  "hmc_accounts ar r bw ops s \<longleftrightarrow>
     mc_Initialized s \<and> mc_PeakPhysicalBwGbs s = bw \<and>
     mc_TargetCompressionRatio s = fold (ratio_step ar) ops r \<and>
     mc_TotalRawBytesRead s = of_nat (\<Sum>p\<leftarrow>ops. read_size p) \<and>
     mc_TotalRawBytesWritten s = of_nat (\<Sum>p\<leftarrow>ops. write_size p) \<and>
     mc_CacheLinesDecompressed s = of_nat (\<Sum>p\<leftarrow>ops. line_count (read_size p)) \<and>
     mc_DecompressionLatencyCycles s = mc_CacheLinesDecompressed s \<and>
     mc_CacheLinesCompressed s = of_nat (\<Sum>p\<leftarrow>ops. line_count (write_size p))"

lemma line_count_0 [simp]: "line_count 0 = 0"
  by (simp add: line_count_def)

lemma hmc_step_accounts:
  assumes "hmc_accounts ar r bw ops s"
  shows "\<exists>s'. hmc_step ar p (Some s) = Some s' \<and> hmc_accounts ar r bw (ops @ [p]) s'"
  using assms
  by (cases p) (simp_all add: hmc_accounts_def MemoryCompressorWrite_def MemoryCompressorRead_def
      MemoryCompressorSetWorkloadPattern_def MemoryCompressorV72Init_def hmc_guard_def hmc_lines_nat Let_def)

text \<open>After initialisation and any sequence of transfers and configuration changes, the counters
  hold (modulo \<open>2 ^ 64\<close>) the bytes and the 64-byte lines moved in each direction, one cycle of
  decompression latency per line read; the ratio is that of the last configuration, and as long
  as nothing was compressed the bandwidth reported is the physical one times that ratio.\<close>

theorem hmc_accounting:
  assumes "MemoryCompressorInit ar True r bw = (st, g)"
  shows "\<exists>s. hmc_run ar ops g = Some s \<and>
    unat (mc_TotalRawBytesRead s) = (\<Sum>p\<leftarrow>ops. read_size p) mod 2 ^ 64 \<and>
    unat (mc_TotalRawBytesWritten s) = (\<Sum>p\<leftarrow>ops. write_size p) mod 2 ^ 64 \<and>
    unat (mc_CacheLinesDecompressed s) = (\<Sum>p\<leftarrow>ops. line_count (read_size p)) mod 2 ^ 64 \<and>
    mc_DecompressionLatencyCycles s = mc_CacheLinesDecompressed s \<and>
    unat (mc_CacheLinesCompressed s) = (\<Sum>p\<leftarrow>ops. line_count (write_size p)) mod 2 ^ 64 \<and>
    mc_TargetCompressionRatio s = fold (ratio_step ar) ops (ha_clamp ar r) \<and>
    MemoryCompressorGetBandwidth ar (Some s) = (bw, ha_times ar bw
      (if mc_TotalCompressedBytesRead s + mc_TotalCompressedBytesWritten s = 0
       then fold (ratio_step ar) ops (ha_clamp ar r)
       else ha_quotient ar (mc_TotalRawBytesRead s + mc_TotalRawBytesWritten s)
         (mc_TotalCompressedBytesRead s + mc_TotalCompressedBytesWritten s)))"
proof -
  have "\<exists>s. hmc_run ar ops g = Some s \<and> hmc_accounts ar (ha_clamp ar r) bw ops s"
  proof (induction ops rule: rev_induct)
    case Nil
    then show ?case
      using assms by (auto simp: hmc_run_def MemoryCompressorInit_def hmc_accounts_def)
  next
    case (snoc p ops)
    then obtain s where "hmc_run ar ops g = Some s" "hmc_accounts ar (ha_clamp ar r) bw ops s" by blast
    then show ?case using hmc_step_accounts [of ar "ha_clamp ar r" bw ops s p] by (simp add: hmc_run_def)
  qed
  then obtain s where s: "hmc_run ar ops g = Some s" "hmc_accounts ar (ha_clamp ar r) bw ops s" by blast
  have z: "(0 < x) = (x \<noteq> 0)" for x :: u64 by (simp add: word_gt_0)
  show ?thesis
    using s by (intro exI [of _ s])
      (simp add: hmc_accounts_def unsigned_of_nat take_bit_eq_mod MemoryCompressorGetBandwidth_def Let_def z)
qed

definition hmc_percent :: "nat hmc_arith" where
  "hmc_percent =
     \<lparr>ha_clamp = max 100, ha_times = (\<lambda>a b. a * b div 100), ha_compressed = (\<lambda>n r. of_nat (unat n * 100 div r)),
      ha_quotient = (\<lambda>a b. unat a * 100 div unat b), ha_1_0 = 100, ha_64_0 = 6400, ha_1_5 = 150, ha_1_8 = 180, ha_2_0 = 200,
      ha_2_2 = 220, V72_COMPRESSION_RATIO = 300, V72_EFFECTIVE_BW = 19200\<rparr>"

theorem hmc_accounting_witness:
  "\<exists>s. hmc_run hmc_percent [HmcRead 100, HmcPattern HmcPatternDlTraining, HmcRead 64]
       (snd (MemoryCompressorInit hmc_percent True 220 6400)) = Some s \<and>
     unat (mc_TotalRawBytesRead s) = 164 \<and> unat (mc_CacheLinesDecompressed s) = 3"
  using hmc_accounting [where ar = hmc_percent and r = 220 and bw = 6400,
      OF prod.collapse [symmetric], of "[HmcRead 100, HmcPattern HmcPatternDlTraining, HmcRead 64]"]
  by (auto simp: line_count_def)

text \<open>The v7.2 ratio is lost by the next change of pattern, and 192 GB/s is reported as the peak
  whatever the physical bandwidth.\<close>

lemma hmc_v72_then_pattern:
  "map_option mc_TargetCompressionRatio (hmc_run ar (ops @ [HmcV72, HmcPattern p]) (Some s)) =
     map_option (\<lambda>s. if mc_Initialized s then pattern_ratio ar p else V72_COMPRESSION_RATIO ar)
       (hmc_run ar ops (Some s))"
  by (cases "hmc_run ar ops (Some s)")
    (simp_all add: hmc_run_def MemoryCompressorSetWorkloadPattern_def MemoryCompressorV72Init_def Let_def)

section \<open>The statistics\<close>

record 'f hmc_report =
  hr_LinesCompressed :: u64
  hr_LinesDecompressed :: u64
  hr_RawRead :: u64
  hr_RawWrite :: u64
  hr_ReadRatio :: 'f
  hr_WriteRatio :: 'f
  hr_OverallRatio :: 'f
  hr_EffectiveBw :: 'f
  hr_PhysicalBw :: 'f

text \<open>The figures printed, or \<open>None\<close> when nothing is.\<close>

definition hmc_ratio :: "'f hmc_arith \<Rightarrow> u64 \<Rightarrow> u64 \<Rightarrow> 'f" where
  "hmc_ratio ar raw compressed = (if compressed > 0 then ha_quotient ar raw compressed else ha_1_0 ar)"

definition MemoryCompressorPrintStats ::
  "'f hmc_arith \<Rightarrow> 'f memory_compressor option \<Rightarrow> 'f hmc_report option" where
  "MemoryCompressorPrintStats ar g =
     (case g of
        None \<Rightarrow> None
      | Some s \<Rightarrow>
          if \<not> mc_Initialized s then None
          else
            (let writeRatio = hmc_ratio ar (mc_TotalRawBytesWritten s) (mc_TotalCompressedBytesWritten s);
                 readRatio = hmc_ratio ar (mc_TotalRawBytesRead s) (mc_TotalCompressedBytesRead s);
                 overallRatio = hmc_ratio ar (mc_TotalRawBytesRead s + mc_TotalRawBytesWritten s)
                   (mc_TotalCompressedBytesRead s + mc_TotalCompressedBytesWritten s)
             in Some \<lparr>hr_LinesCompressed = mc_CacheLinesCompressed s,
                      hr_LinesDecompressed = mc_CacheLinesDecompressed s,
                      hr_RawRead = mc_TotalRawBytesRead s, hr_RawWrite = mc_TotalRawBytesWritten s,
                      hr_ReadRatio = readRatio, hr_WriteRatio = writeRatio, hr_OverallRatio = overallRatio,
                      hr_EffectiveBw = ha_times ar (mc_PeakPhysicalBwGbs s) overallRatio,
                      hr_PhysicalBw = mc_PeakPhysicalBwGbs s\<rparr>))"

definition MemoryCompressorV72GetEffectiveBW :: "'f hmc_arith \<Rightarrow> 'f" where
  "MemoryCompressorV72GetEffectiveBW ar = V72_EFFECTIVE_BW ar"

text \<open>The effective bandwidth printed is the one \<open>MemoryCompressorGetBandwidth\<close> reports once something
  has been compressed; before that the one is the physical bandwidth times 1.0, the other the
  physical bandwidth times the target ratio.\<close>

theorem hmc_print_effective:
  assumes "mc_Initialized s" "MemoryCompressorPrintStats ar (Some s) = Some r"
    and "zs = mc_TotalCompressedBytesRead s + mc_TotalCompressedBytesWritten s"
  shows "hr_EffectiveBw r =
    (if zs > 0 then snd (MemoryCompressorGetBandwidth ar (Some s))
     else ha_times ar (mc_PeakPhysicalBwGbs s) (ha_1_0 ar))"
    and "zs = 0 \<Longrightarrow> snd (MemoryCompressorGetBandwidth ar (Some s)) =
      ha_times ar (mc_PeakPhysicalBwGbs s) (mc_TargetCompressionRatio s)"
  using assms
  by (auto simp: MemoryCompressorPrintStats_def MemoryCompressorGetBandwidth_def hmc_ratio_def Let_def)

end
