(* ===== verification/BiosCore.thy ===== *)
theory BiosCore
  imports PostRoutines CpuidSpoof AcpiTables SmbiosTables HypervisorBackend SmmHandler TraceCache
    MemoryCompressor
begin

text \<open>
  The driver that puts the components together (bemibiospkg/bemibioscore/dxe/bemibioscore.c):
  the boot mode with its variable, the start of the hypervisor with its trace cache, the test
  guest, and the entry point. The globals of the file and of the components it initialises are
  the record \<open>bios_state\<close>; the firmware services are the record \<open>bios_env\<close>. Both vmxcore.c and
  hypervisorbackend.c define \<open>HypervisorBackendInit\<close>, so the hypervisor is a record of
  operations: \<open>vmx_ops\<close> are those of the one, \<open>backend_ops\<close> those of the other. The result is an
  \<open>outcome\<close>: \<open>Corrupts\<close> when the trace cache does not fit its region or the hypervisor's calls
  corrupt memory, \<open>Hangs\<close> when the CPUID enumeration or the test guest does not end.
\<close>

section \<open>State and services\<close>

datatype bemi_boot_mode = BemiBootModeNative | BemiBootModeLegacy | BemiBootModeMax

fun boot_mode_code :: "bemi_boot_mode \<Rightarrow> u8" where
  "boot_mode_code BemiBootModeNative = 0"
| "boot_mode_code BemiBootModeLegacy = 1"
| "boot_mode_code BemiBootModeMax = 2"

record 'b hv_ops =
  hv_Init :: "u64 \<Rightarrow> 'b \<Rightarrow> efi_status \<times> 'b"
  hv_VcpuCreate :: "u64 \<Rightarrow> u64 \<Rightarrow> u64 \<Rightarrow> 'b \<Rightarrow> (efi_status \<times> 'b) outcome"
  hv_VcpuRun :: "u64 \<Rightarrow> 'b \<Rightarrow> (efi_status \<times> 'b) outcome"

definition vmx_ops :: "'h vmx_hw \<Rightarrow> (vmx_state \<times> 'h) hv_ops" where
  "vmx_ops hw =
     \<lparr>hv_Init = (\<lambda>n (s, h). HypervisorBackendInit_vmx hw n s h),
      hv_VcpuCreate = (\<lambda>i e sp (s, h). Done (VmxVcpuCreate hw i e sp s h)),
      hv_VcpuRun = (\<lambda>i (s, h). case VmxVcpuRun hw i s h of
         Done (st, h) \<Rightarrow> Done (st, (s, h)) | Corrupts \<Rightarrow> Corrupts | Hangs \<Rightarrow> Hangs)\<rparr>"

definition backend_ops ::
  "'h vmx_hw \<Rightarrow> 'h vmx_externs \<Rightarrow> (u64 \<Rightarrow> svm_state \<times> 'h \<Rightarrow> svm_state \<times> 'h) \<Rightarrow> 'h backend_state hv_ops" where
  "backend_ops hw ext vmrun =
     \<lparr>hv_Init = backend_HypervisorBackendInit hw ext, hv_VcpuCreate = backend_VcpuCreate hw ext,
      hv_VcpuRun = backend_VcpuRun hw ext vmrun\<rparr>"

text \<open>\<open>bs_Variables\<close> is the store of firmware variables, \<open>bs_Live\<close> the addresses this file has
  allocated and not freed, \<open>bs_GuestCode\<close> the first bytes of the last test guest.\<close>

record ('b, 'n, 'f) bios_state =
  bs_BootMode :: u8
  bs_CpuCount :: u64
  bs_BemiThreadCount :: u64
  bs_Variables :: 'n
  bs_Cpuid :: "cpuid_state option"
  bs_Hypervisor :: 'b
  bs_Smm :: smm_state
  bs_TraceCache :: "tc_state option"
  bs_MemComp :: "'f memory_compressor option"
  bs_AcpiCalls :: "acpi_call list"
  bs_SmbiosAdded :: "(smbios_structure \<times> efi_status) list"
  bs_Live :: "u64 list"
  bs_GuestCode :: "u8 list"

record ('b, 'n, 'f) bios_env =
  en_cpuid :: "u32 \<Rightarrow> cpuid_regs"
  en_cpuidex :: "u32 \<Rightarrow> u32 \<Rightarrow> cpuid_regs"
  en_GetVariable :: "'n \<Rightarrow> efi_status \<times> u8"
  en_SetVariable :: "u8 \<Rightarrow> 'n \<Rightarrow> 'n"
  en_PcdBemiBootMode :: u8
  en_PcdBemiTraceCacheSize :: u32
  en_AllocatePool :: "u64 \<Rightarrow> efi_status \<times> u64"
  en_AllocatePages :: "nat \<Rightarrow> efi_status \<times> u64"
  en_InstallProtocolInterface :: efi_status
  en_acpi_abi :: acpi_abi
  en_acpi :: acpi_services
  en_smbios_abi :: smbios_abi
  en_smbios :: smbios_services
  en_hmc :: "'f hmc_arith"
  en_hmc_allocates :: bool
  en_hv :: "'b hv_ops"

text \<open>The globals as the file initialises them.\<close>

definition power_on :: "'b \<Rightarrow> 'n \<Rightarrow> ('b, 'n, 'f) bios_state" where
  "power_on hv vars =
     \<lparr>bs_BootMode = 0, bs_CpuCount = 0, bs_BemiThreadCount = 144, bs_Variables = vars, bs_Cpuid = None,
      bs_Hypervisor = hv, bs_Smm = smm_start, bs_TraceCache = None, bs_MemComp = None,
      bs_AcpiCalls = [], bs_SmbiosAdded = [], bs_Live = [], bs_GuestCode = []\<rparr>"

section \<open>The boot mode\<close>

text \<open>The pointer argument is \<open>False\<close> when it is NULL.\<close>

definition BemiGetBootMode :: "bool \<Rightarrow> ('b, 'n, 'f) bios_state \<Rightarrow> efi_status \<times> u8 option" where
  "BemiGetBootMode BootMode s =
     (if \<not> BootMode then (EFI_INVALID_PARAMETER, None) else (EFI_SUCCESS, Some (bs_BootMode s)))"

definition BemiSetBootMode ::
  "('b, 'n, 'f) bios_env \<Rightarrow> u8 \<Rightarrow> ('b, 'n, 'f) bios_state \<Rightarrow> efi_status \<times> ('b, 'n, 'f) bios_state" where
  "BemiSetBootMode env BootMode s =
     (if BootMode \<ge> boot_mode_code BemiBootModeMax then (EFI_INVALID_PARAMETER, s)
      else (EFI_SUCCESS, s\<lparr>bs_BootMode := BootMode,
              bs_Variables := en_SetVariable env BootMode (bs_Variables s)\<rparr>))"

section \<open>Starting the hypervisor\<close>

definition zero_tc_entry :: tc_entry where
  "zero_tc_entry =
     \<lparr>te_Rip = 0, te_Context = 0, te_TranslatedAddr = 0, te_MicroOpCount = 0, te_InstructionCount = 0,
      te_ExecutionCount = 0, te_PinCount = 0, te_DboOptimizationHint = 0, te_LruCounter = 0,
      te_Valid = False, te_Next = 0\<rparr>"

text \<open>The part after the hypervisor's start: the trace cache buffer and what lives in it.
  \<open>TraceCacheInit\<close> replaces a size below 4096 by 4 MB and clears the bucket pointers at the end
  of that region, outside the pool buffer, which has the size asked for. The
  statuses of the calls after \<open>SmmHandlerInit\<close> are not looked at, and the hit rate is not asked for.\<close>

definition bemi_init_caches ::
  "('b, 'n, 'f) bios_env \<Rightarrow> ('b, 'n, 'f) bios_state \<Rightarrow> (efi_status \<times> ('b, 'n, 'f) bios_state) outcome" where
  "bemi_init_caches env s =
     (let traceCacheSize = ucast (en_PcdBemiTraceCacheSize env) :: u64;
          (status, traceCacheBuffer) = en_AllocatePool env traceCacheSize
      in if EFI_ERROR status then Done (status, s)
         else
           (let s = s\<lparr>bs_Live := traceCacheBuffer # bs_Live s\<rparr>;
                (status, smm) = SmmHandlerInit traceCacheBuffer traceCacheSize (bs_Smm s);
                s = s\<lparr>bs_Smm := smm\<rparr>
            in if EFI_ERROR status then Done (status, s\<lparr>bs_Live := remove1 traceCacheBuffer (bs_Live s)\<rparr>)
               else
                 (case if region_size traceCacheSize > unat traceCacheSize then Corrupts
                       else TraceCacheInit traceCacheBuffer traceCacheSize (\<lambda>_. zero_tc_entry) of
                    Corrupts \<Rightarrow> Corrupts
                  | Hangs \<Rightarrow> Hangs
                  | Done (_, tc) \<Rightarrow>
                      (let (_, hitRate) = TraceCacheConfigureNPP tc True;
                           (_, hmc) = MemoryCompressorInit (en_hmc env) (en_hmc_allocates env)
                             (ha_2_2 (en_hmc env)) (ha_64_0 (en_hmc env));
                           (_, hmc) = MemoryCompressorSetWorkloadPattern (en_hmc env) HmcPatternDlTraining hmc
                       in Done (EFI_SUCCESS, s\<lparr>bs_TraceCache := tc, bs_MemComp := hmc\<rparr>)))))"

definition BemiInitHypervisor ::
  "('b, 'n, 'f) bios_env \<Rightarrow> u64 \<Rightarrow> ('b, 'n, 'f) bios_state \<Rightarrow> (efi_status \<times> ('b, 'n, 'f) bios_state) outcome" where
  "BemiInitHypervisor env CpuCount s =
     (let (status, hv) = hv_Init (en_hv env) CpuCount (bs_Hypervisor s);
          s = s\<lparr>bs_Hypervisor := hv\<rparr>
      in if EFI_ERROR status then Done (status, s) else bemi_init_caches env s)"

definition BemiHandleCpuid ::
  "('b, 'n, 'f) bios_env \<Rightarrow> cpuid_state \<Rightarrow> u32 \<Rightarrow> u32 \<Rightarrow> bool \<Rightarrow> efi_status \<times> cpuid_regs option" where
  "BemiHandleCpuid env cs Leaf Subleaf pointers =
     (if \<not> pointers then (EFI_INVALID_PARAMETER, None)
      else (EFI_SUCCESS, Some (CpuidSpoofHandler (en_cpuidex env) cs Leaf Subleaf)))"

section \<open>The test guest\<close>

text \<open>\<open>en_AllocatePages env k\<close> answers the \<open>k\<close>-th of the two allocations.\<close>

definition VmxTestGuestLaunch ::
  "('b, 'n, 'f) bios_env \<Rightarrow> ('b, 'n, 'f) bios_state \<Rightarrow> ('b, 'n, 'f) bios_state outcome" where
  "VmxTestGuestLaunch env s =
     (let (status, guestCode) = en_AllocatePages env 0 in
      if EFI_ERROR status then Done s
      else
        (let s = s\<lparr>bs_Live := guestCode # bs_Live s\<rparr>;
             (status, guestStack) = en_AllocatePages env 1
         in if EFI_ERROR status then Done (s\<lparr>bs_Live := remove1 guestCode (bs_Live s)\<rparr>)
            else
              (let s = s\<lparr>bs_Live := guestStack # bs_Live s, bs_GuestCode := [0xFA, 0xF4]\<rparr> in
               case hv_VcpuCreate (en_hv env) 0 guestCode (guestStack + 4096) (bs_Hypervisor s) of
                 Corrupts \<Rightarrow> Corrupts
               | Hangs \<Rightarrow> Hangs
               | Done (status, hv) \<Rightarrow>
                   (let s = s\<lparr>bs_Hypervisor := hv\<rparr> in
                    if EFI_ERROR status
                    then Done (s\<lparr>bs_Live := remove1 guestStack (remove1 guestCode (bs_Live s))\<rparr>)
                    else
                      (case hv_VcpuRun (en_hv env) 0 (bs_Hypervisor s) of
                         Corrupts \<Rightarrow> Corrupts
                       | Hangs \<Rightarrow> Hangs
                       | Done (status, hv) \<Rightarrow>
                           (let s = s\<lparr>bs_Hypervisor := hv\<rparr> in
                            Done (s\<lparr>bs_Live := remove1 guestStack (remove1 guestCode (bs_Live s))\<rparr>)))))))"

section \<open>The entry point\<close>

definition bemi_detect :: "('b, 'n, 'f) bios_env \<Rightarrow> ('b, 'n, 'f) bios_state \<Rightarrow> ('b, 'n, 'f) bios_state" where
  "bemi_detect env s =
     (let (status, cpus, cacheSizes) = PostDetectTopology (en_cpuid env) (en_cpuidex env);
          cpus = (if EFI_ERROR status then 1 else cpus);
          (status, threads) = PostCalculateThreadCount cpus cacheSizes;
          threads = (if EFI_ERROR status then 144 else threads)
      in s\<lparr>bs_CpuCount := cpus, bs_BemiThreadCount := threads\<rparr>)"

definition bemi_read_mode :: "('b, 'n, 'f) bios_env \<Rightarrow> ('b, 'n, 'f) bios_state \<Rightarrow> ('b, 'n, 'f) bios_state" where
  "bemi_read_mode env s =
     (let (status, mode) = en_GetVariable env (bs_Variables s) in
      if EFI_ERROR status
      then s\<lparr>bs_BootMode := en_PcdBemiBootMode env,
             bs_Variables := en_SetVariable env (en_PcdBemiBootMode env) (bs_Variables s)\<rparr>
      else s\<lparr>bs_BootMode := mode\<rparr>)"

definition bemi_tables :: "('b, 'n, 'f) bios_env \<Rightarrow> ('b, 'n, 'f) bios_state \<Rightarrow> ('b, 'n, 'f) bios_state" where
  "bemi_tables env s =
     (let s = s\<lparr>bs_AcpiCalls := snd (AcpiInitTables (en_acpi_abi env) (en_acpi env) (ucast (bs_CpuCount s)))\<rparr>
      in s\<lparr>bs_SmbiosAdded := snd (SmbiosInitTables (en_smbios_abi env) (en_smbios env) (ucast (bs_CpuCount s)))\<rparr>)"

definition bemi_start_mode ::
  "('b, 'n, 'f) bios_env \<Rightarrow> ('b, 'n, 'f) bios_state \<Rightarrow> ('b, 'n, 'f) bios_state outcome" where
  "bemi_start_mode env s =
     (if bs_BootMode s = boot_mode_code BemiBootModeLegacy
      then (case BemiInitHypervisor env (bs_CpuCount s) s of
              Corrupts \<Rightarrow> Corrupts
            | Hangs \<Rightarrow> Hangs
            | Done (status, s) \<Rightarrow> if EFI_ERROR status then Done s else VmxTestGuestLaunch env s)
      else Done s)"

definition BemiBiosEntryPoint ::
  "('b, 'n, 'f) bios_env \<Rightarrow> ('b, 'n, 'f) bios_state \<Rightarrow> (efi_status \<times> ('b, 'n, 'f) bios_state) outcome" where
  "BemiBiosEntryPoint env s =
     (let s = bemi_detect env s; s = bemi_read_mode env s in
      case CpuidSpoofInit (en_cpuid env) (en_cpuidex env) of
        None \<Rightarrow> Hangs
      | Some cs \<Rightarrow>
          (let s = s\<lparr>bs_Cpuid := Some cs\<rparr>; s = bemi_tables env s in
           case bemi_start_mode env s of
             Corrupts \<Rightarrow> Corrupts
           | Hangs \<Rightarrow> Hangs
           | Done s \<Rightarrow>
               (let status = en_InstallProtocolInterface env
                in if EFI_ERROR status then Done (status, s) else Done (EFI_SUCCESS, s))))"

section \<open>What each part leaves alone\<close>

definition bios_frame :: "('b, 'n, 'f) bios_state \<Rightarrow> ('b, 'n, 'f) bios_state \<Rightarrow> bool" where
  "bios_frame s s' \<longleftrightarrow>
     bs_BootMode s' = bs_BootMode s \<and> bs_CpuCount s' = bs_CpuCount s \<and>
     bs_BemiThreadCount s' = bs_BemiThreadCount s \<and> bs_Variables s' = bs_Variables s \<and>
     bs_Cpuid s' = bs_Cpuid s \<and> bs_AcpiCalls s' = bs_AcpiCalls s \<and> bs_SmbiosAdded s' = bs_SmbiosAdded s"

lemma bios_frame_refl [simp]: "bios_frame s s"
  by (simp add: bios_frame_def)

lemma bios_frame_trans: "bios_frame s t \<Longrightarrow> bios_frame t u \<Longrightarrow> bios_frame s u"
  by (simp add: bios_frame_def)

lemma init_caches_frame: "bemi_init_caches env s = Done (st, s') \<Longrightarrow> bios_frame s s'"
  by (auto simp: bemi_init_caches_def bios_frame_def Let_def split_def split: if_splits outcome.splits)

lemma init_hypervisor_frame: "BemiInitHypervisor env n s = Done (st, s') \<Longrightarrow> bios_frame s s'"
  by (auto simp: BemiInitHypervisor_def bios_frame_def Let_def split_def split: if_splits
      dest!: init_caches_frame)

lemma test_guest_frame: "VmxTestGuestLaunch env s = Done s' \<Longrightarrow> bios_frame s s'"
  by (auto simp: VmxTestGuestLaunch_def bios_frame_def Let_def split_def split: if_splits outcome.splits)

lemma test_guest_frees: "VmxTestGuestLaunch env s = Done s' \<Longrightarrow> bs_Live s' = bs_Live s"
  by (auto simp: VmxTestGuestLaunch_def Let_def split_def split: if_splits outcome.splits)

text \<open>From the states in \<open>I\<close> the hypervisor's calls come back, to states in \<open>I\<close>.\<close>

definition hv_returns :: "('b \<Rightarrow> bool) \<Rightarrow> 'b hv_ops \<Rightarrow> bool" where
  "hv_returns I ops \<longleftrightarrow>
     (\<forall>n b. I b \<longrightarrow> I (snd (hv_Init ops n b))) \<and>
     (\<forall>i e sp b. I b \<longrightarrow> (\<exists>st b'. hv_VcpuCreate ops i e sp b = Done (st, b') \<and> I b')) \<and>
     (\<forall>i b. I b \<longrightarrow> (\<exists>st b'. hv_VcpuRun ops i b = Done (st, b') \<and> I b'))"

lemma test_guest_returns:
  assumes "hv_returns I (en_hv env)" "I (bs_Hypervisor s)"
  obtains s' where "VmxTestGuestLaunch env s = Done s'"
proof -
  let ?create = "\<lambda>e sp. hv_VcpuCreate (en_hv env) 0 e sp (bs_Hypervisor s)"
  have create: "\<exists>st b'. ?create e sp = Done (st, b') \<and> I b'" for e sp
    using assms by (simp add: hv_returns_def)
  have run: "\<exists>st b'. hv_VcpuRun (en_hv env) 0 b = Done (st, b')" if "I b" for b
  proof -
    have "\<forall>i b. I b \<longrightarrow> (\<exists>st b'. hv_VcpuRun (en_hv env) i b = Done (st, b') \<and> I b')"
      using assms(1) by (simp add: hv_returns_def)
    with that show ?thesis by blast
  qed
  have "?create e sp \<noteq> Corrupts" "?create e sp \<noteq> Hangs" for e sp
    using create [of e sp] by auto
  moreover have "hv_VcpuRun (en_hv env) 0 b \<noteq> Corrupts" "hv_VcpuRun (en_hv env) 0 b \<noteq> Hangs"
    if "?create e sp = Done (st, b)" for e sp st b
    using create [of e sp] run [of b] that by auto
  ultimately have "\<exists>s'. VmxTestGuestLaunch env s = Done s'"
    by (auto simp: VmxTestGuestLaunch_def Let_def split_def split: outcome.split)
  then show ?thesis using that by blast
qed

lemma start_mode_frame: "bemi_start_mode env s = Done s' \<Longrightarrow> bios_frame s s'"
  by (auto simp: bemi_start_mode_def split: if_splits outcome.splits
      intro: init_hypervisor_frame bios_frame_trans [OF init_hypervisor_frame test_guest_frame])

lemma trace_init_never_hangs: "TraceCacheInit b n mem \<noteq> Hangs"
  by (simp add: TraceCacheInit_def Let_def)

lemma init_hypervisor_never_hangs: "BemiInitHypervisor env n s \<noteq> Hangs"
  using trace_init_never_hangs
  by (auto simp: BemiInitHypervisor_def bemi_init_caches_def Let_def split_def
      split: outcome.splits if_splits)

lemma init_hypervisor_state:
  assumes "BemiInitHypervisor env n s = Done (st, s')"
  shows "bs_Hypervisor s' = snd (hv_Init (en_hv env) n (bs_Hypervisor s))"
  using assms
  by (auto simp: BemiInitHypervisor_def bemi_init_caches_def Let_def split_def split: if_splits outcome.splits)

lemma start_mode_returns:
  assumes "hv_returns I (en_hv env)" "I (bs_Hypervisor s)"
  shows "bemi_start_mode env s \<noteq> Hangs"
    "bemi_start_mode env s = Corrupts \<longleftrightarrow> bs_BootMode s = 1 \<and> BemiInitHypervisor env (bs_CpuCount s) s = Corrupts"
proof -
  have "VmxTestGuestLaunch env x \<noteq> Hangs" "VmxTestGuestLaunch env x \<noteq> Corrupts"
    if "BemiInitHypervisor env (bs_CpuCount s) s = Done (st, x)" for st x
  proof -
    have "I (bs_Hypervisor x)"
      using assms init_hypervisor_state [OF that] by (simp add: hv_returns_def)
    then obtain y where "VmxTestGuestLaunch env x = Done y" by (rule test_guest_returns [OF assms(1)])
    then show "VmxTestGuestLaunch env x \<noteq> Hangs" "VmxTestGuestLaunch env x \<noteq> Corrupts" by simp_all
  qed
  then show "bemi_start_mode env s \<noteq> Hangs"
    "bemi_start_mode env s = Corrupts \<longleftrightarrow> bs_BootMode s = 1 \<and> BemiInitHypervisor env (bs_CpuCount s) s = Corrupts"
    using init_hypervisor_never_hangs [of env "bs_CpuCount s" s]
    by (auto simp: bemi_start_mode_def split: outcome.splits)
qed

section \<open>The entry point finishes\<close>

text \<open>Where the trace cache does not fit: there is no buffer, it does not hold the header and the
  bucket array (a size below 4096 included), or it wraps around the address space.\<close>

definition trace_region_bad :: "u64 \<Rightarrow> u64 \<Rightarrow> bool" where
  "trace_region_bad b n \<longleftrightarrow> b = 0 \<or> unat n < 56 + 8 * 65536 \<or> 2 ^ 64 \<le> unat b + unat n"

lemma trace_init_corrupts:
  "(if region_size n > unat n then Corrupts else TraceCacheInit b n mem) = Corrupts \<longleftrightarrow> trace_region_bad b n"
proof (cases "n < 4096")
  case True
  then have "unat n < 4096" by (simp add: word_less_nat_alt)
  then show ?thesis using True by (simp add: region_size_def trace_region_bad_def)
next
  case False
  then show ?thesis
    unfolding TraceCacheInit_def Let_def
    by (simp add: region_size_def trace_region_bad_def sizeof_header_def sizeof_buckets_def
        TRACE_CACHE_HASH_BUCKETS_def)
qed

definition boot_corrupts :: "('b, 'n, 'f) bios_env \<Rightarrow> ('b, 'n, 'f) bios_state \<Rightarrow> bool" where
  "boot_corrupts env s \<longleftrightarrow>
     bs_BootMode (bemi_read_mode env s) = 1 \<and>
     \<not> EFI_ERROR (fst (hv_Init (en_hv env) (fst (snd (PostDetectTopology (en_cpuid env) (en_cpuidex env))))
         (bs_Hypervisor s))) \<and>
     \<not> EFI_ERROR (fst (en_AllocatePool env (ucast (en_PcdBemiTraceCacheSize env)))) \<and>
     trace_region_bad (snd (en_AllocatePool env (ucast (en_PcdBemiTraceCacheSize env))))
       (ucast (en_PcdBemiTraceCacheSize env))"

lemma init_caches_corrupts:
  "bemi_init_caches env s = Corrupts \<longleftrightarrow>
     \<not> EFI_ERROR (fst (en_AllocatePool env (ucast (en_PcdBemiTraceCacheSize env)))) \<and>
     trace_region_bad (snd (en_AllocatePool env (ucast (en_PcdBemiTraceCacheSize env))))
       (ucast (en_PcdBemiTraceCacheSize env))"
proof -
  let ?p = "en_AllocatePool env (ucast (en_PcdBemiTraceCacheSize env))"
  have "\<not> EFI_ERROR (fst (SmmHandlerInit b n smm))" for b n smm
    by (simp add: SmmHandlerInit_def Let_def)
  then have "bemi_init_caches env s = Corrupts \<longleftrightarrow>
      \<not> EFI_ERROR (fst ?p) \<and>
      (if region_size (ucast (en_PcdBemiTraceCacheSize env)) > unat (ucast (en_PcdBemiTraceCacheSize env) :: u64)
       then Corrupts
       else TraceCacheInit (snd ?p) (ucast (en_PcdBemiTraceCacheSize env)) (\<lambda>_. zero_tc_entry)) = Corrupts"
    unfolding bemi_init_caches_def Let_def split_def
    using trace_init_never_hangs by (simp split: outcome.split)
  then show ?thesis by (simp only: trace_init_corrupts)
qed

lemma init_hypervisor_corrupts:
  "BemiInitHypervisor env n s = Corrupts \<longleftrightarrow>
     \<not> EFI_ERROR (fst (hv_Init (en_hv env) n (bs_Hypervisor s))) \<and>
     \<not> EFI_ERROR (fst (en_AllocatePool env (ucast (en_PcdBemiTraceCacheSize env)))) \<and>
     trace_region_bad (snd (en_AllocatePool env (ucast (en_PcdBemiTraceCacheSize env))))
       (ucast (en_PcdBemiTraceCacheSize env))"
  by (simp add: BemiInitHypervisor_def Let_def split_def init_caches_corrupts)

lemma before_start:
  "bs_BootMode (bemi_tables env (s'\<lparr>bs_Cpuid := c\<rparr>)) = bs_BootMode s'"
  "bs_CpuCount (bemi_tables env (s'\<lparr>bs_Cpuid := c\<rparr>)) = bs_CpuCount s'"
  "bs_Hypervisor (bemi_tables env (s'\<lparr>bs_Cpuid := c\<rparr>)) = bs_Hypervisor s'"
  "bs_BemiThreadCount (bemi_tables env (s'\<lparr>bs_Cpuid := c\<rparr>)) = bs_BemiThreadCount s'"
  "bs_Variables (bemi_tables env (s'\<lparr>bs_Cpuid := c\<rparr>)) = bs_Variables s'"
  "bs_Cpuid (bemi_tables env (s'\<lparr>bs_Cpuid := c\<rparr>)) = c"
  by (simp_all add: bemi_tables_def Let_def)

lemma post_succeeds:
  "fst (PostDetectTopology cp cpx) = EFI_SUCCESS" "fst (PostCalculateThreadCount n c) = EFI_SUCCESS"
  unfolding PostDetectTopology_def PostCalculateThreadCount_def Let_def split_def by simp_all

lemma after_detect:
  "bs_CpuCount (bemi_read_mode env (bemi_detect env s)) =
     fst (snd (PostDetectTopology (en_cpuid env) (en_cpuidex env)))"
  "bs_Hypervisor (bemi_read_mode env (bemi_detect env s)) = bs_Hypervisor s"
  "bs_BootMode (bemi_read_mode env (bemi_detect env s)) = bs_BootMode (bemi_read_mode env s)"
  "bs_Variables (bemi_read_mode env (bemi_detect env s)) = bs_Variables (bemi_read_mode env s)"
  "bs_BemiThreadCount (bemi_read_mode env (bemi_detect env s)) =
     snd (PostCalculateThreadCount (fst (snd (PostDetectTopology (en_cpuid env) (en_cpuidex env))))
       (snd (snd (PostDetectTopology (en_cpuid env) (en_cpuidex env)))))"
  by (simp_all add: bemi_read_mode_def bemi_detect_def post_succeeds Let_def split_def)

lemma entry_some:
  assumes "CpuidSpoofInit (en_cpuid env) (en_cpuidex env) = Some cs" "hv_returns I (en_hv env)" "I (bs_Hypervisor s)"
  shows "\<exists>s'. BemiBiosEntryPoint env s =
     (if boot_corrupts env s then Corrupts
      else Done (if EFI_ERROR (en_InstallProtocolInterface env) then en_InstallProtocolInterface env
                 else EFI_SUCCESS, s'))"
proof -
  let ?t = "bemi_tables env ((bemi_read_mode env (bemi_detect env s))\<lparr>bs_Cpuid := Some cs\<rparr>)"
  have I: "I (bs_Hypervisor ?t)" using assms(3) by (simp add: before_start after_detect)
  have "bemi_start_mode env ?t = Corrupts \<longleftrightarrow> boot_corrupts env s"
    by (simp add: start_mode_returns(2) [OF assms(2) I] init_hypervisor_corrupts boot_corrupts_def
        before_start after_detect)
  then show ?thesis
    using assms(1) start_mode_returns(1) [OF assms(2) I]
    by (cases "bemi_start_mode env ?t") (auto simp: BemiBiosEntryPoint_def Let_def)
qed

text \<open>C2: the entry point reaches its end whatever the hypervisor, the ACPI and the SMBIOS services, the
  variable store and the allocators answer, as long as the hypervisor's calls come back from the states it can be in; its status is then that of the protocol installation
  alone. It hangs exactly when a CPUID enumeration covers the whole 32-bit range, and otherwise
  corrupts memory exactly when, in legacy mode, the hypervisor starts and the pool allocation
  succeeds with a buffer that is NULL, wraps around, or does not hold the cache's header and
  bucket array: a configured size below 524344 bytes, the sizes below 4096 included, which
  \<open>TraceCacheInit\<close> takes for 4 MB.\<close>

theorem bios_entry_finishes:
  assumes "hv_returns I (en_hv env)" "I (bs_Hypervisor s)"
  shows "\<exists>s'. BemiBiosEntryPoint env s =
     (if cr_Eax (en_cpuid env 0x80000000) = 0xFFFFFFFF \<or> cr_Eax (en_cpuid env 0) = 0xFFFFFFFF then Hangs
      else if boot_corrupts env s then Corrupts
      else Done (if EFI_ERROR (en_InstallProtocolInterface env) then en_InstallProtocolInterface env
                 else EFI_SUCCESS, s'))"
proof -
  let ?hang = "cr_Eax (en_cpuid env 0x80000000) = 0xFFFFFFFF \<or> cr_Eax (en_cpuid env 0) = 0xFFFFFFFF"
  have "(0xFFFFFFFF :: u32) = - 1" by simp
  then have none: "CpuidSpoofInit (en_cpuid env) (en_cpuidex env) = None \<longleftrightarrow> ?hang"
    unfolding init_cases by (simp only: if_split option.distinct) simp
  show ?thesis
  proof (cases "CpuidSpoofInit (en_cpuid env) (en_cpuidex env)")
    case None
    with none show ?thesis by (simp add: BemiBiosEntryPoint_def Let_def)
  next
    case (Some cs)
    with entry_some [OF Some assms] none show ?thesis by simp
  qed
qed

section \<open>A sample machine\<close>

text \<open>A variable store of one byte, a 4 MB trace cache buffer at 16 MB, and the processor of a
  hypervisor; \<open>sample_env\<close> is one with VT-x.\<close>

definition machine_env :: "'b hv_ops \<Rightarrow> ('b, u8 option, nat) bios_env" where
  "machine_env hv =
     \<lparr>en_cpuid = (\<lambda>_. zero_regs), en_cpuidex = (\<lambda>_ _. zero_regs),
      en_GetVariable = (\<lambda>n. case n of None \<Rightarrow> (EFI_NOT_FOUND, 0) | Some v \<Rightarrow> (EFI_SUCCESS, v)),
      en_SetVariable = (\<lambda>v _. Some v), en_PcdBemiBootMode = 1, en_PcdBemiTraceCacheSize = 0x400000,
      en_AllocatePool = (\<lambda>_. (EFI_SUCCESS, 0x1000000)), en_AllocatePages = (\<lambda>k. (EFI_SUCCESS, 0x2000000)),
      en_InstallProtocolInterface = EFI_SUCCESS, en_acpi_abi = acpi6,
      en_acpi = \<lparr>as_allocates = True, as_LocateProtocol = EFI_NOT_FOUND,
        as_InstallAcpiTable = (\<lambda>_. EFI_SUCCESS), as_InstallConfigurationTable = (\<lambda>_. EFI_SUCCESS)\<rparr>,
      en_smbios_abi = \<lparr>sb_BIOS_INFORMATION = 0, sb_SYSTEM_INFORMATION = 1, sb_PROCESSOR_INFORMATION = 4,
        sb_sizeof_type0 = 26, sb_sizeof_type1 = 27, sb_sizeof_type4 = 50, sb_ProcessorUpgradeNone = 6\<rparr>,
      en_smbios = \<lparr>ss_LocateProtocol = EFI_NOT_FOUND, ss_Add = (\<lambda>_. EFI_SUCCESS)\<rparr>,
      en_hmc = hmc_percent, en_hmc_allocates = True, en_hv = hv\<rparr>"

definition sample_env :: "(vmx_state \<times> (u32 \<Rightarrow> u64), u8 option, nat) bios_env" where
  "sample_env = machine_env (vmx_ops sample_vmx_hw)"

definition sample_hv :: "vmx_state \<times> (u32 \<Rightarrow> u64)" where
  "sample_hv =
     (\<lparr>vx_Vcpu = (\<lambda>_. zero_vcpu), vx_CpuCount = 0, vx_Vendor = HypervisorUnknown, vx_HandleExit = NullFn,
       vx_PageTableHost = 0\<rparr>, \<lambda>_. 0)"

definition sample_state :: "u8 option \<Rightarrow> (vmx_state \<times> (u32 \<Rightarrow> u64), u8 option, nat) bios_state" where
  "sample_state v = power_on sample_hv v"

lemma sample_hv_starts: "fst (hv_Init (en_hv sample_env) n (bs_Hypervisor (sample_state v))) = EFI_SUCCESS"
  by (simp add: sample_env_def machine_env_def sample_state_def power_on_def sample_hv_def vmx_ops_def HypervisorBackendInit_vmx_def sample_vmx_hw_def Let_def)

lemma sample_pool: "en_AllocatePool sample_env n = (EFI_SUCCESS, 0x1000000)"
  "en_PcdBemiTraceCacheSize sample_env = 0x400000"
  by (simp_all add: sample_env_def machine_env_def)

lemma sample_region: "\<not> trace_region_bad 0x1000000 (ucast (0x400000 :: u32))"
  by (simp add: trace_region_bad_def)

lemma sample_region_size: "\<not> region_size (ucast (0x400000 :: u32)) > unat (ucast (0x400000 :: u32) :: u64)"
  by (simp add: region_size_def)

lemma sample_starts:
  "\<exists>s'. BemiInitHypervisor sample_env 4 (sample_state None) = Done (EFI_SUCCESS, s') \<and>
     \<not> EFI_ERROR (fst (hv_Init (en_hv sample_env) 4 (bs_Hypervisor (sample_state None))))"
proof -
  have e: "\<not> EFI_ERROR (fst (hv_Init (en_hv sample_env) 4 (bs_Hypervisor (sample_state None))))"
    by (simp add: sample_hv_starts)
  let ?s = "(sample_state None)\<lparr>bs_Hypervisor := snd (hv_Init (en_hv sample_env) 4 (bs_Hypervisor (sample_state None)))\<rparr>"
  have i: "BemiInitHypervisor sample_env 4 (sample_state None) = bemi_init_caches sample_env ?s"
    using e by (simp add: BemiInitHypervisor_def Let_def split_def)
  obtain st g where "TraceCacheInit 0x1000000 (ucast (0x400000 :: u32)) (\<lambda>_. zero_tc_entry) = Done (st, g)"
    using sample_region trace_init_corrupts sample_region_size trace_init_never_hangs
    by (metis outcome.exhaust surj_pair)
  then obtain s' where "bemi_init_caches sample_env ?s = Done (EFI_SUCCESS, s')"
    using sample_region_size by (simp add: bemi_init_caches_def sample_pool SmmHandlerInit_def Let_def split_def)
  with i e show ?thesis by simp
qed

lemma vmx_ops_return:
  assumes "\<And>h. hw_vmlaunch hw h \<noteq> None"
  shows "hv_returns (\<lambda>_. True) (vmx_ops hw)"
proof -
  have "\<exists>st h'. VmxVcpuRun hw i s h = Done (st, h')" for i s h
  proof -
    obtain ok h1 where "hw_vmptrld hw (vc_VmcsPhysAddr (vx_Vcpu s (unat i))) h = (ok, h1)" by fastforce
    moreover obtain h2 where "hw_vmlaunch hw h1 = Some h2" using assms [of h1] by auto
    ultimately show ?thesis by (auto simp: VmxVcpuRun_def Let_def)
  qed
  then have run: "\<exists>st h'. VmxVcpuRun hw i s h = Done (st, h')" for i s h .
  have "\<exists>st b'. hv_VcpuRun (vmx_ops hw) i b = Done (st, b')" for i b
  proof -
    obtain s h where b: "b = (s, h)" by fastforce
    obtain st h' where "VmxVcpuRun hw i s h = Done (st, h')" using run by blast
    then show ?thesis by (simp add: b vmx_ops_def)
  qed
  moreover have "\<exists>st b'. hv_VcpuCreate (vmx_ops hw) i e sp b = Done (st, b')" for i e sp b
    by (cases "VmxVcpuCreate hw i e sp (fst b) (snd b)") (simp add: vmx_ops_def split_def)
  ultimately show ?thesis by (simp add: hv_returns_def)
qed

lemma sample_returns: "hv_returns (\<lambda>_. True) (en_hv sample_env)"
proof -
  have "hw_vmlaunch sample_vmx_hw h \<noteq> None" for h by (simp add: sample_vmx_hw_def)
  then show ?thesis by (simp add: sample_env_def machine_env_def vmx_ops_return)
qed

lemma sample_boots: "\<exists>s'. BemiBiosEntryPoint sample_env (sample_state v) = Done (EFI_SUCCESS, s')"
proof -
  obtain cs where "CpuidSpoofInit (en_cpuid sample_env) (en_cpuidex sample_env) = Some cs"
    by (simp add: init_cases sample_env_def machine_env_def zero_regs_def)
  moreover have "\<not> boot_corrupts sample_env (sample_state v)"
    using sample_region by (simp add: boot_corrupts_def sample_pool)
  moreover have "en_InstallProtocolInterface sample_env = EFI_SUCCESS" by (simp add: sample_env_def machine_env_def)
  ultimately show ?thesis using entry_some [OF _ sample_returns, where cs = cs and s = "sample_state v"] by simp
qed

text \<open>The sample machine with a variable store that refuses every write.\<close>

lemma refusing_store_boots:
  "\<exists>s'. BemiBiosEntryPoint (sample_env\<lparr>en_SetVariable := \<lambda>_ n. n\<rparr>) (sample_state v) = Done (EFI_SUCCESS, s')"
proof -
  let ?env = "sample_env\<lparr>en_SetVariable := \<lambda>_ n. n\<rparr>"
  obtain cs where "CpuidSpoofInit (en_cpuid ?env) (en_cpuidex ?env) = Some cs"
    by (simp add: init_cases sample_env_def machine_env_def zero_regs_def)
  moreover have "\<not> boot_corrupts ?env (sample_state v)"
    using sample_region by (simp add: boot_corrupts_def sample_pool)
  moreover have "hv_returns (\<lambda>_. True) (en_hv ?env)" using sample_returns by simp
  moreover have "en_InstallProtocolInterface ?env = EFI_SUCCESS" by (simp add: sample_env_def machine_env_def)
  ultimately show ?thesis using entry_some [of ?env cs "\<lambda>_. True" "sample_state v"] by simp
qed

theorem bios_entry_finishes_witness:
  "\<exists>s'. BemiBiosEntryPoint (sample_env\<lparr>en_InstallProtocolInterface := EFI_ACCESS_DENIED\<rparr>) (sample_state None) =
     Done (EFI_ACCESS_DENIED, s')"
proof -
  let ?env = "sample_env\<lparr>en_InstallProtocolInterface := EFI_ACCESS_DENIED\<rparr>"
  have r: "hv_returns (\<lambda>_. True) (en_hv ?env)" using sample_returns by simp
  have "cr_Eax (en_cpuid ?env i) = 0" for i by (simp add: sample_env_def machine_env_def zero_regs_def)
  moreover have "\<not> boot_corrupts ?env (sample_state None)"
    using sample_region by (simp add: boot_corrupts_def sample_pool)
  ultimately show ?thesis using bios_entry_finishes [OF r, of "sample_state None"] by simp
qed

section \<open>What a boot leaves behind\<close>

lemma entry_cases:
  assumes "BemiBiosEntryPoint env s = Done (st, s')"
  obtains cs t where "CpuidSpoofInit (en_cpuid env) (en_cpuidex env) = Some cs"
    "t = bemi_tables env ((bemi_read_mode env (bemi_detect env s))\<lparr>bs_Cpuid := Some cs\<rparr>)"
    "bemi_start_mode env t = Done s'"
proof (cases "CpuidSpoofInit (en_cpuid env) (en_cpuidex env)")
  case None
  with assms show ?thesis by (simp add: BemiBiosEntryPoint_def Let_def)
next
  case (Some cs)
  let ?t = "bemi_tables env ((bemi_read_mode env (bemi_detect env s))\<lparr>bs_Cpuid := Some cs\<rparr>)"
  have "bemi_start_mode env ?t = Done s'"
    using assms Some
    by (cases "bemi_start_mode env ?t") (auto simp: BemiBiosEntryPoint_def Let_def split: if_splits)
  with Some show ?thesis by (intro that [of cs ?t]) simp_all
qed

lemma tables_calls:
  "bs_AcpiCalls (bemi_tables env s) = snd (AcpiInitTables (en_acpi_abi env) (en_acpi env) (ucast (bs_CpuCount s)))"
  "bs_SmbiosAdded (bemi_tables env s) =
     snd (SmbiosInitTables (en_smbios_abi env) (en_smbios env) (ucast (bs_CpuCount s)))"
  by (simp_all add: bemi_tables_def Let_def)

text \<open>When the entry point returns, the processor count is the detected one, the thread count is
  between 1 and 84 (never the 144 of the file's default and fallback), CPUID answers come from
  the initialised table, and both sets of tables were built for that count, cut to 32 bits.
  In every mode but the legacy one no hypervisor, trace cache or SMM state was
  touched.\<close>

theorem bios_entry_composes:
  assumes "BemiBiosEntryPoint env s = Done (st, s')"
  defines "n \<equiv> fst (snd (PostDetectTopology (en_cpuid env) (en_cpuidex env)))"
  shows "bs_CpuCount s' = n \<and> 1 \<le> bs_BemiThreadCount s' \<and> bs_BemiThreadCount s' \<le> 84 \<and>
    bs_Cpuid s' = CpuidSpoofInit (en_cpuid env) (en_cpuidex env) \<and>
    bs_AcpiCalls s' = snd (AcpiInitTables (en_acpi_abi env) (en_acpi env) (ucast n)) \<and>
    bs_SmbiosAdded s' = snd (SmbiosInitTables (en_smbios_abi env) (en_smbios env) (ucast n)) \<and>
    (bs_BootMode s' \<noteq> 1 \<longrightarrow> bs_Hypervisor s' = bs_Hypervisor s \<and> bs_TraceCache s' = bs_TraceCache s \<and>
       bs_Smm s' = bs_Smm s \<and> bs_Live s' = bs_Live s)"
proof -
  obtain cs t where cs: "CpuidSpoofInit (en_cpuid env) (en_cpuidex env) = Some cs"
    and t: "t = bemi_tables env ((bemi_read_mode env (bemi_detect env s))\<lparr>bs_Cpuid := Some cs\<rparr>)"
    and start: "bemi_start_mode env t = Done s'"
    by (rule entry_cases [OF assms(1)])
  have f: "bios_frame t s'" by (rule start_mode_frame [OF start])
  have native: "bs_BootMode s' \<noteq> 1 \<longrightarrow> s' = t"
  proof
    assume "bs_BootMode s' \<noteq> 1"
    then have "bs_BootMode t \<noteq> 1" using f by (simp add: bios_frame_def)
    then have "bemi_start_mode env t = Done t" by (simp add: bemi_start_mode_def)
    with start show "s' = t" by simp
  qed
  have "bs_Hypervisor t = bs_Hypervisor s \<and> bs_TraceCache t = bs_TraceCache s \<and> bs_Smm t = bs_Smm s \<and>
      bs_Live t = bs_Live s"
    by (simp add: t bemi_tables_def bemi_read_mode_def bemi_detect_def Let_def split_def)
  then have kept: "bs_BootMode s' \<noteq> 1 \<longrightarrow> bs_Hypervisor s' = bs_Hypervisor s \<and>
      bs_TraceCache s' = bs_TraceCache s \<and> bs_Smm s' = bs_Smm s \<and> bs_Live s' = bs_Live s"
    using native by metis
  have v: "bs_CpuCount t = n" "bs_Cpuid t = Some cs" "1 \<le> bs_BemiThreadCount t" "bs_BemiThreadCount t \<le> 84"
    "bs_AcpiCalls t = snd (AcpiInitTables (en_acpi_abi env) (en_acpi env) (ucast n))"
    "bs_SmbiosAdded t = snd (SmbiosInitTables (en_smbios_abi env) (en_smbios env) (ucast n))"
    by (simp_all only: t before_start after_detect tables_calls thread_count_range n_def bios_state.simps)
      (simp_all add: after_detect)
  then show ?thesis using f kept by (simp add: bios_frame_def cs)
qed

theorem bios_entry_composes_witness:
  "\<exists>s'. BemiBiosEntryPoint sample_env (sample_state None) = Done (EFI_SUCCESS, s') \<and>
     1 \<le> bs_BemiThreadCount s' \<and> bs_BemiThreadCount s' \<le> 84"
proof -
  obtain s' where b: "BemiBiosEntryPoint sample_env (sample_state None) = Done (EFI_SUCCESS, s')"
    using sample_boots by blast
  from bios_entry_composes [OF b] b show ?thesis by blast
qed

text \<open>C13: the boot mode set through the protocol survives a reset. When the variable store returns
  what was last stored, a successful \<open>BemiSetBootMode\<close> determines the mode that the next run of
  the entry point, started with the same variables, reports and acts on, and the one after it;
  only the modes 0 and 1 can be set.\<close>

theorem boot_mode_persists:
  assumes "\<forall>v n. en_GetVariable env (en_SetVariable env v n) = (EFI_SUCCESS, v)"
    and "BemiSetBootMode env m s = (EFI_SUCCESS, s1)"
    and "bs_Variables s0 = bs_Variables s1" "BemiBiosEntryPoint env s0 = Done (st, s2)"
  shows "unat m \<le> 1 \<and> BemiGetBootMode True s1 = (EFI_SUCCESS, Some m) \<and>
    BemiGetBootMode True s2 = (EFI_SUCCESS, Some m) \<and> bs_Variables s2 = bs_Variables s1"
proof -
  have m: "m < 2" and s1: "s1 = s\<lparr>bs_BootMode := m, bs_Variables := en_SetVariable env m (bs_Variables s)\<rparr>"
    using assms(2) by (auto simp: BemiSetBootMode_def split: if_splits)
  obtain cs t where t: "t = bemi_tables env ((bemi_read_mode env (bemi_detect env s0))\<lparr>bs_Cpuid := Some cs\<rparr>)"
    and start: "bemi_start_mode env t = Done s2"
    by (rule entry_cases [OF assms(4)])
  have "bs_BootMode (bemi_read_mode env s0) = m" "bs_Variables (bemi_read_mode env s0) = bs_Variables s1"
    using assms(1,3) by (simp_all add: bemi_read_mode_def s1)
  then have "bs_BootMode s2 = m" "bs_Variables s2 = bs_Variables s1"
    using start_mode_frame [OF start] by (simp_all add: bios_frame_def t before_start after_detect)
  then show ?thesis using m by (simp add: BemiGetBootMode_def s1 word_less_nat_alt)
qed

theorem boot_mode_persists_witness:
  "\<exists>s1 s2. BemiSetBootMode sample_env 1 (sample_state None) = (EFI_SUCCESS, s1) \<and>
     BemiBiosEntryPoint sample_env (sample_state (bs_Variables s1)) = Done (EFI_SUCCESS, s2) \<and>
     BemiGetBootMode True s2 = (EFI_SUCCESS, Some 1)"
proof -
  obtain s1 where s1: "BemiSetBootMode sample_env 1 (sample_state None) = (EFI_SUCCESS, s1)"
    by (simp add: BemiSetBootMode_def word_le_nat_alt)
  obtain s2 where s2: "BemiBiosEntryPoint sample_env (sample_state (bs_Variables s1)) = Done (EFI_SUCCESS, s2)"
    using sample_boots by blast
  have "\<forall>v n. en_GetVariable sample_env (en_SetVariable sample_env v n) = (EFI_SUCCESS, v)"
    by (simp add: sample_env_def machine_env_def)
  from boot_mode_persists [OF this s1 _ s2] s1 s2 show ?thesis by (simp add: sample_state_def power_on_def)
qed

lemma init_caches_done:
  assumes "bemi_init_caches env s = Done (EFI_SUCCESS, s')"
  obtains st g where
    "\<not> region_size (ucast (en_PcdBemiTraceCacheSize env)) > unat (ucast (en_PcdBemiTraceCacheSize env) :: u64)"
    "TraceCacheInit (snd (en_AllocatePool env (ucast (en_PcdBemiTraceCacheSize env))))
       (ucast (en_PcdBemiTraceCacheSize env)) (\<lambda>_. zero_tc_entry) = Done (st, g)"
    "bs_TraceCache s' = g"
    "bs_Live s' = snd (en_AllocatePool env (ucast (en_PcdBemiTraceCacheSize env))) # bs_Live s"
    "bs_Smm s' = snd (SmmHandlerInit (snd (en_AllocatePool env (ucast (en_PcdBemiTraceCacheSize env))))
       (ucast (en_PcdBemiTraceCacheSize env)) (bs_Smm s))"
    "bs_MemComp s' = snd (MemoryCompressorSetWorkloadPattern (en_hmc env) HmcPatternDlTraining
       (snd (MemoryCompressorInit (en_hmc env) (en_hmc_allocates env) (ha_2_2 (en_hmc env)) (ha_64_0 (en_hmc env)))))"
proof -
  have "\<not> EFI_ERROR (fst (SmmHandlerInit b n smm))" for b n smm
    by (simp add: SmmHandlerInit_def Let_def)
  with assms show ?thesis
    by (auto simp: bemi_init_caches_def Let_def split_def split: if_splits outcome.splits intro!: that)
qed

lemma trace_init_addresses:
  assumes "TraceCacheInit b n mem = Done (st, g)" "g = Some c"
  shows "unat (tc_BaseAddress c) = unat b + 56"
    "\<not> region_size n > unat n \<Longrightarrow> unat (tc_BucketBase c) + 8 * 65536 = unat b + unat n"
    "unat (tc_BucketBase c) \<ge> unat (tc_BaseAddress c)"
proof -
  let ?n = "if b = 0 \<or> n < 4096 then TRACE_CACHE_DEFAULT_SIZE else n"
  note sz = sizeof_header_def sizeof_buckets_def TRACE_CACHE_HASH_BUCKETS_def
  have r: "b \<noteq> 0" "524344 \<le> unat ?n" "unat b + unat ?n < 2 ^ 64"
    and c: "tc_BaseAddress c = b + 56" "tc_BucketBase c = b + ?n - 524288"
    using assms unfolding TraceCacheInit_def Let_def by (auto simp: sz split: if_splits)
  have s: "unat (b + ?n) = unat b + unat ?n" using r(3) by (simp add: unat_word_ariths)
  show "unat (tc_BaseAddress c) = unat b + 56" using r unfolding c by (simp add: unat_word_ariths)
  have "unat (tc_BucketBase c) = unat b + unat ?n - 524288"
    unfolding c using r s by (subst unat_sub) (simp_all add: word_le_nat_alt)
  then show "\<not> region_size n > unat n \<Longrightarrow> unat (tc_BucketBase c) + 8 * 65536 = unat b + unat n"
    "unat (tc_BucketBase c) \<ge> unat (tc_BaseAddress c)"
    using r \<open>unat (tc_BaseAddress c) = unat b + 56\<close>
    by (auto simp: region_size_def word_less_nat_alt split: if_splits)
qed

lemma hypervisor_start_state:
  assumes "BemiInitHypervisor env n s = Done (EFI_SUCCESS, s')"
    and "\<not> EFI_ERROR (fst (hv_Init (en_hv env) n (bs_Hypervisor s)))"
  defines "sz \<equiv> unat (en_PcdBemiTraceCacheSize env)"
    and "b \<equiv> snd (en_AllocatePool env (ucast (en_PcdBemiTraceCacheSize env)))"
  shows "\<exists>tc. bs_TraceCache s' = Some tc \<and> tc_ok 0 tc \<and> tc_map tc = (\<lambda>_. None) \<and>
    bs_Live s' = b # bs_Live s \<and> unat (tc_BaseAddress tc) = unat b + 56 \<and>
    unat (tc_BucketBase tc) + 8 * 65536 = unat b + sz \<and>
    sm_TraceCacheBase (bs_Smm s') = b \<and> unat (sm_TraceCacheSize (bs_Smm s')) = sz \<and>
    sm_TscFrequency (bs_Smm s') = 2500000000 \<and> sm_SmrrConfigured (bs_Smm s') \<and>
    sm_SmrrBase (bs_Smm s') = ucast b \<and>
    sm_SmrrMask (bs_Smm s') = ucast (NOT (ucast (en_PcdBemiTraceCacheSize env) - 1 :: u64) OR 6) \<and>
    524344 \<le> sz \<and> unat b + sz < 2 ^ 64 \<and>
    map_option mc_TargetCompressionRatio (bs_MemComp s') =
      (if en_hmc_allocates env then Some (ha_2_2 (en_hmc env)) else None)"
proof -
  let ?n = "ucast (en_PcdBemiTraceCacheSize env) :: u64"
  let ?s = "s\<lparr>bs_Hypervisor := snd (hv_Init (en_hv env) n (bs_Hypervisor s))\<rparr>"
  have "bemi_init_caches env ?s = Done (EFI_SUCCESS, s')"
    using assms(1,2) by (simp add: BemiInitHypervisor_def Let_def split_def)
  then obtain st' g where fits: "\<not> region_size ?n > unat ?n"
    and tc: "TraceCacheInit b ?n (\<lambda>_. zero_tc_entry) = Done (st', g)"
    and s': "bs_TraceCache s' = g" "bs_Live s' = b # bs_Live s"
      "bs_Smm s' = snd (SmmHandlerInit b ?n (bs_Smm s))"
      "bs_MemComp s' = snd (MemoryCompressorSetWorkloadPattern (en_hmc env) HmcPatternDlTraining
         (snd (MemoryCompressorInit (en_hmc env) (en_hmc_allocates env) (ha_2_2 (en_hmc env)) (ha_64_0 (en_hmc env)))))"
    unfolding b_def by (rule init_caches_done) auto
  have n: "unat ?n = sz"
    using unsigned_less [of "en_PcdBemiTraceCacheSize env", where ?'a = nat]
    by (simp add: sz_def unsigned_ucast_eq take_bit_nat_eq_self)
  have "\<not> trace_region_bad b ?n"
    using fits tc trace_init_corrupts [of ?n b "\<lambda>_. zero_tc_entry"] by simp
  then have b: "b \<noteq> 0" "524344 \<le> sz" "unat b + sz < 2 ^ 64" by (auto simp: trace_region_bad_def n)
  obtain c where c: "g = Some c" "tc_ok 0 c" "tc_map c = (\<lambda>_. None)" by (rule init_ok [OF tc])
  have addr: "unat (tc_BaseAddress c) = unat b + 56" "unat (tc_BucketBase c) + 8 * 65536 = unat b + sz"
    using trace_init_addresses [OF tc c(1)] fits by (simp_all add: n)
  have "?n \<noteq> 0" using n b(2) by (metis unsigned_0 not_numeral_le_zero)
  then have smm: "sm_TraceCacheBase (bs_Smm s') = b" "sm_TraceCacheSize (bs_Smm s') = ?n"
    "sm_TscFrequency (bs_Smm s') = 2500000000" "sm_SmrrConfigured (bs_Smm s')"
    "sm_SmrrBase (bs_Smm s') = ucast b" "sm_SmrrMask (bs_Smm s') = ucast (NOT (?n - 1) OR 6)"
    using b(1) by (simp_all add: s' SmmHandlerInit_def smm_start_def Let_def)
  have "map_option mc_TargetCompressionRatio (bs_MemComp s') =
      (if en_hmc_allocates env then Some (ha_2_2 (en_hmc env)) else None)"
    by (simp add: s' MemoryCompressorInit_def MemoryCompressorSetWorkloadPattern_def Let_def)
  with c addr smm n b(2,3) s'(1,2) show ?thesis by simp
qed

text \<open>The values put together for the range registers, which no code writes to the processor.\<close>

definition smrr_covers :: "smm_state \<Rightarrow> nat \<Rightarrow> nat \<Rightarrow> bool" where
  "smrr_covers s b sz \<longleftrightarrow>
     (\<forall>a. b \<le> unat a \<and> unat a < b + sz \<longrightarrow> smrr_matches (sm_SmrrBase s) (sm_SmrrMask s) a)"

lemma smrr_of_start:
  fixes pcd :: u32 and b :: u64
  assumes "sm_SmrrBase smm = ucast b" "sm_SmrrMask smm = ucast (NOT (ucast pcd - 1 :: u64) OR 6)"
    "524344 \<le> unat pcd"
  shows "4096 dvd unat pcd \<longrightarrow> \<not> bit (sm_SmrrMask smm) 11"
    "unat pcd = 2 ^ k \<and> unat b + unat pcd \<le> 2 ^ 32 \<longrightarrow>
       smrr_covers smm (unat b) (unat pcd) = (unat pcd dvd unat b)"
    "2 ^ 32 \<le> unat b \<longrightarrow> \<not> smrr_covers smm (unat b) (unat pcd)"
proof -
  let ?n = "ucast pcd :: u64"
  have n: "unat ?n = unat pcd"
    using unsigned_less [of pcd, where ?'a = nat] by (simp add: unsigned_ucast_eq take_bit_nat_eq_self)
  have "?n \<noteq> 0" using n assms(3) by (metis unsigned_0 not_numeral_le_zero)
  then show "4096 dvd unat pcd \<longrightarrow> \<not> bit (sm_SmrrMask smm) 11"
    using smrr_valid_bit [of ?n] by (simp add: assms(2) n)
  show "unat pcd = 2 ^ k \<and> unat b + unat pcd \<le> 2 ^ 32 \<longrightarrow>
       smrr_covers smm (unat b) (unat pcd) = (unat pcd dvd unat b)"
  proof
    assume a: "unat pcd = 2 ^ k \<and> unat b + unat pcd \<le> 2 ^ 32"
    have "(2 :: nat) ^ k < 2 ^ 32" using a unsigned_less [of pcd, where ?'a = nat] by simp
    then have "k < 32" by (simp only: power_strict_increasing_iff one_less_numeral_iff semiring_norm)
    then have k: "k \<le> 31" by simp
    have "(2 :: nat) ^ 12 \<le> 2 ^ k" using a assms(3) by simp
    then have k': "12 \<le> k" by (simp only: power_increasing_iff one_less_numeral_iff semiring_norm)
    have "?n = of_nat (unat ?n)" by (simp only: of_nat_unat ucast_id)
    also have "unat ?n = 2 ^ k" using n a by simp
    finally have "?n = 2 ^ k" by simp
    moreover have "unat b + 2 ^ k \<le> 2 ^ 32" using a by metis
    note smrr_covers_aligned [OF k' k this]
    ultimately show "smrr_covers smm (unat b) (unat pcd) = (unat pcd dvd unat b)"
      by (simp only: smrr_covers_def assms(1,2) conjunct1 [OF a])
  qed
  show "2 ^ 32 \<le> unat b \<longrightarrow> \<not> smrr_covers smm (unat b) (unat pcd)"
    using assms(3) by (auto simp: smrr_covers_def smrr_matches_def intro!: exI [of _ b])
qed

text \<open>C12: a successful hypervisor start leaves an empty trace cache that fills the buffer it
  allocated, header first and bucket array last, which only happens with a buffer of at least
  524344 bytes, and the SMM handler knowing the buffer's bounds. The values it computes for
  the range registers do less: the base takes the low 32 bits of the address, so that it is the
  buffer's only below 4 GB; the valid bit of the mask is clear for every size that is a
  multiple of 4096; and, that bit apart, for a size that is a power of two the pair matches
  every address of a buffer that ends below 4 GB exactly when the buffer is aligned to its
  size, which AllocatePool does not promise, and never all of one that begins above. The
  compressor runs at the training ratio.\<close>

theorem hypervisor_start_protects_cache:
  assumes "BemiInitHypervisor env n s = Done (EFI_SUCCESS, s')"
    and "\<not> EFI_ERROR (fst (hv_Init (en_hv env) n (bs_Hypervisor s)))"
  defines "sz \<equiv> unat (en_PcdBemiTraceCacheSize env)"
    and "b \<equiv> snd (en_AllocatePool env (ucast (en_PcdBemiTraceCacheSize env)))"
  shows "\<exists>tc. bs_TraceCache s' = Some tc \<and> tc_map tc = (\<lambda>_. None) \<and> bs_Live s' = b # bs_Live s \<and>
    unat (tc_BaseAddress tc) = unat b + 56 \<and> unat (tc_BucketBase tc) + 8 * 65536 = unat b + sz \<and>
    524344 \<le> sz \<and> unat b + sz < 2 ^ 64 \<and>
    sm_TraceCacheBase (bs_Smm s') = b \<and> unat (sm_TraceCacheSize (bs_Smm s')) = sz \<and>
    sm_SmrrConfigured (bs_Smm s') \<and> sm_SmrrBase (bs_Smm s') = ucast b \<and>
    (unat (sm_SmrrBase (bs_Smm s')) = unat b \<longleftrightarrow> unat b < 2 ^ 32) \<and>
    (4096 dvd sz \<longrightarrow> \<not> bit (sm_SmrrMask (bs_Smm s')) 11) \<and>
    (\<forall>k. sz = 2 ^ k \<and> unat b + sz \<le> 2 ^ 32 \<longrightarrow>
       smrr_covers (bs_Smm s') (unat b) sz = (sz dvd unat b)) \<and>
    (2 ^ 32 \<le> unat b \<longrightarrow> \<not> smrr_covers (bs_Smm s') (unat b) sz) \<and>
    map_option mc_TargetCompressionRatio (bs_MemComp s') =
      (if en_hmc_allocates env then Some (ha_2_2 (en_hmc env)) else None)"
proof -
  have low: "unat (ucast x :: u32) = unat x \<longleftrightarrow> unat x < 2 ^ 32" for x :: u64
    by (auto simp: unsigned_ucast_eq take_bit_nat_eq_self_iff)
  note start = hypervisor_start_state [OF assms(1,2), folded sz_def b_def]
  then have smm: "sm_SmrrBase (bs_Smm s') = ucast b"
    "sm_SmrrMask (bs_Smm s') = ucast (NOT (ucast (en_PcdBemiTraceCacheSize env) - 1 :: u64) OR 6)"
    "524344 \<le> unat (en_PcdBemiTraceCacheSize env)" by (auto simp: sz_def)
  note mask = smrr_of_start [OF smm, folded sz_def]
  from start obtain tc where tc: "bs_TraceCache s' = Some tc" "tc_map tc = (\<lambda>_. None)"
    "unat (tc_BaseAddress tc) = unat b + 56" "unat (tc_BucketBase tc) + 8 * 65536 = unat b + sz" by blast
  with start low [of b] show ?thesis
    by (intro exI [of _ tc] conjI allI mask) (simp_all add: smm(1))
qed

theorem hypervisor_start_protects_cache_witness:
  "\<exists>s' tc. BemiInitHypervisor sample_env 4 (sample_state None) = Done (EFI_SUCCESS, s') \<and>
     bs_TraceCache s' = Some tc \<and> unat (tc_BucketBase tc) = 0x1380000 \<and> sm_SmrrBase (bs_Smm s') = 0x1000000 \<and>
     \<not> bit (sm_SmrrMask (bs_Smm s')) 11 \<and> smrr_covers (bs_Smm s') 0x1000000 0x400000"
proof -
  obtain s' where b: "BemiInitHypervisor sample_env 4 (sample_state None) = Done (EFI_SUCCESS, s')"
    and e: "\<not> EFI_ERROR (fst (hv_Init (en_hv sample_env) 4 (bs_Hypervisor (sample_state None))))"
    using sample_starts by blast
  have p: "unat (en_PcdBemiTraceCacheSize sample_env) = 2 ^ 22" by (simp add: sample_pool)
  note c = hypervisor_start_protects_cache [OF b e]
  then obtain tc where "bs_TraceCache s' = Some tc" "unat (tc_BucketBase tc) = 0x1380000"
    "sm_SmrrBase (bs_Smm s') = 0x1000000" "\<not> bit (sm_SmrrMask (bs_Smm s')) 11"
    unfolding p sample_pool by auto
  moreover have "\<forall>k. unat (en_PcdBemiTraceCacheSize sample_env) = 2 ^ k \<and>
      unat (0x1000000 :: u64) + unat (en_PcdBemiTraceCacheSize sample_env) \<le> 2 ^ 32 \<longrightarrow>
      smrr_covers (bs_Smm s') (unat (0x1000000 :: u64)) (unat (en_PcdBemiTraceCacheSize sample_env)) =
        (unat (en_PcdBemiTraceCacheSize sample_env) dvd unat (0x1000000 :: u64))"
    using c unfolding sample_pool snd_conv by blast
  then have "smrr_covers (bs_Smm s') 0x1000000 0x400000" by (auto simp: p dest!: spec [of _ 22])
  ultimately show ?thesis using b by blast
qed

end
