(* ===== verification/BiosRun.thy ===== *)
theory BiosRun
  imports BiosCore
begin

text \<open>
  The life of a machine: it is powered on, the entry point runs, the operating system calls the
  Bemi protocol, and resets start the entry point again with fresh globals and the variable
  store that the last run left. The step relation \<open>bios_step\<close> has one rule for each protocol
  function that changes state and one for a reset; what a reset does to the hypervisor's
  hardware is a parameter.
\<close>

section \<open>Runs\<close>

inductive bios_step ::
  "('b, 'n, 'f) bios_env \<Rightarrow> 'b \<Rightarrow> ('b, 'n, 'f) bios_state \<Rightarrow> ('b, 'n, 'f) bios_state \<Rightarrow> bool"
  for env hv0 where
  set_mode: "BemiSetBootMode env m s = (st, s') \<Longrightarrow> bios_step env hv0 s s'"
| init_hv: "BemiInitHypervisor env n s = Done (st, s') \<Longrightarrow> bios_step env hv0 s s'"
| reset: "BemiBiosEntryPoint env (power_on hv0 (bs_Variables s)) = Done (EFI_SUCCESS, s') \<Longrightarrow> bios_step env hv0 s s'"

inductive_cases bios_stepE: "bios_step env hv0 s s'"

text \<open>\<open>vars\<close> is the store of a machine that has never run.\<close>

inductive bios_reachable :: "('b, 'n, 'f) bios_env \<Rightarrow> 'b \<Rightarrow> 'n \<Rightarrow> ('b, 'n, 'f) bios_state \<Rightarrow> bool"
  for env hv0 vars where
  first: "BemiBiosEntryPoint env (power_on hv0 vars) = Done (EFI_SUCCESS, s) \<Longrightarrow> bios_reachable env hv0 vars s"
| more: "bios_reachable env hv0 vars s \<Longrightarrow> bios_step env hv0 s s' \<Longrightarrow> bios_reachable env hv0 vars s'"

section \<open>The invariant\<close>

definition variable_store :: "('b, 'n, 'f) bios_env \<Rightarrow> bool" where
  "variable_store env \<longleftrightarrow> (\<forall>v n. en_GetVariable env (en_SetVariable env v n) = (EFI_SUCCESS, v))"

text \<open>The store answers with the mode in memory, or it is what SetVariable made of an older store
  for that mode; the code does not look at SetVariable's status.\<close>

definition mode_read_back :: "('b, 'n, 'f) bios_env \<Rightarrow> ('b, 'n, 'f) bios_state \<Rightarrow> bool" where
  "mode_read_back env s \<longleftrightarrow>
     \<not> EFI_ERROR (fst (en_GetVariable env (bs_Variables s))) \<and>
     snd (en_GetVariable env (bs_Variables s)) = bs_BootMode s"

definition mode_stored :: "('b, 'n, 'f) bios_env \<Rightarrow> ('b, 'n, 'f) bios_state \<Rightarrow> bool" where
  "mode_stored env s \<longleftrightarrow>
     mode_read_back env s \<or> (\<exists>old. bs_Variables s = en_SetVariable env (bs_BootMode s) old)"

lemma stored_read_back: "variable_store env \<Longrightarrow> mode_stored env s \<Longrightarrow> mode_read_back env s"
  by (auto simp: mode_stored_def mode_read_back_def variable_store_def)

definition bios_booted :: "('b, 'n, 'f) bios_env \<Rightarrow> ('b, 'n, 'f) bios_state \<Rightarrow> bool" where
  "bios_booted env s \<longleftrightarrow>
     bs_CpuCount s = fst (snd (PostDetectTopology (en_cpuid env) (en_cpuidex env))) \<and>
     1 \<le> bs_BemiThreadCount s \<and> bs_BemiThreadCount s \<le> 84 \<and>
     bs_Cpuid s = CpuidSpoofInit (en_cpuid env) (en_cpuidex env) \<and>
     CpuidSpoofInit (en_cpuid env) (en_cpuidex env) \<noteq> None \<and>
     bs_AcpiCalls s = snd (AcpiInitTables (en_acpi_abi env) (en_acpi env) (ucast (bs_CpuCount s))) \<and>
     bs_SmbiosAdded s = snd (SmbiosInitTables (en_smbios_abi env) (en_smbios env) (ucast (bs_CpuCount s)))"

lemma frame_keeps:
  "bios_frame s s' \<Longrightarrow> mode_stored env s \<Longrightarrow> mode_stored env s'"
  "bios_frame s s' \<Longrightarrow> bios_booted env s \<Longrightarrow> bios_booted env s'"
  by (simp_all add: bios_frame_def mode_stored_def mode_read_back_def bios_booted_def)

lemma set_mode_keeps:
  assumes "BemiSetBootMode env m s = (st, s')"
  shows "mode_stored env s \<Longrightarrow> mode_stored env s'" "bios_booted env s \<Longrightarrow> bios_booted env s'"
  using assms
  by (auto simp: BemiSetBootMode_def mode_stored_def bios_booted_def split: if_splits)

lemma entry_establishes:
  assumes "BemiBiosEntryPoint env s = Done (st, s')"
  shows "mode_stored env s'" "bios_booted env s'"
proof -
  obtain cs t where cs: "CpuidSpoofInit (en_cpuid env) (en_cpuidex env) = Some cs"
    and t: "t = bemi_tables env ((bemi_read_mode env (bemi_detect env s))\<lparr>bs_Cpuid := Some cs\<rparr>)"
    and start: "bemi_start_mode env t = Done s'"
    by (rule entry_cases [OF assms])
  have f: "bios_frame t s'" by (rule start_mode_frame [OF start])
  have "mode_stored env (bemi_read_mode env s)"
    by (auto simp: mode_stored_def mode_read_back_def bemi_read_mode_def split_def Let_def)
  then have "mode_stored env t"
    by (simp add: mode_stored_def mode_read_back_def t before_start after_detect)
  then show "mode_stored env s'" by (rule frame_keeps(1) [OF f])
  have "bios_booted env t"
    by (simp add: bios_booted_def t before_start after_detect tables_calls thread_count_range cs)
  then show "bios_booted env s'" by (rule frame_keeps(2) [OF f])
qed

lemma step_keeps_boot:
  assumes "bios_step env hv0 s s'" "mode_stored env s" "bios_booted env s"
  shows "mode_stored env s' \<and> bios_booted env s'"
proof (rule bios_stepE [OF assms(1)])
  fix m st assume "BemiSetBootMode env m s = (st, s')"
  from set_mode_keeps [OF this] assms(2,3) show ?thesis by simp
next
  fix n st assume "BemiInitHypervisor env n s = Done (st, s')"
  from frame_keeps [OF init_hypervisor_frame [OF this]] assms(2,3) show ?thesis by simp
next
  assume "BemiBiosEntryPoint env (power_on hv0 (bs_Variables s)) = Done (EFI_SUCCESS, s')"
  from entry_establishes [OF this] show ?thesis by simp
qed

text \<open>C3: in every state that power-on, protocol calls and resets can reach, the boot mode in memory
  is the one GetVariable answers with, or the store is the result of a SetVariable for that
  mode, whatever that call did: its status is not looked at, so a refused write leaves memory
  and store apart. If the store reads back what was stored, the two agree. The processor
  count is the detected one, the thread count is between 1 and 84 (never the 144 of the
  file's default and fallback), the CPUID table is initialised, and the ACPI and SMBIOS
  tables are those of the processor count, whatever the variable store does.\<close>

theorem bios_reachable_invariant:
  assumes "bios_reachable env hv0 vars s"
  shows "(\<not> EFI_ERROR (fst (en_GetVariable env (bs_Variables s))) \<and>
      snd (en_GetVariable env (bs_Variables s)) = bs_BootMode s \<or>
      (\<exists>old. bs_Variables s = en_SetVariable env (bs_BootMode s) old)) \<and>
    (variable_store env \<longrightarrow> \<not> EFI_ERROR (fst (en_GetVariable env (bs_Variables s))) \<and>
      snd (en_GetVariable env (bs_Variables s)) = bs_BootMode s) \<and>
    BemiGetBootMode True s = (EFI_SUCCESS, Some (bs_BootMode s)) \<and>
    bs_CpuCount s = fst (snd (PostDetectTopology (en_cpuid env) (en_cpuidex env))) \<and>
    1 \<le> bs_BemiThreadCount s \<and> bs_BemiThreadCount s \<le> 84 \<and>
    bs_Cpuid s = CpuidSpoofInit (en_cpuid env) (en_cpuidex env) \<and> bs_Cpuid s \<noteq> None \<and>
    bs_AcpiCalls s = snd (AcpiInitTables (en_acpi_abi env) (en_acpi env) (ucast (bs_CpuCount s))) \<and>
    bs_SmbiosAdded s = snd (SmbiosInitTables (en_smbios_abi env) (en_smbios env) (ucast (bs_CpuCount s)))"
proof -
  have inv: "mode_stored env s \<and> bios_booted env s"
    using assms
  proof induction
    case (first s)
    from entry_establishes [OF first] show ?case by simp
  next
    case (more s s')
    from step_keeps_boot [OF more(2)] more(3) show ?case by simp
  qed
  then have "variable_store env \<longrightarrow> mode_read_back env s" using stored_read_back by blast
  moreover have "BemiGetBootMode True s = (EFI_SUCCESS, Some (bs_BootMode s))"
    by (simp add: BemiGetBootMode_def)
  moreover have "bs_Cpuid s \<noteq> None" using inv by (simp add: bios_booted_def)
  ultimately show ?thesis
    using inv unfolding mode_stored_def mode_read_back_def bios_booted_def by blast
qed

text \<open>The witness has a store that refuses every write: the mode set is in memory and not in the
  store.\<close>

theorem bios_reachable_invariant_witness:
  "\<exists>s. bios_reachable (sample_env\<lparr>en_SetVariable := \<lambda>_ n. n\<rparr>) sample_hv (Some 1) s \<and>
     BemiGetBootMode True s = (EFI_SUCCESS, Some 0) \<and>
     en_GetVariable sample_env (bs_Variables s) = (EFI_SUCCESS, 1) \<and> bs_BemiThreadCount s \<le> 84"
proof -
  let ?env = "sample_env\<lparr>en_SetVariable := \<lambda>_ n. n\<rparr>"
  obtain s where s: "BemiBiosEntryPoint ?env (power_on sample_hv (Some 1)) = Done (EFI_SUCCESS, s)"
    using refusing_store_boots unfolding sample_state_def by blast
  obtain cs t where t: "t = bemi_tables ?env ((bemi_read_mode ?env (bemi_detect ?env
      (power_on sample_hv (Some 1))))\<lparr>bs_Cpuid := Some cs\<rparr>)"
    and start: "bemi_start_mode ?env t = Done s"
    by (rule entry_cases [OF s])
  have "bs_Variables (bemi_read_mode ?env (power_on sample_hv (Some 1))) = Some 1"
    by (simp add: bemi_read_mode_def power_on_def Let_def split_def)
  then have v: "bs_Variables s = Some 1"
    using start_mode_frame [OF start] by (simp add: bios_frame_def t before_start after_detect)
  let ?s = "s\<lparr>bs_BootMode := 0\<rparr>"
  have "BemiSetBootMode ?env 0 s = (EFI_SUCCESS, ?s)"
    by (simp add: BemiSetBootMode_def word_le_nat_alt)
  then have r: "bios_reachable ?env sample_hv (Some 1) ?s"
    using bios_reachable.first [OF s] by (blast intro: bios_reachable.more bios_step.set_mode)
  have "en_GetVariable sample_env (bs_Variables ?s) = (EFI_SUCCESS, 1)"
    by (simp add: sample_env_def machine_env_def v)
  moreover have "BemiGetBootMode True ?s = (EFI_SUCCESS, Some 0)" by (simp add: BemiGetBootMode_def)
  ultimately show ?thesis using bios_reachable_invariant [OF r] r by blast
qed

end
