(* ===== verification/TestGuest.thy ===== *)
theory TestGuest
  imports BiosCore
begin

text \<open>
  The boot in legacy mode with the two hypervisors of the repository in place of the abstract
  operations of \<open>BiosCore\<close>: what becomes of the test guest (\<open>VmxTestGuestLaunch\<close> of
  bemibiospkg/bemibioscore/dxe/bemibioscore.c) over hypervisor/svm/svmcore.c on AMD and over
  hypervisor/vmx/vmxcore.c on Intel.
\<close>

section \<open>AMD\<close>

lemma init_hypervisor_done:
  assumes "hv_Init (en_hv env) n (bs_Hypervisor s) = (EFI_SUCCESS, hv)"
    and "\<not> EFI_ERROR (fst (en_AllocatePool env (ucast (en_PcdBemiTraceCacheSize env))))"
  shows "BemiInitHypervisor env n s = Corrupts \<or>
    (\<exists>s'. BemiInitHypervisor env n s = Done (EFI_SUCCESS, s') \<and> bs_Hypervisor s' = hv)"
proof -
  have "\<not> EFI_ERROR (fst (SmmHandlerInit b k smm))" for b k smm
    by (simp add: SmmHandlerInit_def Let_def)
  with assms show ?thesis
    using trace_init_never_hangs
    by (auto simp: BemiInitHypervisor_def bemi_init_caches_def Let_def split_def split: outcome.split)
qed

lemma amd_test_guest_hangs:
  assumes "en_hv env = backend_ops hw ext vmrun" "\<And>k. \<not> EFI_ERROR (fst (en_AllocatePages env k))"
    and "\<And>h. fst (hw_alloc_page hw h) \<noteq> None"
    and "bk_Fns (bs_Hypervisor s) = BackendSvm" "0 < ss_CpuCount (bk_Svm (bs_Hypervisor s))"
  shows "VmxTestGuestLaunch env s = Hangs"
proof -
  let ?e = "snd (en_AllocatePages env 0)" and ?sp = "snd (en_AllocatePages env 1) + 4096"
  obtain hv where c: "backend_VcpuCreate hw ext 0 ?e ?sp (bs_Hypervisor s) = Done (EFI_SUCCESS, hv)"
    by (rule backend_amd_creates [OF assms(4,5) _ assms(3)]) (simp_all add: MAX_LOGICAL_PROCESSORS_def)
  have "backend_VcpuRun hw ext vmrun 0 hv = Hangs"
    by (rule backend_amd_runs_forever [OF assms(4) c])
  with c assms(2) show ?thesis
    by (simp add: VmxTestGuestLaunch_def assms(1) backend_ops_def Let_def split_def)
qed

text \<open>C5: a BIOS in legacy mode does not boot on an AMD processor with SVM. When the detection counts
  at least one processor and the buffers could be allocated, the entry point starts the test guest and never comes back: the operating system
  is not handed the machine and the protocol is not installed. (When the trace cache does not
  fit its buffer, memory is corrupted before that.)\<close>

theorem amd_legacy_boot_never_ends:
  assumes "en_hv env = backend_ops hw ext vmrun" "amd_svm hw"
    and "bs_BootMode (bemi_read_mode env s) = boot_mode_code BemiBootModeLegacy"
    and "\<not> EFI_ERROR (fst (en_AllocatePool env (ucast (en_PcdBemiTraceCacheSize env))))"
    and "\<And>k. \<not> EFI_ERROR (fst (en_AllocatePages env k))" "\<And>h. fst (hw_alloc_page hw h) \<noteq> None"
    and "fst (snd (PostDetectTopology (en_cpuid env) (en_cpuidex env))) \<noteq> 0"
  shows "BemiBiosEntryPoint env s \<in> {Hangs, Corrupts} \<and>
    (\<not> boot_corrupts env s \<longrightarrow> BemiBiosEntryPoint env s = Hangs)"
proof (cases "CpuidSpoofInit (en_cpuid env) (en_cpuidex env)")
  case None
  then show ?thesis by (simp add: BemiBiosEntryPoint_def Let_def)
next
  case (Some cs)
  let ?t = "bemi_tables env ((bemi_read_mode env (bemi_detect env s))\<lparr>bs_Cpuid := Some cs\<rparr>)"
  let ?n = "bs_CpuCount ?t"
  have n: "?n = fst (snd (PostDetectTopology (en_cpuid env) (en_cpuidex env)))"
    by (simp add: before_start after_detect)
  obtain hv where hv: "hv_Init (en_hv env) ?n (bs_Hypervisor ?t) = (EFI_SUCCESS, hv)"
    and svm: "bk_Fns hv = BackendSvm" "ss_CpuCount (bk_Svm hv) = ?n"
    using backend_init_amd [OF assms(2), where ext = ext and n = ?n and s = "bs_Hypervisor ?t"]
    by (auto simp: assms(1) backend_ops_def)
  have count: "0 < ss_CpuCount (bk_Svm hv)"
    using assms(7) by (simp add: svm n word_neq_0_conv)
  have mode: "bs_BootMode ?t = boot_mode_code BemiBootModeLegacy"
    using assms(3) by (simp add: before_start after_detect)
  have corrupts: "BemiInitHypervisor env ?n ?t = Corrupts \<longleftrightarrow> boot_corrupts env s"
    using mode by (simp add: init_hypervisor_corrupts boot_corrupts_def before_start after_detect)
  consider "BemiInitHypervisor env ?n ?t = Corrupts"
    | x where "BemiInitHypervisor env ?n ?t = Done (EFI_SUCCESS, x)" "bs_Hypervisor x = hv"
    using init_hypervisor_done [OF hv assms(4)] by blast
  then have "bemi_start_mode env ?t = (if boot_corrupts env s then Corrupts else Hangs)"
  proof cases
    case (2 x)
    have "VmxTestGuestLaunch env x = Hangs"
      by (rule amd_test_guest_hangs [OF assms(1,5,6)]) (use svm count 2(2) in simp_all)
    with 2 mode corrupts show ?thesis by (simp add: bemi_start_mode_def)
  qed (use mode corrupts in \<open>simp add: bemi_start_mode_def\<close>)
  with Some show ?thesis by (simp add: BemiBiosEntryPoint_def Let_def)
qed

definition amd_hw :: "(u32 \<Rightarrow> u64) vmx_hw" where
  "amd_hw = sample_vmx_hw\<lparr>hw_cpuid := \<lambda>leaf.
     if leaf = 0 then \<lparr>cr_Eax = 1, cr_Ebx = 0x68747541, cr_Ecx = 0x444D4163, cr_Edx = 0x69746E65\<rparr>
     else zero_regs\<lparr>cr_Ecx := 4\<rparr>\<rparr>"

definition no_externs :: "'h vmx_externs" where
  "no_externs = \<lparr>ve_Init = (\<lambda>_ h. (EFI_UNSUPPORTED, h)), ve_CreateVcpu = (\<lambda>_ _ _ h. Done (EFI_UNSUPPORTED, h)),
     ve_RunVcpu = (\<lambda>_ h. Done (EFI_UNSUPPORTED, h))\<rparr>"

definition amd_start :: "(u32 \<Rightarrow> u64) backend_state" where
  "amd_start = \<lparr>bk_Vendor = HypervisorIntel, bk_Fns = BackendNull,
     bk_Svm = \<lparr>ss_Vcpu = (\<lambda>_. zero_svm_vcpu), ss_CpuCount = 0, ss_Pages = (\<lambda>_. zero_vmcb)\<rparr>,
     bk_Apic = ApicShadowInit 0, bk_Hw = (\<lambda>_. 0)\<rparr>"

theorem amd_legacy_boot_never_ends_witness:
  "BemiBiosEntryPoint (machine_env (backend_ops amd_hw no_externs refusing_vmrun)) (power_on amd_start None) = Hangs"
proof -
  let ?env = "machine_env (backend_ops amd_hw no_externs refusing_vmrun)"
  have "c_string (vendor_string (hw_cpuid amd_hw 0)) = ascii_bytes ''AuthenticAMD''"
    by (simp add: amd_hw_def vendor_string_def u32_bytes_def c_string_def ascii_bytes_def)
  then have "amd_svm amd_hw" by (simp add: amd_svm_def IS_AMD_def amd_hw_def zero_regs_def)
  moreover have "\<not> boot_corrupts ?env (power_on amd_start None)"
    using sample_region by (simp add: boot_corrupts_def machine_env_def)
  moreover have "fst (snd (PostDetectTopology (en_cpuid ?env) (en_cpuidex ?env))) \<noteq> 0"
    by (simp add: PostDetectTopology_def machine_env_def zero_regs_def)
  ultimately show ?thesis
    using amd_legacy_boot_never_ends [of ?env amd_hw no_externs refusing_vmrun "power_on amd_start None"]
    by (simp add: machine_env_def amd_hw_def sample_vmx_hw_def bemi_read_mode_def power_on_def)
qed

section \<open>Intel\<close>




end
