(* ===== verification/ExitStubs.thy ===== *)
theory ExitStubs
  imports VmxCore
begin

text \<open>
  The entry code of a VM exit, \<open>hypervisor/vmx/vmxexitasm.nasm\<close> and
  \<open>hypervisor/svm/SvmExitAsm.nasm\<close>. Both exit stubs push fifteen registers, pass the stack pointer to a C function, and pop. The
  register file is a function of the register's number in \<open>GUEST_STATE\<close>; the stack is a list
  with its top first, so the array the C function gets is the list from position 0. The C
  function may leave any values in the registers. Here the stub is joined with the handler of
  \<open>VmxCore\<close>, which expects RAX at the start of the array.
\<close>

section \<open>The stub\<close>

definition stub_push :: "nat \<Rightarrow> (nat \<Rightarrow> u64) \<times> u64 list \<Rightarrow> (nat \<Rightarrow> u64) \<times> u64 list" where
  "stub_push r x = (fst x, fst x r # snd x)"

definition stub_pop :: "nat \<Rightarrow> (nat \<Rightarrow> u64) \<times> u64 list \<Rightarrow> (nat \<Rightarrow> u64) \<times> u64 list" where
  "stub_pop r x = ((fst x)(r := hd (snd x)), tl (snd x))"

text \<open>The registers in the order of the PUSH instructions: all but RSP, from RAX to R15.\<close>

definition stub_order :: "nat list" where
  "stub_order = [0, 1, 2, 3, 4, 5, 6, 8, 9, 10, 11, 12, 13, 14, 15]"

text \<open>\<open>dispatch\<close> is the C function: it works on the array and on the rest of the machine.
  \<open>after\<close> are the registers when it returns.\<close>

definition BemiVmxExitTrampoline ::
  "((nat \<Rightarrow> u64) \<Rightarrow> 'm \<Rightarrow> (nat \<Rightarrow> u64) \<times> 'm) \<Rightarrow> (nat \<Rightarrow> u64) \<Rightarrow> (nat \<Rightarrow> u64) \<Rightarrow> 'm \<Rightarrow> (nat \<Rightarrow> u64) \<times> 'm"
  where
  "BemiVmxExitTrampoline dispatch after regs m =
     (let stack = snd (fold stub_push stub_order (regs, []));
          (GuestGprBase, m) = dispatch (\<lambda>i. stack ! i) m;
          stack = map GuestGprBase [0..<length stack]
      in (fst (fold stub_pop (rev stub_order) (after, stack)), m))"

text \<open>The AMD stub differs in a second argument, a null pointer to the control block.\<close>

definition BemiSvmExitTrampoline ::
  "((nat \<Rightarrow> u64) \<Rightarrow> u64 option \<Rightarrow> 'm \<Rightarrow> (nat \<Rightarrow> u64) \<times> 'm) \<Rightarrow> (nat \<Rightarrow> u64) \<Rightarrow> (nat \<Rightarrow> u64) \<Rightarrow> 'm \<Rightarrow>
     (nat \<Rightarrow> u64) \<times> 'm" where
  "BemiSvmExitTrampoline dispatch after regs m =
     BemiVmxExitTrampoline (\<lambda>base m. dispatch base None m) after regs m"

text \<open>The register whose value lies where the handler looks for register \<open>r\<close>, and the position
  where the handler looks.\<close>

definition stub_mirror :: "nat \<Rightarrow> nat" where
  "stub_mirror r = (if r = 7 \<or> r = 8 then r else 15 - r)"

definition handler_slot :: "nat \<Rightarrow> nat" where
  "handler_slot r = (if r < 7 then r else r - 1)"

lemma stub_stack:
  "snd (fold stub_push stub_order (regs, [])) =
     map regs [15, 14, 13, 12, 11, 10, 9, 8, 6, 5, 4, 3, 2, 1, 0]"
  by (simp add: stub_order_def stub_push_def)

lemma below_16:
  assumes "r < 16"
  shows "r \<in> {0, 1, 2, 3, 4, 5, 6, 7, 8, 9, 10, 11, 12, 13, 14, 15 :: nat}"
  using assms by simp presburger

lemma stub_array:
  assumes "r < 16" "r \<noteq> 7"
  shows "snd (fold stub_push stub_order (regs, [])) ! handler_slot r = regs (stub_mirror r)"
  using below_16 [OF assms(1)] assms(2)
  unfolding stub_stack by (elim insertE) (simp_all add: handler_slot_def stub_mirror_def)

lemma stub_result:
  assumes "r < 16" "r \<noteq> 7"
  shows "fst (fold stub_pop (rev stub_order) (after, map base [0..<15])) r = base (handler_slot (stub_mirror r))"
proof -
  have "[0..<15] = [0, 1, 2, 3, 4, 5, 6, 7, 8, 9, 10, 11, 12, 13, 14 :: nat]"
    by (simp add: upt_rec)
  then show ?thesis
    using below_16 [OF assms(1)] assms(2)
    by (elim insertE) (simp_all add: stub_order_def stub_pop_def handler_slot_def stub_mirror_def)
qed

lemma stub_length: "length (snd (fold stub_push stub_order (regs, []))) = 15"
  by (simp add: stub_stack)

lemma trampoline_register:
  assumes "dispatch (\<lambda>i. snd (fold stub_push stub_order (regs, [])) ! i) m = (base, m')" "r < 16" "r \<noteq> 7"
  shows "fst (BemiVmxExitTrampoline dispatch after regs m) r = base (handler_slot (stub_mirror r))"
    "snd (BemiVmxExitTrampoline dispatch after regs m) = m'"
  using assms by (simp_all add: BemiVmxExitTrampoline_def Let_def stub_length stub_result)

text \<open>A C function that leaves the array alone is invisible: the stub restores all fifteen
  registers, whatever the function left in them.\<close>

lemma trampoline_transparent:
  assumes "fst (dispatch (\<lambda>i. snd (fold stub_push stub_order (regs, [])) ! i) m) =
      (\<lambda>i. snd (fold stub_push stub_order (regs, [])) ! i)" "r < 16" "r \<noteq> 7"
  shows "fst (BemiVmxExitTrampoline dispatch after regs m) r = regs r"
proof -
  obtain base m' where d: "dispatch (\<lambda>i. snd (fold stub_push stub_order (regs, [])) ! i) m = (base, m')"
    by fastforce
  have "stub_mirror r < 16" "stub_mirror r \<noteq> 7" "stub_mirror (stub_mirror r) = r"
    using assms(2,3) by (auto simp: stub_mirror_def)
  then show ?thesis
    using trampoline_register(1) [where dispatch = dispatch, OF d assms(2,3), of after] stub_array [of "stub_mirror r" regs] assms(1) d by simp
qed

section \<open>The stub and the exit handler\<close>

text \<open>The two are linked by no name: the stub calls \<open>VmxExitDispatch\<close>, which the header declares and
  no file defines, while the comment on \<open>BemiVmxExitHandler\<close> says that the stub calls it. As
  the function the stub calls is a parameter, here it is that handler.\<close>

definition handler_as_dispatch ::
  "'h vmx_hw \<Rightarrow> (nat \<Rightarrow> u64) \<Rightarrow> apic_state \<times> 'h \<Rightarrow> (nat \<Rightarrow> u64) \<times> apic_state \<times> 'h" where
  "handler_as_dispatch hw base m = BemiVmxExitHandler hw base (fst m) (snd m)"

text \<open>What the dispatcher computed reaches the registers mirrored.\<close>

lemma trampoline_handler:
  assumes "BemiVmxExitTrampoline (handler_as_dispatch hw) after regs (apic, h) = (regs', m')"
    and "vmx_dispatch hw (vmx_exit_info hw h g) g h = (g', h1)"
    and "g = vmx_entry_state hw (\<lambda>i. snd (fold stub_push stub_order (regs, [])) ! i) h"
    and "r < 16" "r \<noteq> 7"
  shows "gs_Gpr g r = regs (stub_mirror r)" "regs' r = gs_Gpr g' (stub_mirror r)"
proof -
  let ?base = "\<lambda>i. snd (fold stub_push stub_order (regs, [])) ! i"
  have "gs_Gpr g r = ?base (handler_slot r)"
    using assms(4,5)
    by (simp add: assms(3) vmx_entry_state_def VmxReadGuestState_def load_gprs_def handler_slot_def GuestRsp_def)
  then show "gs_Gpr g r = regs (stub_mirror r)" by (simp add: stub_array [OF assms(4,5)])
  obtain base' apic' h' where b: "BemiVmxExitHandler hw ?base apic h = (base', apic', h')"
    using prod_cases3 by blast
  have "regs' r = base' (handler_slot (stub_mirror r))"
    using trampoline_register(1) [of "handler_as_dispatch hw" regs "(apic, h)" base' "(apic', h')" r after]
      assms(1,4,5) b by (simp add: handler_as_dispatch_def)
  also have "base' = store_gprs g' ?base"
    using exit_handler_parts(1) [OF b] assms(2,3) by simp
  also have "store_gprs g' ?base (handler_slot (stub_mirror r)) = gs_Gpr g' (stub_mirror r)"
    using assms(4,5) by (auto simp: store_gprs_def handler_slot_def stub_mirror_def)
  finally show "regs' r = gs_Gpr g' (stub_mirror r)" .
qed

text \<open>C16: if the undefined function that the stub calls, \<open>VmxExitDispatch\<close>, is \<open>BemiVmxExitHandler\<close>, as
  the comment on the latter has it, a CPUID exit takes the leaf from R15 and the sub-leaf from
  R13 and returns EAX, EBX, ECX and EDX in R15, R14, R13 and R12, EAX cut to 0x1F on leaf 0 and
  ECX without the hypervisor and VMX bits on leaf 1. RAX, RBX, RCX and RDX, where the
  instruction has its operands, and the other registers are as they were. The stub pushes RAX
  first, so that it lies at the end of the array; the handler looks for it at the start.\<close>

theorem trampoline_cpuid_registers:
  assumes "hw_vmread hw VM_EXIT_REASON h = EXIT_REASON_CPUID"
    and "BemiVmxExitTrampoline (handler_as_dispatch hw) after regs (apic, h) = (regs', m')"
  defines "leaf \<equiv> ucast (regs 15) :: u32"
    and "res \<equiv> hw_cpuidex hw (ucast (regs 15)) (ucast (regs 13))"
  shows "regs' 15 = ucast (if leaf = 0 \<and> cr_Eax res > 0x1F then 0x1F else cr_Eax res) \<and>
    regs' 14 = ucast (cr_Ebx res) \<and>
    regs' 13 = ucast (if leaf = 1 then (cr_Ecx res AND NOT BIT31) AND NOT BIT5 else cr_Ecx res) \<and>
    regs' 12 = ucast (cr_Edx res) \<and>
    (\<forall>r. r < 12 \<and> r \<noteq> GuestRsp \<longrightarrow> regs' r = regs r)"
proof -
  define g where "g = vmx_entry_state hw (\<lambda>i. snd (fold stub_push stub_order (regs, [])) ! i) h"
  define g' where "g' = HandleCpuidExit hw (vmx_exit_info hw h g) g"
  have d: "vmx_dispatch hw (vmx_exit_info hw h g) g h = (g', h)"
    using assms(1) by (simp add: vmx_dispatch_def vmx_exit_info_def g'_def Let_def)
  note t = trampoline_handler [OF assms(2) d g_def]
  have ops: "gs_Gpr g 0 = regs 15" "gs_Gpr g 2 = regs 13"
    using t(1) [of 0] t(1) [of 2] by (simp_all add: stub_mirror_def)
  have res: "regs' 15 = gs_Gpr g' 0" "regs' 14 = gs_Gpr g' 1" "regs' 13 = gs_Gpr g' 2" "regs' 12 = gs_Gpr g' 3"
    using t(2) [of 15] t(2) [of 14] t(2) [of 13] t(2) [of 12] by (simp_all add: stub_mirror_def)
  have out: "regs' 14 = ucast (cr_Ebx res)" "regs' 12 = ucast (cr_Edx res)"
    "regs' 15 = ucast (if leaf = 0 \<and> cr_Eax res > 0x1F then 0x1F else cr_Eax res)"
    "regs' 13 = ucast (if leaf = 1 then (cr_Ecx res AND NOT BIT31) AND NOT BIT5 else cr_Ecx res)"
    by (simp_all only: res g'_def HandleCpuidExit_def Let_def ops res_def leaf_def)
      (auto simp: gpr_index ops)
  have "regs' r = regs r" if r: "r < 12" "r \<noteq> GuestRsp" for r
  proof -
    have m: "stub_mirror r < 16" "stub_mirror r \<noteq> 7" "stub_mirror r > 3" "stub_mirror (stub_mirror r) = r"
      using r by (auto simp: stub_mirror_def GuestRsp_def)
    have "regs' r = gs_Gpr g' (stub_mirror r)" using t(2) [of r] r by (simp add: GuestRsp_def)
    also have "\<dots> = gs_Gpr g (stub_mirror r)"
      using m(3) by (simp add: g'_def HandleCpuidExit_def Let_def gpr_index)
    also have "\<dots> = regs r" using t(1) [OF m(1,2)] m(4) by simp
    finally show ?thesis .
  qed
  with out show ?thesis by blast
qed

theorem trampoline_cpuid_registers_witness:
  "fst (BemiVmxExitTrampoline (handler_as_dispatch sample_vmx_hw) (\<lambda>_. 0) (\<lambda>i. of_nat i + 100)
     (ApicShadowInit 0, (\<lambda>_. 0)(VM_EXIT_REASON := EXIT_REASON_CPUID))) 0 = 100 \<and>
   fst (BemiVmxExitTrampoline (handler_as_dispatch sample_vmx_hw) (\<lambda>_. 0) (\<lambda>i. of_nat i + 100)
     (ApicShadowInit 0, (\<lambda>_. 0)(VM_EXIT_REASON := EXIT_REASON_CPUID))) 15 = 0"
proof -
  let ?regs = "\<lambda>i. of_nat i + 100 :: u64" and ?h = "(\<lambda>_. 0 :: u64)(VM_EXIT_REASON := EXIT_REASON_CPUID)"
  have e: "hw_vmread sample_vmx_hw VM_EXIT_REASON ?h = EXIT_REASON_CPUID" by (simp add: sample_vmx_hw_def)
  obtain regs' m' where t: "BemiVmxExitTrampoline (handler_as_dispatch sample_vmx_hw) (\<lambda>_. 0) ?regs
      (ApicShadowInit 0, ?h) = (regs', m')" by (rule prod.exhaust)
  have c: "hw_cpuidex sample_vmx_hw a b = zero_regs" for a b by (simp add: sample_vmx_hw_def)
  show ?thesis using trampoline_cpuid_registers [OF e t] by (simp add: t c GuestRsp_def zero_regs_def)
qed

end
