(* ===== verification/TestSuite.thy ===== *)
theory TestSuite
  imports VmxCore
begin

text \<open>
  The firmware's self tests, \<open>tests/testsuite.c\<close>, which \<open>bemibioscore.inf\<close> builds into the driver.
  What the tests read of the machine is a record: CPUID, RDMSR, and whether the pool
  allocation of the memory test succeeds. The table of tests is a constant list; its
  \<open>Passed\<close> flags and the three counters are the state.
\<close>

section \<open>The tests\<close>

record test_env =
  te_Cpuid :: "u32 \<Rightarrow> cpuid_regs"
  te_Rdmsr :: "u32 \<Rightarrow> u64"
  te_Pool :: bool

definition TestCpuidSpoof :: "test_env \<Rightarrow> efi_status" where
  "TestCpuidSpoof e =
     (let vendor = vendor_string (te_Cpuid e 0x00)
      in if IS_INTEL vendor \<or> IS_AMD vendor then EFI_SUCCESS else EFI_UNSUPPORTED)"

definition TestVmxDetection :: "test_env \<Rightarrow> efi_status" where
  "TestVmxDetection e =
     (if cr_Ecx (te_Cpuid e 0x01) AND BIT5 \<noteq> 0 then EFI_SUCCESS else EFI_UNSUPPORTED)"

definition TestSvmDetection :: "test_env \<Rightarrow> efi_status" where
  "TestSvmDetection e =
     (if cr_Ecx (te_Cpuid e 0x80000001) AND BIT2 \<noteq> 0 then EFI_SUCCESS else EFI_UNSUPPORTED)"

definition TestMemoryMap :: "test_env \<Rightarrow> efi_status" where
  "TestMemoryMap e = (if \<not> te_Pool e then EFI_OUT_OF_RESOURCES else EFI_SUCCESS)"

definition TestMsrShadow :: "test_env \<Rightarrow> efi_status" where
  "TestMsrShadow e = (let ignored = te_Rdmsr e 0xC0000080 in EFI_SUCCESS)"

definition TestApicShadow :: "test_env \<Rightarrow> efi_status" where
  "TestApicShadow e =
     (let apicBase = te_Rdmsr e 0x1B
      in if apicBase AND 0xFFFFF000 = 0xFEE00000 then EFI_SUCCESS else EFI_DEVICE_ERROR)"

definition gTests :: "(string \<times> (test_env \<Rightarrow> efi_status)) list" where
  "gTests =
     [(''CPUID Vendor String'', TestCpuidSpoof),
      (''VMX Detection'', TestVmxDetection),
      (''SVM Detection'', TestSvmDetection),
      (''Memory Map Test'', TestMemoryMap),
      (''MSR Shadow Read'', TestMsrShadow),
      (''APIC Base Detection'', TestApicShadow)]"

section \<open>The runner\<close>

record test_state =
  ts_Count :: u32
  ts_Passed :: u32
  ts_Failed :: u32
  ts_Flags :: "nat \<Rightarrow> bool"

definition test_state_zero :: test_state where
  "test_state_zero = \<lparr>ts_Count = 0, ts_Passed = 0, ts_Failed = 0, ts_Flags = (\<lambda>_. False)\<rparr>"

definition TestRunnerInit :: "test_state \<Rightarrow> test_state" where
  "TestRunnerInit s = s\<lparr>ts_Count := of_nat (length gTests), ts_Passed := 0, ts_Failed := 0\<rparr>"

text \<open>The body of the loop for test \<open>i\<close>.\<close>

definition test_step :: "test_env \<Rightarrow> nat \<Rightarrow> test_state \<Rightarrow> test_state" where
  "test_step e i s =
     (let status = snd (gTests ! i) e;
          s = s\<lparr>ts_Flags := (ts_Flags s)(i := \<not> EFI_ERROR status)\<rparr>
      in if ts_Flags s i then s\<lparr>ts_Passed := ts_Passed s + 1\<rparr>
         else s\<lparr>ts_Failed := ts_Failed s + 1\<rparr>)"

definition TestRunnerExecuteAll :: "test_env \<Rightarrow> test_state \<Rightarrow> efi_status \<times> test_state" where
  "TestRunnerExecuteAll e s =
     (let s = fold (test_step e) [0..<length gTests] s
      in (if ts_Failed s = 0 then EFI_SUCCESS else EFI_DEVICE_ERROR, s))"

definition test_runs :: "test_env list \<Rightarrow> test_state \<Rightarrow> test_state" where
  "test_runs es s = fold (\<lambda>e s. snd (TestRunnerExecuteAll e s)) es s"

section \<open>What a run counts\<close>

definition test_passes :: "test_env \<Rightarrow> nat \<Rightarrow> bool" where
  "test_passes e i \<longleftrightarrow> \<not> EFI_ERROR (snd (gTests ! i) e)"

definition failures :: "test_env \<Rightarrow> nat" where
  "failures e = length (filter (\<lambda>i. \<not> test_passes e i) [0..<length gTests])"

lemma test_steps:
  assumes "distinct is"
  shows "fold (test_step e) is s = s\<lparr>
    ts_Passed := ts_Passed s + of_nat (length (filter (test_passes e) is)),
    ts_Failed := ts_Failed s + of_nat (length (filter (\<lambda>i. \<not> test_passes e i) is)),
    ts_Flags := (\<lambda>i. if i \<in> set is then test_passes e i else ts_Flags s i)\<rparr>"
  using assms
proof (induction "is" arbitrary: s)
  case (Cons i "is")
  then show ?case
    by (auto simp: test_step_def test_passes_def Let_def fun_eq_iff)
qed simp

lemma length_gTests [simp]: "length gTests = 6"
  by (simp add: gTests_def)

lemma execute_all:
  "TestRunnerExecuteAll e s =
     (if ts_Failed s + of_nat (failures e) = 0 then EFI_SUCCESS else EFI_DEVICE_ERROR,
      s\<lparr>ts_Passed := ts_Passed s + of_nat (6 - failures e), ts_Failed := ts_Failed s + of_nat (failures e),
        ts_Flags := (\<lambda>i. if i < 6 then test_passes e i else ts_Flags s i)\<rparr>)"
proof -
  have "length (filter (test_passes e) [0..<6]) = 6 - failures e"
    using sum_length_filter_compl [of "test_passes e" "[0..<6]"] by (simp add: failures_def)
  then show ?thesis
    by (simp add: TestRunnerExecuteAll_def Let_def test_steps failures_def)
qed

lemma failures_bound: "failures e \<le> 6"
  unfolding failures_def by (rule order_trans [OF length_filter_le]) simp

lemma failures_zero: "failures e = 0 \<longleftrightarrow> (\<forall>i<6. test_passes e i)"
  by (auto simp: failures_def filter_empty_conv)

lemma small_of_nat_zero: "n < 2 ^ 32 \<Longrightarrow> of_nat n = (0 :: u32) \<longleftrightarrow> n = 0"
  using unat_of_nat_small [of n, where ?'a = 32] by (auto simp: word_unat_eq_iff)

lemma test_runs_counts:
  "ts_Failed (test_runs es s) = ts_Failed s + of_nat (\<Sum>e\<leftarrow>es. failures e)"
  "ts_Passed (test_runs es s) = ts_Passed s + of_nat (\<Sum>e\<leftarrow>es. 6 - failures e)"
  by (induction es arbitrary: s) (simp_all add: test_runs_def execute_all ac_simps)

text \<open>The counters are never reset between runs, so after any earlier runs a run succeeds
  only if neither it nor any of them had a failure (as long as the failures fit 32 bits): one
  failed run makes the suite fail for ever after, also on a machine that has recovered. The
  passed and failed counts together are six per run.\<close>

theorem suite_failures_stick:
  fixes es e s
  defines "s' \<equiv> test_runs es (TestRunnerInit s)"
  assumes "6 * (length es + 1) < 2 ^ 32"
  shows "(fst (TestRunnerExecuteAll e s') = EFI_SUCCESS \<longleftrightarrow>
      (\<forall>d\<in>set (es @ [e]). \<forall>i<6. test_passes d i)) \<and>
    (fst (TestRunnerExecuteAll e s') \<noteq> EFI_SUCCESS \<longrightarrow> fst (TestRunnerExecuteAll e s') = EFI_DEVICE_ERROR) \<and>
    ts_Passed s' + ts_Failed s' = of_nat (6 * length es)"
proof -
  have le: "(\<Sum>e\<leftarrow>es. failures e) \<le> 6 * length es"
    using sum_list_mono [of es failures "\<lambda>_. 6"] failures_bound by (simp add: sum_list_triv)
  have counts: "ts_Failed s' = of_nat (\<Sum>e\<leftarrow>es. failures e)" "ts_Passed s' = of_nat (\<Sum>e\<leftarrow>es. 6 - failures e)"
    by (simp_all add: s'_def test_runs_counts TestRunnerInit_def)
  have small: "(\<Sum>e\<leftarrow>es. failures e) + failures e < 2 ^ 32"
    using le failures_bound [of e] assms(2) by simp
  have "ts_Failed s' + of_nat (failures e) = of_nat ((\<Sum>e\<leftarrow>es. failures e) + failures e)"
    by (simp add: counts)
  also have "\<dots> = (0 :: u32) \<longleftrightarrow> (\<Sum>e\<leftarrow>es. failures e) + failures e = 0"
    by (rule small_of_nat_zero [OF small])
  finally have zero: "ts_Failed s' + of_nat (failures e) = 0 \<longleftrightarrow> (\<forall>d\<in>set (es @ [e]). \<forall>i<6. test_passes d i)"
    by (auto simp: failures_zero)
  have "(\<Sum>e\<leftarrow>es. 6 - failures e) + (\<Sum>e\<leftarrow>es. failures e) = 6 * length es"
  proof (induction es)
    case (Cons d es)
    then show ?case using failures_bound [of d] by simp
  qed simp
  then have "ts_Passed s' + ts_Failed s' = of_nat (6 * length es)"
    by (simp only: counts of_nat_add [symmetric])
  with zero show ?thesis by (simp add: execute_all)
qed

theorem suite_failures_stick_witness:
  "let good = \<lparr>te_Cpuid = (\<lambda>_. \<lparr>cr_Eax = 0, cr_Ebx = 0x756E6547, cr_Ecx = 0x6C65746E, cr_Edx = 0x49656E69\<rparr>),
       te_Rdmsr = (\<lambda>_. 0xFEE00000), te_Pool = True\<rparr>
   in fst (TestRunnerExecuteAll good (test_runs [good] (TestRunnerInit test_state_zero))) = EFI_SUCCESS \<and>
      fst (TestRunnerExecuteAll good (test_runs [good\<lparr>te_Pool := False\<rparr>] (TestRunnerInit test_state_zero))) = EFI_DEVICE_ERROR"
proof -
  define good where "good = \<lparr>te_Cpuid = (\<lambda>_. \<lparr>cr_Eax = 0, cr_Ebx = 0x756E6547, cr_Ecx = 0x6C65746E, cr_Edx = 0x49656E69\<rparr>),
       te_Rdmsr = (\<lambda>_. 0xFEE00000), te_Pool = True\<rparr>"
  have six: "i \<in> {0, 1, 2, 3, 4, 5}" if "i < 6" for i :: nat using that by auto
  have p: "test_passes good i" if "i < 6" for i
    using six [OF that]
    by (elim insertE) (simp_all add: good_def test_passes_def gTests_def TestCpuidSpoof_def TestVmxDetection_def
        TestSvmDetection_def TestMemoryMap_def TestMsrShadow_def TestApicShadow_def IS_INTEL_def vendor_string_def
        u32_bytes_def c_string_def ascii_bytes_def Let_def)
  have f: "\<not> test_passes (good\<lparr>te_Pool := False\<rparr>) 3"
    by (simp add: test_passes_def gTests_def TestMemoryMap_def)
  have "\<forall>d\<in>set ([good] @ [good]). \<forall>i<6. test_passes d i" using p by simp
  moreover have "\<not> (\<forall>d\<in>set ([good\<lparr>te_Pool := False\<rparr>] @ [good]). \<forall>i<6. test_passes d i)"
    using f by (auto intro!: exI [of _ 3])
  ultimately show ?thesis
    using suite_failures_stick [of "[good]" good test_state_zero]
      suite_failures_stick [of "[good\<lparr>te_Pool := False\<rparr>]" good test_state_zero]
    unfolding good_def [symmetric] Let_def by simp
qed

text \<open>No processor has both VT-x and AMD-V, and the tests for both count: whatever the machine,
  the suite reports a device error.\<close>

lemma suite_never_passes:
  assumes "cr_Ecx (te_Cpuid e 1) AND BIT5 = 0 \<or> cr_Ecx (te_Cpuid e 0x80000001) AND BIT2 = 0"
  shows "fst (TestRunnerExecuteAll e (TestRunnerInit s)) = EFI_DEVICE_ERROR"
proof -
  have "\<not> test_passes e 1 \<or> \<not> test_passes e 2"
    using assms by (auto simp: test_passes_def gTests_def TestVmxDetection_def TestSvmDetection_def)
  then have "failures e \<noteq> 0" unfolding failures_zero by (auto intro: exI [of _ 1] exI [of _ 2])
  then have "of_nat (failures e) \<noteq> (0 :: u32)"
    using failures_bound [of e] by (subst small_of_nat_zero) simp_all
  then show ?thesis by (simp add: execute_all TestRunnerInit_def)
qed

end
