(* ===== verification/AsmWrappers.thy ===== *)
theory AsmWrappers
  imports SvmCore
begin

text \<open>
  The assembly wrappers of the virtualisation instructions, \<open>hypervisor/vmx/vmxasm.nasm\<close> and
  \<open>hypervisor/svm/SvmAsm.nasm\<close>. An instruction is a parameter that gives the carry and the zero
  flag and the new state; \<open>mem\<close> is the memory of 64-bit words the wrappers access through
  pointers. An instruction that may not fall through gives an \<open>option\<close>. The wrapper of VMWRITE
  is in \<open>VmxCore\<close>, whose code calls it; the last section shows what its exchanged operands do to
  the exit handler.
\<close>

section \<open>The wrappers\<close>

definition BemiVmxOn :: "(u64 \<Rightarrow> 'h \<Rightarrow> vm_flags \<times> 'h) \<Rightarrow> (u64 \<Rightarrow> u64) \<Rightarrow> u64 \<Rightarrow> 'h \<Rightarrow> u8 \<times> 'h" where
  "BemiVmxOn vmxon mem Rcx h = vm_status (vmxon (mem Rcx) h)"

definition BemiVmxOff :: "('h \<Rightarrow> vm_flags \<times> 'h) \<Rightarrow> 'h \<Rightarrow> u8 \<times> 'h" where
  "BemiVmxOff vmxoff h = vm_status (vmxoff h)"

definition BemiVmClear :: "(u64 \<Rightarrow> 'h \<Rightarrow> vm_flags \<times> 'h) \<Rightarrow> (u64 \<Rightarrow> u64) \<Rightarrow> u64 \<Rightarrow> 'h \<Rightarrow> u8 \<times> 'h" where
  "BemiVmClear vmclear mem Rcx h = vm_status (vmclear (mem Rcx) h)"

definition BemiVmPtrLd :: "(u64 \<Rightarrow> 'h \<Rightarrow> vm_flags \<times> 'h) \<Rightarrow> (u64 \<Rightarrow> u64) \<Rightarrow> u64 \<Rightarrow> 'h \<Rightarrow> u8 \<times> 'h" where
  "BemiVmPtrLd vmptrld mem Rcx h = vm_status (vmptrld (mem Rcx) h)"

text \<open>\<open>vmread [rdx], rcx\<close> stores nothing when it fails; the wrapper then stores 0.\<close>

definition BemiVmRead ::
  "(u64 \<Rightarrow> 'h \<Rightarrow> vm_flags \<times> u64) \<Rightarrow> u64 \<Rightarrow> u64 \<Rightarrow> (u64 \<Rightarrow> u64) \<Rightarrow> 'h \<Rightarrow> u8 \<times> (u64 \<Rightarrow> u64)" where
  "BemiVmRead vmread Rcx Rdx mem h =
     (let (flags, v) = vmread Rcx h
      in if vf_CF flags \<or> vf_ZF flags then (1, mem(Rdx := 0)) else (0, mem(Rdx := v)))"

definition BemiVmxLaunch :: "('h \<Rightarrow> (vm_flags \<times> 'h) option) \<Rightarrow> 'h \<Rightarrow> (u8 \<times> 'h) option" where
  "BemiVmxLaunch vmlaunch h = map_option vm_status (vmlaunch h)"

definition BemiVmxResume :: "('h \<Rightarrow> (vm_flags \<times> 'h) option) \<Rightarrow> 'h \<Rightarrow> (u8 \<times> 'h) option" where
  "BemiVmxResume vmresume h = map_option vm_status (vmresume h)"

text \<open>The AMD wrappers load RAX through their pointer and report success whatever happened;
  \<open>BemiSvmVmRun\<close> is in \<open>SvmCore\<close>.\<close>

definition BemiSvmVmSave :: "(u64 \<Rightarrow> 'h \<Rightarrow> 'h) \<Rightarrow> (u64 \<Rightarrow> u64) \<Rightarrow> u64 \<Rightarrow> 'h \<Rightarrow> u8 \<times> 'h" where
  "BemiSvmVmSave vmsave mem Rcx h = (0, vmsave (mem Rcx) h)"

definition BemiSvmVmLoad :: "(u64 \<Rightarrow> 'h \<Rightarrow> 'h) \<Rightarrow> (u64 \<Rightarrow> u64) \<Rightarrow> u64 \<Rightarrow> 'h \<Rightarrow> u8 \<times> 'h" where
  "BemiSvmVmLoad vmload mem Rcx h = (0, vmload (mem Rcx) h)"

definition BemiSvmStgi :: "('h \<Rightarrow> 'h) \<Rightarrow> 'h \<Rightarrow> u8 \<times> 'h" where
  "BemiSvmStgi stgi h = (0, stgi h)"

definition BemiSvmClgi :: "('h \<Rightarrow> 'h) \<Rightarrow> 'h \<Rightarrow> u8 \<times> 'h" where
  "BemiSvmClgi clgi h = (0, clgi h)"

definition BemiSvmInvlpga :: "(u64 \<Rightarrow> u32 \<Rightarrow> 'h \<Rightarrow> 'h) \<Rightarrow> u64 \<Rightarrow> u64 \<Rightarrow> 'h \<Rightarrow> u8 \<times> 'h" where
  "BemiSvmInvlpga invlpga Rcx Rdx h = (0, invlpga Rcx (ucast Rdx) h)"

section \<open>What the status says\<close>

lemma vm_status_zero: "fst (vm_status x) = 0 \<longleftrightarrow> \<not> vf_CF (fst x) \<and> \<not> vf_ZF (fst x)"
  by (simp add: vm_status_def)

text \<open>A VMLAUNCH that falls through has failed and set a flag, so the wrapper never returns 0; the
  caller in \<open>vmxcore.c\<close> ignores its value and reports an error whenever it returns.\<close>

lemma launch_returns_failure:
  assumes "\<And>h flags h'. vmlaunch h = Some (flags, h') \<Longrightarrow> vf_CF flags \<or> vf_ZF flags"
  shows "BemiVmxLaunch vmlaunch h \<noteq> Some (0, h')"
  using assms by (auto simp: BemiVmxLaunch_def vm_status_def split: if_splits)

text \<open>The value read is the field's, or 0 when the processor refuses the field.\<close>

lemma vmread_stores:
  "snd (BemiVmRead vmread f p mem h) p =
     (if fst (BemiVmRead vmread f p mem h) = 0 then snd (vmread f h) else 0)"
  by (auto simp: BemiVmRead_def split: prod.splits)

section \<open>The exit handler and the wrapper of VMWRITE\<close>

text \<open>What the processor promises: a VMWRITE changes no field but the one its first operand names
  (encodings that differ in bit 0 are the two halves of one field) and, when it fails, the
  VM-instruction error; neither WRMSR nor WBINVD changes the current VMCS.\<close>

definition VM_INSTRUCTION_ERROR :: u32 where "VM_INSTRUCTION_ERROR = 0x4400"

definition vmcs_frame :: "'h vmx_hw \<Rightarrow> bool" where
  "vmcs_frame hw \<longleftrightarrow>
     (\<forall>f field v h. f \<noteq> VM_INSTRUCTION_ERROR \<longrightarrow> field OR 1 \<noteq> ucast f OR 1 \<longrightarrow>
        hw_vmread hw f (snd (hw_vmwrite hw field v h)) = hw_vmread hw f h) \<and>
     (\<forall>f i v h. hw_vmread hw f (hw_wrmsr hw i v h) = hw_vmread hw f h) \<and>
     (\<forall>f h. hw_vmread hw f (hw_wbinvd hw h) = hw_vmread hw f h)"

text \<open>The fields of the guest's state that the handler reads and means to write.\<close>

definition vmx_guest_fields :: "u32 list" where
  "vmx_guest_fields = [VMX_GUEST_RIP, VMX_GUEST_RSP, VMX_GUEST_CR0, VMX_GUEST_CR3, VMX_GUEST_CR4,
     VMX_GUEST_EFER, VMX_GUEST_RFLAGS]"

text \<open>A value that is not the number of a field leaves that field alone.\<close>

lemma vm_write_other:
  assumes "vmcs_frame hw" "f \<noteq> VM_INSTRUCTION_ERROR" "v OR 1 \<noteq> ucast f OR 1"
  shows "hw_vmread hw f (vm_write hw f' v h) = hw_vmread hw f h"
proof -
  have "vm_write hw f' v h = snd (hw_vmwrite hw v (ucast f') h)"
    by (simp add: vm_write_def BemiVmWrite_def vm_status_def)
  with assms show ?thesis by (simp add: vmcs_frame_def)
qed

text \<open>The values an exit hands to \<open>BemiVmWrite\<close>: the guest's state, and with an interrupt pending
  the value for the interruption field.\<close>

definition exit_values :: "guest_state \<Rightarrow> u32 option \<Rightarrow> u64 set" where
  "exit_values g pending =
     {gs_Rip g, gs_Gpr g GuestRsp, gs_Cr0 g, gs_Cr3 g, gs_Cr4 g, gs_Efer g, gs_Rflags g} \<union>
     (case pending of None \<Rightarrow> {} | Some v \<Rightarrow> {ucast v OR 0x700})"

lemma write_state_other:
  assumes "vmcs_frame hw" "f \<noteq> VM_INSTRUCTION_ERROR"
    and "\<forall>v\<in>exit_values g None. v OR 1 \<noteq> ucast f OR 1"
  shows "hw_vmread hw f (VmxWriteGuestState hw g h) = hw_vmread hw f h"
  unfolding VmxWriteGuestState_def using assms(3)
  by (simp add: exit_values_def vm_write_other [OF assms(1,2)])

text \<open>C17: with \<open>BemiVmWrite\<close> as \<open>vmxasm.nasm\<close> has it, an exit saves none of the guest state that the
  dispatcher computed (C14): RIP, RSP, CR0, CR3, CR4, EFER and RFLAGS in the VMCS are after the
  exit handler what they were before it, so that the advance of RIP past the instruction is
  lost. The wrapper takes each value for the number of a field and the field's number for the
  value; the theorem assumes that none of the values the handler passes happens to be the
  number of one of these seven fields. It also assumes what the processor documents (a VMWRITE
  changes only the field its first operand names and the VM-instruction error, WRMSR and
  WBINVD no field) and that \<open>BemiVmRead\<close>, which this code calls with one argument although no
  file defines it so, returns the field.\<close>

theorem wrapped_exit_saves_nothing:
  assumes "vmcs_frame hw"
    and "BemiVmxExitHandler hw base apic h = (base', apic', h')"
    and "g = VmxReadGuestState hw h (load_gprs base zero_guest)"
    and "vmx_dispatch hw (vmx_exit_info hw h g) g h = (g', h1)"
    and "\<forall>v\<in>exit_values g' (fst (ApicGetPendingInterrupt (hw_msb hw) apic)).
      \<forall>f\<in>set vmx_guest_fields. v OR 1 \<noteq> ucast f OR 1"
  shows "(\<forall>f\<in>set vmx_guest_fields. hw_vmread hw f h' = hw_vmread hw f h) \<and>
    (hw_vmread hw VM_EXIT_REASON h \<notin> {EXIT_REASON_EXTERNAL_INT, EXIT_REASON_INT_WINDOW, EXIT_REASON_PREEMPTION} \<longrightarrow>
      hw_vmread hw VM_EXIT_INSTRUCTION_LEN h \<noteq> 0 \<longrightarrow>
      gs_Rip g' = hw_vmread hw VMX_GUEST_RIP h + hw_vmread hw VM_EXIT_INSTRUCTION_LEN h \<and>
      hw_vmread hw VMX_GUEST_RIP h' \<noteq> gs_Rip g')"
proof -
  have g: "g = vmx_entry_state hw base h" by (simp add: assms(3) vmx_entry_state_def)
  note d = assms(4) [unfolded g]
  note parts = exit_handler_parts(3) [OF assms(2) d] and eff = vmx_dispatch_effect [OF d]
  have same: "hw_vmread hw f h' = hw_vmread hw f h" if f: "f \<in> set vmx_guest_fields" for f
  proof -
    have e: "f \<noteq> VM_INSTRUCTION_ERROR"
      using f by (auto simp: vmx_guest_fields_def vmcs_fields VM_INSTRUCTION_ERROR_def)
    have "hw_vmread hw f h1 = hw_vmread hw f h" using eff(5) assms(1) by (auto simp: vmcs_frame_def)
    moreover have "hw_vmread hw f (VmxWriteGuestState hw g' h1) = hw_vmread hw f h1"
      using assms(5) f by (intro write_state_other [OF assms(1) e]) (auto simp: exit_values_def)
    moreover have "hw_vmread hw f (vm_write hw VM_ENTRY_INTR_INFO (ucast v OR 0x700) s) = hw_vmread hw f s"
      if "fst (ApicGetPendingInterrupt (hw_msb hw) apic) = Some v" for v s
      using assms(5) f that by (intro vm_write_other [OF assms(1) e]) (simp add: exit_values_def)
    ultimately show ?thesis by (auto simp: parts split: option.splits)
  qed
  have "VMX_GUEST_RIP \<in> set vmx_guest_fields" by (simp add: vmx_guest_fields_def)
  moreover have "gs_Rip g' = hw_vmread hw VMX_GUEST_RIP h +
      (if vmx_stays (hw_vmread hw VM_EXIT_REASON h) then 0 else hw_vmread hw VM_EXIT_INSTRUCTION_LEN h)"
    using eff(1) by (simp add: vmx_entry_fields vmx_exit_info_def)
  ultimately show ?thesis using same by (auto simp: vmx_stays_def)
qed

theorem wrapped_exit_saves_nothing_witness:
  "case BemiVmxExitHandler sample_vmx_hw (\<lambda>_. 0) (ApicShadowInit 0) halt_exit of
     (base', apic', h') \<Rightarrow> h' VMX_GUEST_RIP = 0x1000"
proof -
  let ?g = "VmxReadGuestState sample_vmx_hw halt_exit (load_gprs (\<lambda>_. 0) zero_guest)"
  obtain base' apic' h' where
    e: "BemiVmxExitHandler sample_vmx_hw (\<lambda>_. 0) (ApicShadowInit 0) halt_exit = (base', apic', h')"
    using prod_cases3 by blast
  have f: "vmcs_frame sample_vmx_hw"
  proof -
    have "ucast f OR 1 = field OR 1" if "ucast field = f" "drop_bit 32 field = 0" for f :: u32 and field :: u64
    proof -
      have "take_bit 32 field = field" using that(2) bits_ident [of 32 field] by simp
      then have "ucast (ucast field :: u32) = field"
        by (simp add: word_unat_eq_iff unsigned_ucast_eq unsigned_take_bit_eq)
      then show ?thesis using that(1) by simp
    qed
    then show ?thesis by (auto simp: vmcs_frame_def sample_vmx_hw_def)
  qed
  have d: "vmx_dispatch sample_vmx_hw (vmx_exit_info sample_vmx_hw halt_exit ?g) ?g halt_exit =
      (advance_rip (vmx_exit_info sample_vmx_hw halt_exit ?g) ?g, halt_exit)"
    by (simp add: vmx_dispatch_def vmx_exit_info_def sample_vmx_hw_def halt_exit_def vmcs_fields exit_reasons Let_def)
  have "apic_irr (ApicShadowInit 0) = {}"
    by (auto simp: apic_irr_def bank_set_def ApicShadowInit_def bank_reg_def)
  then have p: "fst (ApicGetPendingInterrupt (hw_msb sample_vmx_hw) (ApicShadowInit 0)) = None"
    by (cases rule: pending_cases [OF clz32_law, of "ApicShadowInit 0"]) (simp_all add: sample_vmx_hw_def)
  have "\<forall>v\<in>exit_values (advance_rip (vmx_exit_info sample_vmx_hw halt_exit ?g) ?g) None.
      \<forall>f\<in>set vmx_guest_fields. v OR 1 \<noteq> ucast f OR 1"
    by (simp add: exit_values_def vmx_guest_fields_def vmx_exit_info_def VmxReadGuestState_def
        sample_vmx_hw_def halt_exit_def vmcs_fields)
  with wrapped_exit_saves_nothing [OF f e refl d] show ?thesis
    unfolding e p by (simp add: vmx_guest_fields_def sample_vmx_hw_def halt_exit_def vmcs_fields)
qed

end
