(* ===== verification/GuestViews.thy ===== *)
theory GuestViews
  imports CpuidSpoof MsrShadow VmxCore
begin

text \<open>
  The firmware has two answers to a guest's CPUID and to a guest's access to a model-specific
  register: the tables of \<open>cpuidspoof.c\<close> and \<open>msrshadow.c\<close>, which the initialisation fills and
  logs, and the exit handlers of \<open>vmxcore.c\<close>, which the guest really reaches. Nothing connects
  them; this theory compares the two on the same processor.
\<close>

section \<open>What the guest gets from an exit\<close>

text \<open>The result registers of a CPUID exit, as the guest reads them.\<close>

definition exit_cpuid :: "'h vmx_hw \<Rightarrow> vm_exit_info \<Rightarrow> guest_state \<Rightarrow> cpuid_regs" where
  "exit_cpuid hw ei g =
     (let g' = HandleCpuidExit hw ei g in
      \<lparr>cr_Eax = ucast (gs_Gpr g' GuestRax), cr_Ebx = ucast (gs_Gpr g' GuestRbx),
       cr_Ecx = ucast (gs_Gpr g' GuestRcx), cr_Edx = ucast (gs_Gpr g' GuestRdx)\<rparr>)"

lemma exit_cpuid_regs:
  assumes "ucast (gs_Gpr g GuestRax) = leaf" "ucast (gs_Gpr g GuestRcx) = sub"
  shows "exit_cpuid hw ei g =
    (let r = hw_cpuidex hw leaf sub in
     r\<lparr>cr_Eax := if leaf = 0 \<and> cr_Eax r > 0x1F then 0x1F else cr_Eax r,
       cr_Ecx := if leaf = 1 then (cr_Ecx r AND NOT BIT31) AND NOT BIT5 else cr_Ecx r\<rparr>)"
proof -
  have down: "ucast (ucast x :: u64) = x" for x :: u32 by (rule bit_word_eqI) (simp add: bit_simps)
  show ?thesis
    using assms by (simp only: exit_cpuid_def HandleCpuidExit_def Let_def) (simp add: gpr_index down)
qed

lemma set_clear_bits:
  fixes x :: u32
  shows "bit (((x OR BIT5) OR BIT31) AND NOT BIT15) 31" "bit (((x OR BIT5) OR BIT31) AND NOT BIT15) 5"
    "\<not> bit ((x AND NOT BIT31) AND NOT BIT5) 31" "\<not> bit ((x AND NOT BIT31) AND NOT BIT5) 5"
  by (simp_all only: bit_and_iff bit_or_iff bit_not_iff_eq) simp_all

section \<open>Properties\<close>

text \<open>C18: the two CPUID emulations contradict each other on leaf 1, sub-leaf 0: there the table
  announces a hypervisor and VMX, and the exit handler that answers the guest denies both. On
  every other leaf, but leaf 1 with another sub-leaf, the cache leaf 4, extended leaf 1
  (sub-leaf 0), the hypervisor range, the reserved extended leaves and a highest leaf above
  0x1F, a sub-leaf other than 0 gets the same answer from both, and for sub-leaf 0 the table
  has the exit's answer or what AsmCpuid, which leaves the sub-leaf register as it is, gave for
  the leaf: the two differ only where AsmCpuid and AsmCpuidEx with sub-leaf 0 do.\<close>

theorem cpuid_views_differ:
  assumes "CpuidSpoofInit (hw_cpuid hw) (hw_cpuidex hw) = Some s"
    and "ucast (gs_Gpr g GuestRax) = leaf" "ucast (gs_Gpr g GuestRcx) = sub"
  defines "told \<equiv> CpuidSpoofHandler (hw_cpuidex hw) s leaf sub"
  shows "(leaf = 1 \<and> sub = 0 \<longrightarrow>
      bit (cr_Ecx told) 31 \<and> bit (cr_Ecx told) 5 \<and>
      \<not> bit (cr_Ecx (exit_cpuid hw ei g)) 31 \<and> \<not> bit (cr_Ecx (exit_cpuid hw ei g)) 5)
    \<and> (leaf \<notin> {1, 4} \<and> (leaf, sub) \<noteq> (0x80000001, 0) \<and>
       \<not> (0x40000000 \<le> leaf \<and> leaf \<le> 0x4FFFFFFF) \<and>
       \<not> (0x80000009 \<le> leaf \<and> leaf \<le> 0x80000018) \<and> \<not> (leaf = 0 \<and> cr_Eax (hw_cpuidex hw 0 sub) > 0x1F) \<longrightarrow>
      (exit_cpuid hw ei g = told \<or> sub = 0 \<and> told = hw_cpuid hw leaf) \<and>
      (exit_cpuid hw ei g \<noteq> told \<longrightarrow> hw_cpuid hw leaf \<noteq> hw_cpuidex hw leaf 0))"
proof -
  note ex = exit_cpuid_regs [OF assms(2,3), of hw ei, unfolded Let_def]
  have "bit (cr_Ecx told) 31 \<and> bit (cr_Ecx told) 5 \<and>
      \<not> bit (cr_Ecx (exit_cpuid hw ei g)) 31 \<and> \<not> bit (cr_Ecx (exit_cpuid hw ei g)) 5"
    if "leaf = 1 \<and> sub = 0"
  proof -
    have "told = leaf01_regs (hw_cpuid hw)"
      using that handler_leaf01 [OF assms(1)] by (simp add: told_def)
    then have "cr_Ecx told = ((cr_Ecx (hw_cpuid hw 1) OR BIT5) OR BIT31) AND NOT BIT15"
      by (simp add: leaf01_regs_def)
    moreover have "cr_Ecx (exit_cpuid hw ei g) = (cr_Ecx (hw_cpuidex hw leaf sub) AND NOT BIT31) AND NOT BIT5"
      using that by (simp add: ex)
    ultimately show ?thesis by (simp only: set_clear_bits not_False_eq_True simp_thms)
  qed
  moreover have "(exit_cpuid hw ei g = told \<or> sub = 0 \<and> told = hw_cpuid hw leaf) \<and>
      (exit_cpuid hw ei g \<noteq> told \<longrightarrow> hw_cpuid hw leaf \<noteq> hw_cpuidex hw leaf 0)"
    if c: "leaf \<notin> {1, 4} \<and> (leaf, sub) \<noteq> (0x80000001, 0) \<and>
       \<not> (0x40000000 \<le> leaf \<and> leaf \<le> 0x4FFFFFFF) \<and>
       \<not> (0x80000009 \<le> leaf \<and> leaf \<le> 0x80000018) \<and> \<not> (leaf = 0 \<and> cr_Eax (hw_cpuidex hw 0 sub) > 0x1F)"
  proof -
    have "leaf \<noteq> 4" "(leaf, sub) \<noteq> (1, 0)" using c by auto
    then have "told = hw_cpuidex hw leaf sub \<or> sub = 0 \<and> told = hw_cpuid hw leaf"
      unfolding told_def using c by (intro handler_unchanged [OF assms(1)]) blast+
    moreover have "exit_cpuid hw ei g = hw_cpuidex hw leaf sub" using c unfolding ex by auto
    ultimately show ?thesis by auto
  qed
  ultimately show ?thesis by blast
qed

definition plain_cpu :: "(u32 \<Rightarrow> u64) vmx_hw" where
  "plain_cpu = sample_vmx_hw\<lparr>hw_cpuid := (\<lambda>l. hv_regs 9 l 7 6), hw_cpuidex := (\<lambda>l _. hv_regs 9 l 7 6)\<rparr>"

theorem cpuid_views_differ_witness:
  "\<exists>s. CpuidSpoofInit (hw_cpuid plain_cpu) (hw_cpuidex plain_cpu) = Some s \<and>
     CpuidSpoofHandler (hw_cpuidex plain_cpu) s 0 0 =
       exit_cpuid plain_cpu zero_exit (zero_guest\<lparr>gs_Gpr := (\<lambda>_. 0)\<rparr>)"
proof -
  obtain s where s: "CpuidSpoofInit (hw_cpuid plain_cpu) (hw_cpuidex plain_cpu) = Some s"
    by (simp add: init_cases hv_regs_def plain_cpu_def)
  have z: "ucast (gs_Gpr (zero_guest\<lparr>gs_Gpr := (\<lambda>_. 0)\<rparr>) i) = (0 :: u32)" for i by simp
  have "exit_cpuid plain_cpu zero_exit (zero_guest\<lparr>gs_Gpr := (\<lambda>_. 0)\<rparr>) = hv_regs 9 0 7 6"
    unfolding exit_cpuid_regs [OF z z] by (simp add: plain_cpu_def hv_regs_def)
  with cpuid_views_differ [OF s z z, of zero_exit] s show ?thesis
    by (simp add: plain_cpu_def hv_regs_def)
qed

text \<open>C19: a WRMSR of the guest goes past the shadow table. Unless the register is 0x3A or 0x13C, which
  the exit handler protects, the exit executes WRMSR on the processor with the guest's value,
  also when the table holds the register as read-only and \<open>MsrShadowWrite\<close> would refuse it
  (for MTRRCAP and MCG_CAP, where the processor faults on a write); the table keeps the value
  of the initialisation, and \<open>MsrShadowRead\<close> goes on returning that.\<close>

theorem wrmsr_exit_bypasses_shadow:
  assumes "ucast (gs_Gpr g GuestRcx) = i" "i \<notin> {0x3A, 0x13C}"
    and "vmx_dispatch hw ei g h = (g', h')" "ei_ExitReason ei = EXIT_REASON_WRMSR"
  defines "t \<equiv> MsrShadowInit (hw_rdmsr hw) h"
    and "v \<equiv> (gs_Gpr g GuestRax AND 0xFFFFFFFF) OR push_bit 32 (gs_Gpr g GuestRdx)"
  shows "h' = hw_wrmsr hw i v h
    \<and> (\<forall>e. msr_view t i = Some e \<longrightarrow>
        MsrShadowRead (hw_rdmsr hw) i (t, h') = (EFI_SUCCESS, ms_Value e) \<and>
        (i \<notin> msr_faked \<longrightarrow> ms_Value e = hw_rdmsr hw i h))
    \<and> (i \<in> {MSR_IA32_MTRR_CAP, MSR_IA32_MCG_CAP} \<longrightarrow>
        MsrShadowWrite (hw_wrmsr hw) i v (t, h) = (EFI_ACCESS_DENIED, t, h))"
proof -
  have "vmx_dispatch hw ei g h = HandleMsrExit hw ei g h"
    using assms(4) by (simp add: vmx_dispatch_def exit_reasons)
  then have h': "h' = hw_wrmsr hw i v h"
    using assms(1-4) by (simp add: HandleMsrExit_def Let_def exit_reasons v_def)
  have "MsrShadowRead (hw_rdmsr hw) i (t, h') = (EFI_SUCCESS, ms_Value e) \<and>
      (i \<notin> msr_faked \<longrightarrow> ms_Value e = hw_rdmsr hw i h)" if "msr_view t i = Some e" for e
    using that msr_init_view [of "hw_rdmsr hw" h i e] by (simp add: msr_read_view t_def)
  moreover have "MsrShadowWrite (hw_wrmsr hw) i v (t, h) = (EFI_ACCESS_DENIED, t, h)"
    if "i \<in> {MSR_IA32_MTRR_CAP, MSR_IA32_MCG_CAP}"
  proof -
    have "\<exists>e. msr_view t i = Some e \<and> ms_IsReadOnly e"
      using msr_init_read_only that by (auto simp: t_def)
    then show ?thesis by (cases rule: msr_write_cases [of t i "hw_wrmsr hw" v h]) auto
  qed
  ultimately show ?thesis using h' by blast
qed

definition msr_cpu :: "(u32 \<Rightarrow> u64) vmx_hw" where
  "msr_cpu = sample_vmx_hw\<lparr>hw_rdmsr := (\<lambda>i h. h i), hw_wrmsr := (\<lambda>i v h. h(i := v))\<rparr>"

definition write_pat :: guest_state where
  "write_pat = zero_guest\<lparr>gs_Gpr := (\<lambda>_. 0)(GuestRcx := 0x277, GuestRax := 7)\<rparr>"

theorem wrmsr_exit_bypasses_shadow_witness:
  "case vmx_dispatch msr_cpu (zero_exit\<lparr>ei_ExitReason := EXIT_REASON_WRMSR\<rparr>) write_pat (\<lambda>_. 6) of
     (g', h') \<Rightarrow> h' 0x277 = 7 \<and>
       MsrShadowRead (\<lambda>i h. h i) 0x277 (MsrShadowInit (\<lambda>i h. h i) (\<lambda>_. 6), h') = (EFI_SUCCESS, 6)"
proof -
  obtain g' h' where
    d: "vmx_dispatch msr_cpu (zero_exit\<lparr>ei_ExitReason := EXIT_REASON_WRMSR\<rparr>) write_pat (\<lambda>_. 6) = (g', h')"
    by (rule prod.exhaust)
  have c: "ucast (gs_Gpr write_pat GuestRcx) = (0x277 :: u32)" "(0x277 :: u32) \<notin> {0x3A, 0x13C}"
    by (simp_all add: write_pat_def gpr_index)
  have a: "gs_Gpr write_pat GuestRax = 7" "gs_Gpr write_pat GuestRdx = 0"
    by (simp_all add: write_pat_def gpr_index)
  have "msr_view (MsrShadowInit (\<lambda>i h. h i) (\<lambda>_. 6)) 0x277 = Some (shadow_entry 0x277 6 False True)"
    by (rule msr_init_fixed_view)
       (simp add: msr_fixed_entries_def msrs.lookup_Cons msr_matches_def shadow_entry_def msr_numbers)
  with wrmsr_exit_bypasses_shadow [OF c d] show ?thesis
    unfolding d a by (auto simp: shadow_entry_def msr_cpu_def)
qed

end
