(* ===== verification/RobStatistics.thy ===== *)
theory RobStatistics
  imports RobDistributor RobV72
begin

text \<open>
  \<open>RobPrintStats\<close> of \<open>performance/rob/robdistributor.c\<close>, the one function that reads both
  versions of the reorder buffer: its output is the list of the lines' figures, in order, with
  the words of each line. Null pointers are \<open>None\<close>; the 32-bit sums of the C code are kept.
\<close>

type_synonym stat_line = "string \<times> u64 list"

definition v71_stat_lines :: "rob_distributor \<Rightarrow> stat_line list" where
  "v71_stat_lines d =
     [(''ROB v7.1 Stats'', []),
      (''Total entries'', [of_nat ROB_TOTAL_ENTRIES, of_nat ROB_BANKS, of_nat ROB_ENTRIES_PER_BANK]),
      (''Allocations, Retirements, Stalls'',
        [rd_TotalAllocations d, rd_TotalRetirements d, rd_TotalStalls d]),
      (''Cycle, Active'', [rd_CycleCounter d, of_nat (RobGetActiveCount (Some d))])] @
     map (\<lambda>b. let k = rd_Banks d b in
        (''Bank'', [of_nat b, of_nat (rb_Count k), of_nat (rb_MaxCount k), of_nat (rb_Head k), of_nat (rb_Tail k)]))
       [0..<ROB_BANKS]"

definition ext_count :: "v72_state \<Rightarrow> nat \<Rightarrow> u32" where
  "ext_count s i = (case vs_ExtBanks s i of None \<Rightarrow> 0 | Some r \<Rightarrow> of_nat (vr_Count r))"

definition v72_total_ext :: "v72_state \<Rightarrow> u32" where
  "v72_total_ext s =
     fold (\<lambda>i total. if vs_ExtBanks s i \<noteq> None then total + ext_count s i else total) [0..<V72_ROB_EXT_BANKS] 0"

definition v72_stat_lines :: "v72_state \<Rightarrow> stat_line list" where
  "v72_stat_lines s =
     [(''ROB v7.2 Stats'', []),
      (''Main entries'', [ucast (vs_MainCount s), of_nat V72_ROB_MAIN_ENTRIES])] @
     map (\<lambda>i. (''Ext bank'', [of_nat i, ucast (ext_count s i), of_nat V72_ROB_EXT_ENTRIES])) [0..<V72_ROB_EXT_BANKS] @
     [(''Extended total'', [ucast (v72_total_ext s), of_nat V72_ROB_EXT_TOTAL]),
      (''Grand total'', [ucast (vs_MainCount s + v72_total_ext s),
                         of_nat (V72_ROB_MAIN_ENTRIES + V72_ROB_EXT_TOTAL)]),
      (''Allocations, Retirements, Stalls'',
        [vs_TotalAllocations s, vs_TotalRetirements s, vs_TotalStalls s]),
      (''Cycle, Active meta entries'', [vs_CycleCounter s, ucast (vs_MetaCount s)])]"

definition RobPrintStats :: "u32 \<Rightarrow> rob_distributor option \<Rightarrow> v72_state \<Rightarrow> stat_line list" where
  "RobPrintStats Mode gRob v72 =
     (if Mode = 0 then (case gRob of None \<Rightarrow> [] | Some d \<Rightarrow> v71_stat_lines d)
      else if vs_MainRob v72 = None then [] else v72_stat_lines v72)"

section \<open>The figures printed\<close>

lemma v72_total_ext_sum: "v72_total_ext s = (\<Sum>i<V72_ROB_EXT_BANKS. ext_count s i)"
proof -
  have "fold (\<lambda>i total. if vs_ExtBanks s i \<noteq> None then total + ext_count s i else total) [0..<n] a =
      a + (\<Sum>i<n. ext_count s i)" for n a
    by (induction n) (auto simp: ext_count_def add.assoc)
  then show ?thesis by (simp add: v72_total_ext_def)
qed

text \<open>In every state the v7.2 code can reach, the grand total printed is the number of live entries.\<close>

theorem v72_grand_total:
  assumes "v72_inv s"
  shows "unat (vs_MainCount s + v72_total_ext s) = V72RobGetActiveCount s"
proof -
  obtain mr where mr: "vs_MainRob s = Some mr" "v72_ring_ok V72_ROB_MAIN_ENTRIES (mr, vs_MainCount s)"
    using assms by (cases "vs_MainRob s") (auto simp: v72_inv_def)
  have ext: "\<exists>r. vs_ExtBanks s i = Some r \<and> vr_Count r \<le> V72_ROB_EXT_ENTRIES" if "i < V72_ROB_EXT_BANKS" for i
  proof -
    have "v72_slot_ok V72_ROB_EXT_ENTRIES (vs_ExtBanks s i) (vs_ExtCounts s i)"
      using assms that by (simp add: v72_inv_def)
    then show ?thesis by (cases "vs_ExtBanks s i") (auto simp: v72_ring_ok_def ring_idx_def)
  qed
  define c where "c i = (case vs_ExtBanks s i of None \<Rightarrow> 0 | Some r \<Rightarrow> vr_Count r)" for i
  have c: "ext_count s i = of_nat (c i)" "i < V72_ROB_EXT_BANKS \<Longrightarrow> c i \<le> V72_ROB_EXT_ENTRIES" for i
    using ext [of i] by (auto simp: ext_count_def c_def split: option.splits)
  have act: "V72RobGetActiveCount s = vr_Count mr + (\<Sum>i<V72_ROB_EXT_BANKS. c i)"
  proof -
    have "fold (\<lambda>i total. case vs_ExtBanks s i of None \<Rightarrow> total | Some r \<Rightarrow> total + vr_Count r) [0..<n] a =
        a + (\<Sum>i<n. c i)" for n a
      by (induction n) (auto simp: c_def split: option.splits)
    then show ?thesis by (simp add: V72RobGetActiveCount_def mr(1))
  qed
  have main: "vs_MainCount s = of_nat (vr_Count mr)" "vr_Count mr \<le> V72_ROB_MAIN_ENTRIES"
    using mr(2) by (auto simp: v72_ring_ok_def ring_idx_def)
  have "(\<Sum>i<V72_ROB_EXT_BANKS. c i) \<le> (\<Sum>i<V72_ROB_EXT_BANKS. V72_ROB_EXT_ENTRIES)"
    by (rule sum_mono) (simp add: c(2))
  then have "vr_Count mr + (\<Sum>i<V72_ROB_EXT_BANKS. c i) < 2 ^ 32"
    using main(2) by (simp add: V72_ROB_EXT_BANKS_def V72_ROB_EXT_ENTRIES_def V72_ROB_MAIN_ENTRIES_def)
  then show ?thesis
    unfolding act v72_total_ext_sum main(1) c(1) of_nat_sum [symmetric] of_nat_add [symmetric]
    by (intro unat_of_nat_small) simp
qed

end
