(* ===== verification/DbtIr.thy ===== *)
theory DbtIr
  imports Prelude
begin

text \<open>
  The intermediate representation of the binary translator, \<open>dbt/ir.rs\<close>: registers,
  micro-operations and the translation block, an array of 256 micro-operations with a count.
  The constructors are the source's, with \<open>Op\<close> before the name of an operation.
\<close>

section \<open>Registers and operation codes\<close>

datatype dbt_register =
    RAX | RCX | RDX | RBX | RSP | RBP | RSI | RDI | R8 | R9 | R10 | R11 | R12 | R13 | R14 |
    R15 | RTmp0 | RTmp1 | RTmp2 | RTmp3 | RTmp4 | RTmp5 | RTmp6 | RTmp7 | RTmp8 | RTmp9 |
    RTmpA | RTmpB | RTmpC | RTmpD | RTmpE | RTmpF | RFlags | RNone

text \<open>The discriminants are consecutive, except that \<open>RNone\<close> is 0xFF.\<close>

definition all_registers :: "dbt_register list" where
  "all_registers =
    [RAX, RCX, RDX, RBX, RSP, RBP, RSI, RDI, R8, R9, R10, R11, R12, R13, R14, R15, RTmp0,
     RTmp1, RTmp2, RTmp3, RTmp4, RTmp5, RTmp6, RTmp7, RTmp8, RTmp9, RTmpA, RTmpB, RTmpC, RTmpD,
     RTmpE, RTmpF, RFlags]"

definition register_from_u8 :: "u8 \<Rightarrow> dbt_register" where
  "register_from_u8 v = (if v < 33 then all_registers ! unat v else RNone)"

primrec reg_num :: "dbt_register \<Rightarrow> u8" where
  "reg_num RAX = 0"
| "reg_num RCX = 1"
| "reg_num RDX = 2"
| "reg_num RBX = 3"
| "reg_num RSP = 4"
| "reg_num RBP = 5"
| "reg_num RSI = 6"
| "reg_num RDI = 7"
| "reg_num R8 = 8"
| "reg_num R9 = 9"
| "reg_num R10 = 10"
| "reg_num R11 = 11"
| "reg_num R12 = 12"
| "reg_num R13 = 13"
| "reg_num R14 = 14"
| "reg_num R15 = 15"
| "reg_num RTmp0 = 16"
| "reg_num RTmp1 = 17"
| "reg_num RTmp2 = 18"
| "reg_num RTmp3 = 19"
| "reg_num RTmp4 = 20"
| "reg_num RTmp5 = 21"
| "reg_num RTmp6 = 22"
| "reg_num RTmp7 = 23"
| "reg_num RTmp8 = 24"
| "reg_num RTmp9 = 25"
| "reg_num RTmpA = 26"
| "reg_num RTmpB = 27"
| "reg_num RTmpC = 28"
| "reg_num RTmpD = 29"
| "reg_num RTmpE = 30"
| "reg_num RTmpF = 31"
| "reg_num RFlags = 32"
| "reg_num RNone = 0xFF"

datatype (plugins only: size) micro_op_code =
    OpNop | OpMovRR | OpMovRI | OpMovRM | OpMovMR | OpMovMI | OpAddRR | OpAddRI | OpSubRR |
    OpSubRI | OpAdcRR | OpSbbRR | OpMulRR | OpMulRI | OpDivRR | OpIdivRR | OpImulRR |
    OpImulRI | OpCmpRR | OpCmpRI | OpJmpRel | OpJmpAbs | OpJccRel | OpCallRel | OpCallAbs |
    OpRet | OpPushR | OpPopR | OpLoadRR | OpStoreRR | OpAndRR | OpOrRR | OpXorRR | OpShlRR |
    OpShrRR | OpSarRR | OpNotR | OpNegR | OpIncR | OpDecR | OpLeaRR | OpMovsxRR | OpMovzxRR |
    OpCmovcc | OpSetcc | OpCdq | OpCqo | OpCpuid | OpRdmsr | OpWrmsr | OpHlt | OpCli | OpSti |
    OpInvlpg | OpMfence | OpXsave | OpXrstor | OpWbinvd | OpSyscall | OpSysret | OpIntVec |
    OpIret | OpMovsxd | OpTraceExit | OpMacroOpFused | OpMacroOpPassthrough | OpTestRR |
    OpTestRI | OpBsfRR | OpBsrRR | OpPopcntRR | OpRolRI | OpRorRI | OpRclRI | OpRcrRI |
    OpBtRI | OpBtrRI | OpBtsRI | OpBtcRI | OpCmpxchgRR | OpXaddRR | OpXchgRR

definition all_micro_ops :: "micro_op_code list" where
  "all_micro_ops =
    [OpNop, OpMovRR, OpMovRI, OpMovRM, OpMovMR, OpMovMI, OpAddRR, OpAddRI, OpSubRR, OpSubRI,
     OpAdcRR, OpSbbRR, OpMulRR, OpMulRI, OpDivRR, OpIdivRR, OpImulRR, OpImulRI, OpCmpRR,
     OpCmpRI, OpJmpRel, OpJmpAbs, OpJccRel, OpCallRel, OpCallAbs, OpRet, OpPushR, OpPopR,
     OpLoadRR, OpStoreRR, OpAndRR, OpOrRR, OpXorRR, OpShlRR, OpShrRR, OpSarRR, OpNotR, OpNegR,
     OpIncR, OpDecR, OpLeaRR, OpMovsxRR, OpMovzxRR, OpCmovcc, OpSetcc, OpCdq, OpCqo, OpCpuid,
     OpRdmsr, OpWrmsr, OpHlt, OpCli, OpSti, OpInvlpg, OpMfence, OpXsave, OpXrstor, OpWbinvd,
     OpSyscall, OpSysret, OpIntVec, OpIret, OpMovsxd, OpTraceExit, OpMacroOpFused,
     OpMacroOpPassthrough, OpTestRR, OpTestRI, OpBsfRR, OpBsrRR, OpPopcntRR, OpRolRI, OpRorRI,
     OpRclRI, OpRcrRI, OpBtRI, OpBtrRI, OpBtsRI, OpBtcRI, OpCmpxchgRR, OpXaddRR, OpXchgRR]"

definition micro_op_from_u8 :: "u8 \<Rightarrow> micro_op_code" where
  "micro_op_from_u8 v = (if v < 82 then all_micro_ops ! unat v else OpNop)"

record micro_op_inst =
  op_code :: micro_op_code
  op_dst :: dbt_register
  op_src1 :: dbt_register
  op_src2 :: dbt_register
  op_immediate :: u64
  op_operand_size :: u8

definition micro_op_new ::
  "micro_op_code \<Rightarrow> dbt_register \<Rightarrow> dbt_register \<Rightarrow> dbt_register \<Rightarrow> u64 \<Rightarrow> micro_op_inst" where
  "micro_op_new code dst src1 src2 imm =
     \<lparr>op_code = code, op_dst = dst, op_src1 = src1, op_src2 = src2, op_immediate = imm,
      op_operand_size = 8\<rparr>"

definition with_size :: "u8 \<Rightarrow> micro_op_inst \<Rightarrow> micro_op_inst" where
  "with_size n i = i\<lparr>op_operand_size := n\<rparr>"

section \<open>Translation blocks\<close>

definition MAX_MICRO_OPS_PER_BLOCK :: nat where "MAX_MICRO_OPS_PER_BLOCK = 256"

text \<open>\<open>micro_op_count\<close> is a \<open>u32\<close> in the source; it never exceeds 256.\<close>

record translation_block =
  tb_guest_ip :: u64
  tb_guest_size :: u32
  tb_instruction_count :: u32
  tb_micro_op_count :: nat
  tb_micro_ops :: "micro_op_inst list"
  tb_translation_valid :: bool

definition tb_new :: "u64 \<Rightarrow> translation_block" where
  "tb_new guest_ip =
     \<lparr>tb_guest_ip = guest_ip, tb_guest_size = 0, tb_instruction_count = 0, tb_micro_op_count = 0,
      tb_micro_ops = replicate MAX_MICRO_OPS_PER_BLOCK (micro_op_new OpNop RNone RNone RNone 0),
      tb_translation_valid = True\<rparr>"

definition tb_push :: "micro_op_inst \<Rightarrow> translation_block \<Rightarrow> bool \<times> translation_block" where
  "tb_push i tb =
     (let idx = tb_micro_op_count tb in
      if idx < MAX_MICRO_OPS_PER_BLOCK
      then (True, tb\<lparr>tb_micro_ops := (tb_micro_ops tb)[idx := i], tb_micro_op_count := idx + 1\<rparr>)
      else (False, tb))"

definition tb_get :: "nat \<Rightarrow> translation_block \<Rightarrow> micro_op_inst option" where
  "tb_get i tb = (if i < tb_micro_op_count tb then Some (tb_micro_ops tb ! i) else None)"

text \<open>The caller of \<open>get_mut\<close> applies \<open>f\<close> to the element, when there is one.\<close>

definition tb_get_mut ::
  "nat \<Rightarrow> (micro_op_inst \<Rightarrow> micro_op_inst) \<Rightarrow> translation_block \<Rightarrow> translation_block" where
  "tb_get_mut i f tb =
     (if i < tb_micro_op_count tb
      then tb\<lparr>tb_micro_ops := (tb_micro_ops tb)[i := f (tb_micro_ops tb ! i)]\<rparr> else tb)"

definition tb_remove :: "nat \<Rightarrow> translation_block \<Rightarrow> translation_block" where
  "tb_remove i tb =
     (let count = tb_micro_op_count tb in
      if i < count
      then tb\<lparr>tb_micro_ops := fold (\<lambda>j ops. ops[j := ops ! (j + 1)]) [i..<count - 1] (tb_micro_ops tb),
              tb_micro_op_count := count - 1\<rparr>
      else tb)"

section \<open>The block as a list\<close>

definition tb_ops :: "translation_block \<Rightarrow> micro_op_inst list" where
  "tb_ops tb = take (tb_micro_op_count tb) (tb_micro_ops tb)"

definition tb_wf :: "translation_block \<Rightarrow> bool" where
  "tb_wf tb \<longleftrightarrow> length (tb_micro_ops tb) = MAX_MICRO_OPS_PER_BLOCK \<and>
     tb_micro_op_count tb \<le> MAX_MICRO_OPS_PER_BLOCK"

lemma tb_ops_length [simp]: "tb_wf tb \<Longrightarrow> length (tb_ops tb) = tb_micro_op_count tb"
  by (simp add: tb_wf_def tb_ops_def)

lemma tb_ops_nth [simp]: "i < tb_micro_op_count tb \<Longrightarrow> tb_ops tb ! i = tb_micro_ops tb ! i"
  by (simp add: tb_ops_def)

lemma tb_wf_new [simp]: "tb_wf (tb_new ip)" "tb_ops (tb_new ip) = []"
  by (simp_all add: tb_wf_def tb_new_def tb_ops_def)

lemma tb_push_ops:
  assumes "tb_wf tb" "tb_push i tb = (ok, tb')"
  shows "tb_wf tb'" "ok \<longleftrightarrow> length (tb_ops tb) < MAX_MICRO_OPS_PER_BLOCK"
    "tb_ops tb' = (if ok then tb_ops tb @ [i] else tb_ops tb)"
  using assms
  by (auto simp: tb_push_def tb_wf_def tb_ops_def Let_def take_Suc_conv_app_nth split: if_splits)

lemma tb_get_ops: "tb_wf tb \<Longrightarrow> tb_get i tb = (if i < length (tb_ops tb) then Some (tb_ops tb ! i) else None)"
  by (simp add: tb_get_def)

lemma shift_down:
  "i \<le> n \<Longrightarrow> n < length xs \<Longrightarrow>
     fold (\<lambda>j ops. ops[j := ops ! Suc j]) [i..<n] xs =
       take i xs @ take (n - i) (drop (Suc i) xs) @ drop n xs"
proof (induction n)
  case (Suc n)
  show ?case
  proof (cases "i = Suc n")
    case False
    with Suc.prems have i: "i \<le> n" "n < length xs" by simp_all
    let ?ys = "take i xs @ take (n - i) (drop (Suc i) xs) @ drop n xs"
    have len: "length (take i xs) = i" "length (take (n - i) (drop (Suc i) xs)) = n - i"
      using i Suc.prems by simp_all
    have "fold (\<lambda>j ops. ops[j := ops ! Suc j]) [i..<Suc n] xs = ?ys[n := ?ys ! (Suc n)]"
      using i by (simp add: Suc.IH)
    also have "?ys ! (Suc n) = xs ! (Suc n)"
      using len i Suc.prems by (auto simp: nth_append)
    also have "?ys[n := xs ! (Suc n)] =
        take i xs @ take (n - i) (drop (Suc i) xs) @ (drop n xs)[0 := xs ! (Suc n)]"
      using len i by (simp add: list_update_append)
    also have "(drop n xs)[0 := xs ! (Suc n)] = xs ! (Suc n) # drop (Suc n) xs"
      using i by (metis Cons_nth_drop_Suc list_update_code(2))
    also have "take (n - i) (drop (Suc i) xs) @ xs ! (Suc n) # drop (Suc n) xs =
        take (Suc n - i) (drop (Suc i) xs) @ drop (Suc n) xs"
      using i Suc.prems by (simp add: Suc_diff_le take_Suc_conv_app_nth)
    finally show ?thesis .
  qed simp
qed simp

lemma tb_remove_ops:
  assumes "tb_wf tb" "i < tb_micro_op_count tb"
  shows "tb_wf (tb_remove i tb)" "tb_micro_op_count (tb_remove i tb) = tb_micro_op_count tb - 1"
    "tb_ops (tb_remove i tb) = take i (tb_ops tb) @ drop (Suc i) (tb_ops tb)"
proof -
  let ?n = "tb_micro_op_count tb" and ?xs = "tb_micro_ops tb"
  have n: "i \<le> ?n - 1" "?n - 1 < length ?xs" using assms by (auto simp: tb_wf_def MAX_MICRO_OPS_PER_BLOCK_def)
  note s = shift_down [OF n]
  show "tb_wf (tb_remove i tb)" "tb_micro_op_count (tb_remove i tb) = ?n - 1"
    using assms n s by (auto simp: tb_remove_def tb_wf_def Let_def)
  have "tb_ops (tb_remove i tb) =
      take (?n - 1) (take i ?xs @ take (?n - 1 - i) (drop (Suc i) ?xs) @ drop (?n - 1) ?xs)"
    using assms(2) s by (simp add: tb_ops_def tb_remove_def Let_def)
  also have "\<dots> = take i ?xs @ take (?n - 1 - i) (drop (Suc i) ?xs)"
    using n by simp
  also have "take (?n - 1 - i) (drop (Suc i) ?xs) = drop (Suc i) (take ?n ?xs)"
    using assms(2) by (simp add: drop_take)
  also have "take i ?xs = take i (tb_ops tb)" using assms(2) by (simp add: tb_ops_def)
  finally show "tb_ops (tb_remove i tb) = take i (tb_ops tb) @ drop (Suc i) (tb_ops tb)"
    by (simp add: tb_ops_def)
qed

section \<open>The numbers of registers and operations\<close>

text \<open>\<open>from_u8\<close> undoes \<open>as u8\<close>, and every operation has the number of its place in the list.\<close>

lemma register_numbers: "register_from_u8 (reg_num r) = r"
proof (cases r)
  case RNone
  show ?thesis unfolding RNone reg_num.simps register_from_u8_def by (simp add: word_less_nat_alt)
qed (simp_all add: register_from_u8_def all_registers_def)

lemma reg_num_eq [simp]: "reg_num r = reg_num r' \<longleftrightarrow> r = r'"
  by (metis register_numbers)

end
