(* ===== verification/DbtExecutor.thy ===== *)
theory DbtExecutor
  imports DbtIr "HOL-Library.Signed_Division"
begin

text \<open>
  The interpreter of micro-operations, \<open>dbt/executor/mod.rs\<close>: the register file with its flag
  helpers, one instruction, and a block. The two memory closures are parameters: each is
  optional, and acts on a memory \<open>'m\<close> of which nothing is assumed. A result is the error or
  the next instruction pointer; the executor's state is returned with both, since an error
  leaves it as it then is.
\<close>

section \<open>Register file\<close>

type_synonym register_file = "dbt_register \<Rightarrow> u64"

definition regs_new :: register_file where "regs_new = (\<lambda>_. 0)"

definition regs_read :: "dbt_register \<Rightarrow> register_file \<Rightarrow> u64" where
  "regs_read r rf = (if r = RNone then 0 else rf r)"

definition regs_write :: "dbt_register \<Rightarrow> u64 \<Rightarrow> register_file \<Rightarrow> register_file" where
  "regs_write r v rf = (if r \<noteq> RNone then rf(r := v) else rf)"

definition get_flags :: "register_file \<Rightarrow> u64" where "get_flags rf = rf RFlags"

definition set_flags :: "u64 \<Rightarrow> register_file \<Rightarrow> register_file" where
  "set_flags f rf = rf(RFlags := f)"

definition update_flags_arith :: "u64 \<Rightarrow> u64 \<Rightarrow> u64 \<Rightarrow> bool \<Rightarrow> register_file \<Rightarrow> register_file" where
  "update_flags_arith res operand1 operand2 is_sub rf =
     (let flags = 0;
          flags = (if res = 0 then flags OR 0x40 else flags);
          flags = (if res AND push_bit 63 1 \<noteq> 0 then flags OR 0x80 else flags);
          carry = (if is_sub then operand1 < operand2 else - 1 - operand1 < operand2);
          flags = (if carry then flags OR 0x01 else flags);
          overflow = (if is_sub then drop_bit 63 ((operand1 XOR operand2) AND (operand1 XOR res))
                      else drop_bit 63 ((operand1 XOR res) AND (operand2 XOR res)));
          flags = (if overflow \<noteq> 0 then flags OR 0x0800 else flags)
      in set_flags flags rf)"

definition update_flags_logic :: "u64 \<Rightarrow> register_file \<Rightarrow> register_file" where
  "update_flags_logic res rf =
     (let flags = 0;
          flags = (if res = 0 then flags OR 0x40 else flags);
          flags = (if res AND push_bit 63 1 \<noteq> 0 then flags OR 0x80 else flags)
      in set_flags flags rf)"

text \<open>The bit counts of the standard library.\<close>

definition trailing_zeros :: "u64 \<Rightarrow> nat" where
  "trailing_zeros x = length (takeWhile (\<lambda>n. \<not> bit x n) [0..<64])"

definition leading_zeros :: "u64 \<Rightarrow> nat" where
  "leading_zeros x = length (takeWhile (\<lambda>n. \<not> bit x n) (rev [0..<64]))"

definition count_ones :: "u64 \<Rightarrow> nat" where
  "count_ones x = length (filter (bit x) [0..<64])"

section \<open>The executor\<close>

record 'm memory_hooks =
  memory_read :: "(u64 \<Rightarrow> bool \<Rightarrow> u64 \<Rightarrow> 'm \<Rightarrow> u64 \<times> 'm) option"
  memory_write :: "(u64 \<Rightarrow> bool \<Rightarrow> u64 \<Rightarrow> 'm \<Rightarrow> 'm) option"

record 'm executor =
  ex_regs :: register_file
  ex_mem :: 'm

text \<open>The two errors of the source, and the panic of a signed division that overflows.\<close>

datatype exec_error = DivisionByZero | SignedDivisionByZero | DivisionPanic

definition on_regs :: "(register_file \<Rightarrow> register_file) \<Rightarrow> 'm executor \<Rightarrow> 'm executor" where
  "on_regs f s = s\<lparr>ex_regs := f (ex_regs s)\<rparr>"

definition mem_read :: "'m memory_hooks \<Rightarrow> u64 \<Rightarrow> bool \<Rightarrow> 'm executor \<Rightarrow> u64 \<times> 'm executor" where
  "mem_read m addr wide s =
     (case memory_read m of
        None \<Rightarrow> (0, s)
      | Some mr \<Rightarrow> (let (v, mem) = mr addr wide 0 (ex_mem s) in (v, s\<lparr>ex_mem := mem\<rparr>)))"

definition mem_write :: "'m memory_hooks \<Rightarrow> u64 \<Rightarrow> bool \<Rightarrow> u64 \<Rightarrow> 'm executor \<Rightarrow> 'm executor" where
  "mem_write m addr wide v s =
     (case memory_write m of None \<Rightarrow> s | Some mw \<Rightarrow> s\<lparr>ex_mem := mw addr wide v (ex_mem s)\<rparr>)"

definition jcc_taken :: "u64 \<Rightarrow> u8 \<Rightarrow> bool" where
  "jcc_taken flags condition =
     (let zf = drop_bit 6 flags AND 1; sf = drop_bit 7 flags AND 1; cf = flags AND 1;
          of' = drop_bit 11 flags AND 1 in
      if condition = 0x0 then of' \<noteq> 0
      else if condition = 0x1 then of' = 0
      else if condition = 0x2 then cf \<noteq> 0
      else if condition = 0x3 then cf = 0
      else if condition = 0x4 then zf \<noteq> 0
      else if condition = 0x5 then zf = 0
      else if condition = 0x6 then cf \<noteq> 0 \<or> zf \<noteq> 0
      else if condition = 0x7 then cf = 0 \<and> zf = 0
      else if condition = 0x8 then sf \<noteq> 0
      else if condition = 0x9 then sf = 0
      else if condition = 0xC then sf \<noteq> of'
      else if condition = 0xD then sf = of'
      else if condition = 0xE then zf \<noteq> 0 \<or> sf \<noteq> of'
      else if condition = 0xF then zf = 0 \<and> sf = of'
      else False)"

type_synonym 'm exec_result = "(exec_error + u64 option) \<times> 'm executor"

text \<open>The instructions that set a register from a value and the flags from an operation.\<close>

definition arith_result ::
  "micro_op_inst \<Rightarrow> u64 \<Rightarrow> u64 \<Rightarrow> u64 \<Rightarrow> bool \<Rightarrow> 'm executor \<Rightarrow> 'm executor" where
  "arith_result i res a b is_sub s =
     on_regs (\<lambda>rf. update_flags_arith res a b is_sub (regs_write (op_dst i) res rf)) s"

definition logic_result :: "micro_op_inst \<Rightarrow> u64 \<Rightarrow> 'm executor \<Rightarrow> 'm executor" where
  "logic_result i res s = on_regs (\<lambda>rf. update_flags_logic res (regs_write (op_dst i) res rf)) s"

definition mul_flags :: "bool \<Rightarrow> register_file \<Rightarrow> register_file" where
  "mul_flags overflow rf =
     (let flags = get_flags rf AND NOT 0x0801
      in set_flags (if overflow then flags OR 0x0801 else flags) rf)"

definition imul_result :: "micro_op_inst \<Rightarrow> u64 \<Rightarrow> u64 \<Rightarrow> 'm executor \<Rightarrow> 'm executor" where
  "imul_result i a b s =
     (let res = sint a * sint b; low = word_of_int res :: u64
      in on_regs (\<lambda>rf. mul_flags (res \<noteq> sint low) (regs_write (op_dst i) low rf)) s)"

definition count_result :: "micro_op_inst \<Rightarrow> u64 \<Rightarrow> u64 \<Rightarrow> u64 \<Rightarrow> bool \<Rightarrow> 'm executor \<Rightarrow> 'm executor" where
  "count_result i res a b is_sub s =
     on_regs (\<lambda>rf. let rf = regs_write (op_dst i) res rf; cf = get_flags rf AND 0x01;
                       rf = update_flags_arith res a b is_sub rf
                   in set_flags ((get_flags rf AND NOT 0x01) OR cf) rf) s"

definition set_zf :: "bool \<Rightarrow> register_file \<Rightarrow> register_file" where
  "set_zf z rf = set_flags (if z then get_flags rf OR 0x40 else get_flags rf AND NOT 0x40) rf"

definition bit_result :: "micro_op_inst \<Rightarrow> u64 \<Rightarrow> 'm executor \<Rightarrow> 'm executor" where
  "bit_result i base s =
     (let bit' = op_immediate i AND 63; mask = push_bit (unat bit') 1 :: u64;
          cf = drop_bit (unat bit') base AND 1
      in on_regs (\<lambda>rf.
           let rf = set_flags ((get_flags rf AND NOT 0x01) OR cf) rf in
           case op_code i of
             OpBtrRI \<Rightarrow> regs_write (op_dst i) (base AND NOT mask) rf
           | OpBtsRI \<Rightarrow> regs_write (op_dst i) (base OR mask) rf
           | OpBtcRI \<Rightarrow> regs_write (op_dst i) (base XOR mask) rf
           | _ \<Rightarrow> rf) s)"

definition push_word :: "'m memory_hooks \<Rightarrow> u64 \<Rightarrow> 'm executor \<Rightarrow> 'm executor" where
  "push_word m v s =
     (let rsp = regs_read RSP (ex_regs s) - 8
      in mem_write m rsp True v (on_regs (regs_write RSP rsp) s))"

definition shl_value :: "u64 \<Rightarrow> u64 \<Rightarrow> u64" where
  "shl_value a c = (let shift = c AND 0x3F in if shift \<ge> 64 then 0 else push_bit (unat shift) a)"

definition shr_value :: "u64 \<Rightarrow> u64 \<Rightarrow> u64" where
  "shr_value a c = (let shift = c AND 0x3F in if shift \<ge> 64 then 0 else drop_bit (unat shift) a)"

definition sar_value :: "u64 \<Rightarrow> u64 \<Rightarrow> u64" where
  "sar_value a c =
     (let shift = c AND 0x3F in
      if shift \<ge> 64 then (if sint a < 0 then - 1 else 0) else signed_drop_bit (unat shift) a)"

definition movsx_value :: "u8 \<Rightarrow> u64 \<Rightarrow> u64" where
  "movsx_value size' src =
     (if size' = 1 then scast (ucast src :: u8) else if size' = 2 then scast (ucast src :: u16)
      else if size' = 4 then scast (ucast src :: u32) else src)"

definition movzx_value :: "u8 \<Rightarrow> u64 \<Rightarrow> u64" where
  "movzx_value size' src =
     (if size' = 1 then src AND 0xFF else if size' = 2 then src AND 0xFFFF
      else if size' = 4 then src AND 0xFFFFFFFF else src)"

definition i64_MIN :: u64 where "i64_MIN = push_bit 63 1"
definition i128_MIN :: "128 word" where "i128_MIN = push_bit 127 1"

text \<open>The dividends are 128 bits wide; \<open>i128::MIN / -1\<close> panics in every build.\<close>

definition div_rr :: "u64 \<Rightarrow> 'm executor \<Rightarrow> exec_error option \<times> 'm executor" where
  "div_rr divisor s =
     (if divisor = 0 then (Some DivisionByZero, s)
      else (let lo = regs_read RAX (ex_regs s); hi = regs_read RDX (ex_regs s);
                dividend = push_bit 64 (ucast hi) OR ucast lo :: 128 word;
                quotient = ucast (dividend div ucast divisor);
                remainder = ucast (dividend mod ucast divisor)
            in (None, on_regs (\<lambda>rf. regs_write RDX remainder (regs_write RAX quotient rf)) s)))"

text \<open>IDIV sign-extends both halves before it joins them.\<close>

definition idiv_dividend :: "u64 \<Rightarrow> u64 \<Rightarrow> 128 word" where
  "idiv_dividend hi lo = push_bit 64 (scast hi) OR scast lo"

definition idiv_rr :: "u64 \<Rightarrow> 'm executor \<Rightarrow> exec_error option \<times> 'm executor" where
  "idiv_rr divisor s =
     (if divisor = 0 then (Some SignedDivisionByZero, s)
      else (let lo = regs_read RAX (ex_regs s); hi = regs_read RDX (ex_regs s);
                dividend = idiv_dividend hi lo in
            if dividend = i128_MIN \<and> divisor = - 1 then (Some DivisionPanic, s)
            else (let quotient = word_of_int (sint dividend sdiv sint divisor);
                      remainder = word_of_int (sint dividend smod sint divisor)
                  in (None, on_regs (\<lambda>rf. regs_write RDX remainder (regs_write RAX quotient rf)) s))))"

section \<open>One instruction\<close>

definition execute_inst ::
  "'m memory_hooks \<Rightarrow> micro_op_inst \<Rightarrow> u64 option \<Rightarrow> 'm executor \<Rightarrow> 'm exec_result" where
  "execute_inst m i next_ip s =
     (let rd = (\<lambda>r. regs_read r (ex_regs s)); dst = op_dst i; src1 = op_src1 i; src2 = op_src2 i;
          imm = op_immediate i; wide = (op_operand_size i = 8);
          go = (\<lambda>s. (Inr next_ip, s)); set = (\<lambda>r v. (Inr next_ip, on_regs (regs_write r v) s));
          fallible = (\<lambda>x. case fst x of Some e \<Rightarrow> (Inl e, snd x) | None \<Rightarrow> (Inr next_ip, snd x)) in
      case op_code i of
        OpNop \<Rightarrow> go s
      | OpMovRR \<Rightarrow> set dst (rd src1)
      | OpMovRI \<Rightarrow> set dst imm
      | OpMovRM \<Rightarrow> (let (v, s) = mem_read m (rd src1 + imm) wide s in go (on_regs (regs_write dst v) s))
      | OpMovMR \<Rightarrow> go (mem_write m (rd dst + imm) wide (rd src1) s)
      | OpMovMI \<Rightarrow> go (mem_write m (rd dst + imm) wide (ucast (reg_num src1)) s)
      | OpAddRR \<Rightarrow> go (arith_result i (rd src1 + rd src2) (rd src1) (rd src2) False s)
      | OpAddRI \<Rightarrow> go (arith_result i (rd src1 + imm) (rd src1) imm False s)
      | OpSubRR \<Rightarrow> go (arith_result i (rd src1 - rd src2) (rd src1) (rd src2) True s)
      | OpSubRI \<Rightarrow> go (arith_result i (rd src1 - imm) (rd src1) imm True s)
      | OpAdcRR \<Rightarrow> go (arith_result i (rd src1 + rd src2 + (get_flags (ex_regs s) AND 0x01))
                        (rd src1) (rd src2) False s)
      | OpSbbRR \<Rightarrow> go (arith_result i (rd src1 - rd src2 - (get_flags (ex_regs s) AND 0x01))
                        (rd src1) (rd src2) True s)
      | OpMulRR \<Rightarrow>
          (let res = uint (rd RAX) * uint (rd src1)
           in go (on_regs (\<lambda>rf. mul_flags (res > 2 ^ 64 - 1)
                (regs_write RDX (word_of_int (res div 2 ^ 64)) (regs_write RAX (word_of_int res) rf))) s))
      | OpImulRR \<Rightarrow> go (imul_result i (rd src1) (rd src2) s)
      | OpImulRI \<Rightarrow> go (imul_result i (rd src1) imm s)
      | OpDivRR \<Rightarrow> fallible (div_rr (rd src1) s)
      | OpIdivRR \<Rightarrow> fallible (idiv_rr (rd src1) s)
      | OpCmpRR \<Rightarrow> go (on_regs (update_flags_arith (rd src1 - rd src2) (rd src1) (rd src2) True) s)
      | OpCmpRI \<Rightarrow> go (on_regs (update_flags_arith (rd src1 - imm) (rd src1) imm True) s)
      | OpTestRR \<Rightarrow> go (on_regs (update_flags_logic (rd src1 AND rd src2)) s)
      | OpTestRI \<Rightarrow> go (on_regs (update_flags_logic (rd src1 AND imm)) s)
      | OpAndRR \<Rightarrow> go (logic_result i (rd src1 AND rd src2) s)
      | OpOrRR \<Rightarrow> go (logic_result i (rd src1 OR rd src2) s)
      | OpXorRR \<Rightarrow> go (logic_result i (rd src1 XOR rd src2) s)
      | OpNotR \<Rightarrow> set dst (NOT (rd src1))
      | OpNegR \<Rightarrow> go (arith_result i (0 - rd src1) 0 (rd src1) True s)
      | OpIncR \<Rightarrow> go (count_result i (rd src1 + 1) (rd src1) 1 False s)
      | OpDecR \<Rightarrow> go (count_result i (rd src1 - 1) (rd src1) 1 True s)
      | OpShlRR \<Rightarrow> go (logic_result i (shl_value (rd src1) (rd src2)) s)
      | OpShrRR \<Rightarrow> go (logic_result i (shr_value (rd src1) (rd src2)) s)
      | OpSarRR \<Rightarrow> go (logic_result i (sar_value (rd src1) (rd src2)) s)
      | OpRolRI \<Rightarrow> set dst (word_rotl (unat (imm AND 63)) (rd src1))
      | OpRorRI \<Rightarrow> set dst (word_rotr (unat (imm AND 63)) (rd src1))
      | OpRclRI \<Rightarrow> set dst (word_rotl (unat (imm AND 63)) (rd src1))
      | OpRcrRI \<Rightarrow> set dst (word_rotr (unat (imm AND 63)) (rd src1))
      | OpBtRI \<Rightarrow> go (bit_result i (rd src1) s)
      | OpBtrRI \<Rightarrow> go (bit_result i (rd src1) s)
      | OpBtsRI \<Rightarrow> go (bit_result i (rd src1) s)
      | OpBtcRI \<Rightarrow> go (bit_result i (rd src1) s)
      | OpBsfRR \<Rightarrow>
          go (if rd src1 = 0 then on_regs (set_zf True) s
              else on_regs (\<lambda>rf. set_zf False (regs_write dst (of_nat (trailing_zeros (rd src1))) rf)) s)
      | OpBsrRR \<Rightarrow>
          go (if rd src1 = 0 then on_regs (set_zf True) s
              else on_regs (\<lambda>rf. set_zf False (regs_write dst (of_nat (63 - leading_zeros (rd src1))) rf)) s)
      | OpPopcntRR \<Rightarrow>
          (let count = of_nat (count_ones (rd src1))
           in go (on_regs (\<lambda>rf. set_zf (count = 0) (regs_write dst count rf)) s))
      | OpLeaRR \<Rightarrow> set dst (rd src1 + imm)
      | OpLoadRR \<Rightarrow> (let (v, s) = mem_read m (rd src1 + rd src2) wide s in go (on_regs (regs_write dst v) s))
      | OpStoreRR \<Rightarrow> go (mem_write m (rd dst + rd src2) wide (rd src1) s)
      | OpMovsxRR \<Rightarrow> set dst (movsx_value (op_operand_size i) (rd src1))
      | OpMovzxRR \<Rightarrow> set dst (movzx_value (op_operand_size i) (rd src1))
      | OpMovsxd \<Rightarrow> set dst (scast (ucast (rd src1) :: u32))
      | OpPushR \<Rightarrow> go (push_word m (rd src1) s)
      | OpPopR \<Rightarrow>
          (let (v, s) = mem_read m (rd RSP) True s
           in go (on_regs (\<lambda>rf. regs_write dst v (regs_write RSP (rd RSP + 8) rf)) s))
      | OpJmpRel \<Rightarrow> (Inr (Some (rd RAX + imm)), s)
      | OpJmpAbs \<Rightarrow> (Inr (Some (rd src1)), s)
      | OpJccRel \<Rightarrow>
          (Inr (if jcc_taken (get_flags (ex_regs s)) (reg_num src2) then Some (rd RAX + imm)
                else next_ip), s)
      | OpCallRel \<Rightarrow> (Inr (Some (rd RAX + imm)), push_word m (rd RAX) s)
      | OpCallAbs \<Rightarrow>
          (let s = push_word m (rd RAX) s in (Inr (Some (regs_read src1 (ex_regs s))), s))
      | OpRet \<Rightarrow>
          (let (v, s) = mem_read m (rd RSP) True s
           in (Inr (Some v), on_regs (regs_write RSP (rd RSP + 8)) s))
      | OpCmovcc \<Rightarrow> (if get_flags (ex_regs s) \<noteq> 0 then set dst (rd src1) else go s)
      | OpSetcc \<Rightarrow> set dst (if get_flags (ex_regs s) \<noteq> 0 then 1 else 0)
      | OpCdq \<Rightarrow> set RDX (if rd RAX AND 0x8000000000000000 \<noteq> 0 then NOT 0 else 0)
      | OpCqo \<Rightarrow> set RDX (if rd RAX AND 0x8000000000000000 \<noteq> 0 then NOT 0 else 0)
      | OpXchgRR \<Rightarrow> go (on_regs (\<lambda>rf. regs_write src2 (rd src1) (regs_write src1 (rd src2) rf)) s)
      | OpCmpxchgRR \<Rightarrow>
          (if rd RAX = rd src1
           then go (on_regs (\<lambda>rf. set_zf True (regs_write src1 (rd src2) rf)) s)
           else go (on_regs (\<lambda>rf. set_zf False (regs_write RAX (rd src1) rf)) s))
      | OpXaddRR \<Rightarrow>
          go (on_regs (\<lambda>rf. update_flags_arith (rd src1 + rd src2) (rd src1) (rd src2) False
                (regs_write src1 (rd src1 + rd src2) (regs_write src2 (rd src1) rf))) s)
      | _ \<Rightarrow> go s)"

section \<open>A block\<close>

definition is_terminator :: "micro_op_code \<Rightarrow> bool" where
  "is_terminator c \<longleftrightarrow>
     c \<in> {OpRet, OpJmpRel, OpJmpAbs, OpJccRel, OpCallRel, OpCallAbs, OpTraceExit, OpHlt}"

function execute_from ::
  "'m memory_hooks \<Rightarrow> translation_block \<Rightarrow> nat \<Rightarrow> u64 option \<Rightarrow> 'm executor \<Rightarrow> 'm exec_result" where
  "execute_from m tb pc next_ip s =
     (if pc < tb_micro_op_count tb then
        (let i = tb_micro_ops tb ! pc in
         case execute_inst m i next_ip s of
           (Inl e, s) \<Rightarrow> (Inl e, s)
         | (Inr next_ip, s) \<Rightarrow>
             if is_terminator (op_code i) then (Inr next_ip, s)
             else execute_from m tb (pc + 1) next_ip s)
      else (Inr next_ip, s))"
  by pat_completeness auto
termination by (relation "measure (\<lambda>(m, tb, pc, n, s). tb_micro_op_count tb - pc)") auto

declare execute_from.simps [simp del]

definition execute_block ::
  "'m memory_hooks \<Rightarrow> translation_block \<Rightarrow> 'm executor \<Rightarrow> 'm exec_result" where
  "execute_block m tb s = execute_from m tb 0 None s"

section \<open>A block runs its list of operations\<close>

fun execute_ops ::
  "'m memory_hooks \<Rightarrow> micro_op_inst list \<Rightarrow> u64 option \<Rightarrow> 'm executor \<Rightarrow> 'm exec_result" where
  "execute_ops m [] next_ip s = (Inr next_ip, s)"
| "execute_ops m (i # ops) next_ip s =
     (case execute_inst m i next_ip s of
        (Inl e, s) \<Rightarrow> (Inl e, s)
      | (Inr next_ip, s) \<Rightarrow>
          if is_terminator (op_code i) then (Inr next_ip, s) else execute_ops m ops next_ip s)"

lemma execute_from_ops:
  assumes "tb_wf tb" "pc \<le> tb_micro_op_count tb"
  shows "execute_from m tb pc n s = execute_ops m (drop pc (tb_ops tb)) n s"
  using assms(2)
proof (induction "tb_micro_op_count tb - pc" arbitrary: pc n s)
  case 0
  then show ?case using assms(1) by (subst execute_from.simps) simp
next
  case (Suc k)
  then have pc: "pc < tb_micro_op_count tb" by linarith
  then have "drop pc (tb_ops tb) = tb_micro_ops tb ! pc # drop (Suc pc) (tb_ops tb)"
    using assms(1) by (simp flip: Cons_nth_drop_Suc)
  moreover have "execute_from m tb (Suc pc) n' s' = execute_ops m (drop (Suc pc) (tb_ops tb)) n' s'" for n' s'
    using Suc by (intro Suc.hyps(1)) linarith+
  ultimately show ?case
    using pc by (subst execute_from.simps) (simp add: Let_def split: prod.splits sum.splits)
qed

lemma execute_block_ops: "tb_wf tb \<Longrightarrow> execute_block m tb s = execute_ops m (tb_ops tb) None s"
  by (simp add: execute_block_def execute_from_ops)

section \<open>The flags of a comparison\<close>

lemma low_bit: "drop_bit k f AND 1 = (of_bool (bit f k) :: u64)"
  by (rule bit_word_eqI) (auto simp: bit_and_iff bit_drop_bit_eq bit_1_iff bit_of_bool_iff)

lemma uint_range: "0 \<le> uint x \<and> uint (x :: u64) < 2 ^ 64"
  using uint_lt2p [of x] by simp

lemma sint_top: "sint (x :: u64) = uint x - (if bit x 63 then 2 ^ 64 else 0)"
proof -
  have "take_bit 64 (uint x) = uint x"
    using uint_range [of x] by (simp add: take_bit_int_eq_self)
  then show ?thesis
    by (simp add: sint_uint signed_take_bit_eq_take_bit_minus bit_uint_iff)
qed

lemma uint_top: "bit (x :: u64) 63 \<longleftrightarrow> 2 ^ 63 \<le> uint x"
proof -
  have lt: "0 \<le> uint x div 2 ^ 63" "uint x div 2 ^ 63 < 2"
    using uint_range [of x] by (simp_all add: pos_imp_zdiv_nonneg_iff)
  have "bit x 63 \<longleftrightarrow> bit (uint x) 63" by (simp add: bit_uint_iff)
  also have "\<dots> \<longleftrightarrow> uint x div 2 ^ 63 = 1"
  proof -
    have "uint x div 2 ^ 63 = 0 \<or> uint x div 2 ^ 63 = 1" using lt by linarith
    then show ?thesis unfolding bit_iff_odd by auto
  qed
  also have "\<dots> \<longleftrightarrow> 2 ^ 63 \<le> uint x" using lt uint_range [of x] by auto
  finally show ?thesis .
qed

lemma drop_top: "drop_bit 63 x \<noteq> 0 \<longleftrightarrow> bit (x :: u64) 63"
proof
  show "bit x 63" if nz: "drop_bit 63 x \<noteq> 0"
  proof (rule ccontr)
    assume z: "\<not> bit x 63"
    have "drop_bit 63 x = 0"
    proof (rule bit_word_eqI)
      fix n assume "n < LENGTH(64)"
      have "\<not> bit x (63 + n)" using z bit_imp_le_length [of x "63 + n"] by (cases n) auto
      then show "bit (drop_bit 63 x) n \<longleftrightarrow> bit (0 :: u64) n" by (simp add: bit_drop_bit_eq)
    qed
    with nz show False by blast
  qed
  show "drop_bit 63 x \<noteq> 0" if "bit x 63"
  proof
    assume "drop_bit 63 x = 0"
    then have "\<not> bit (drop_bit 63 x) 0" by simp
    with that show False by (simp add: bit_drop_bit_eq)
  qed
qed

lemma mask_top: "x AND push_bit 63 1 \<noteq> 0 \<longleftrightarrow> bit (x :: u64) 63"
proof -
  have top: "bit (push_bit 63 1 :: u64) n \<longleftrightarrow> n = 63" for n
    unfolding bit_push_bit_iff bit_1_iff by (auto simp: possible_bit_word)
  have "x AND push_bit 63 1 = (if bit x 63 then push_bit 63 1 else 0)"
    by (rule bit_word_eqI) (simp only: bit_and_iff top if_distrib [of bit] if_distribR bit_0_eq split: if_split, auto)
  moreover have "push_bit 63 1 \<noteq> (0 :: u64)" by simp
  ultimately show ?thesis by (metis (full_types))
qed

lemma uint_minus: "uint (a - b :: u64) = uint a - uint b + (if a < b then 2 ^ 64 else 0)"
  using uint_sub_if' [of a b] by (simp add: word_less_def not_le split: if_splits)

lemma int_compare:
  fixes a b :: int
  assumes "0 \<le> a" "a < 2 ^ 64" "0 \<le> b" "b < 2 ^ 64"
  defines "r \<equiv> a - b + (if a < b then 2 ^ 64 else 0)"
    and "sg \<equiv> \<lambda>x. x - (if 2 ^ 63 \<le> x then 2 ^ 64 else (0 :: int))"
  shows "(2 ^ 63 \<le> a) \<noteq> (2 ^ 63 \<le> b) \<and> (2 ^ 63 \<le> a) \<noteq> (2 ^ 63 \<le> r) \<longleftrightarrow>
      sg a - sg b \<notin> {- (2 ^ 63)..<2 ^ 63}"
    and "(sg r < 0) \<noteq> (sg a - sg b \<notin> {- (2 ^ 63)..<2 ^ 63}) \<longleftrightarrow> sg a < sg b"
  using assms(1-4) unfolding r_def sg_def atLeastLessThan_iff by (simp_all split: if_splits) linarith+

lemma sint_compare:
  fixes a b :: u64
  shows "bit ((a XOR b) AND (a XOR (a - b))) 63 \<longleftrightarrow> sint a - sint b \<notin> {- (2 ^ 63)..<2 ^ 63}"
    and "(sint (a - b) < 0) \<noteq> (sint a - sint b \<notin> {- (2 ^ 63)..<2 ^ 63}) \<longleftrightarrow> sint a < sint b"
proof -
  have "bit ((a XOR b) AND (a XOR (a - b))) 63 \<longleftrightarrow>
      (bit a 63 \<noteq> bit b 63) \<and> (bit a 63 \<noteq> bit (a - b) 63)"
    by (auto simp: bit_and_iff bit_xor_iff)
  then show "bit ((a XOR b) AND (a XOR (a - b))) 63 \<longleftrightarrow> sint a - sint b \<notin> {- (2 ^ 63)..<2 ^ 63}"
    using int_compare(1) [of "uint a" "uint b"] uint_range [of a] uint_range [of b]
    unfolding sint_top uint_top uint_minus word_less_def by blast
  show "(sint (a - b) < 0) \<noteq> (sint a - sint b \<notin> {- (2 ^ 63)..<2 ^ 63}) \<longleftrightarrow> sint a < sint b"
    using int_compare(2) [of "uint a" "uint b"] uint_range [of a] uint_range [of b]
    unfolding sint_top uint_top uint_minus word_less_def by blast
qed

text \<open>The four flags after a comparison.\<close>

lemma compare_flags:
  fixes a b :: u64 and rf :: register_file
  defines "f \<equiv> get_flags (update_flags_arith (a - b) a b True rf)"
  shows "bit f 0 \<longleftrightarrow> a < b" "bit f 6 \<longleftrightarrow> a = b" "bit f 7 \<longleftrightarrow> sint (a - b) < 0"
    "bit f 11 \<longleftrightarrow> sint a - sint b \<notin> {- (2 ^ 63)..<2 ^ 63}"
proof -
  have f: "f = (if a - b = 0 then 0x40 else 0) OR (if bit (a - b) 63 then 0x80 else 0) OR
      (if a < b then 0x01 else 0) OR (if bit ((a XOR b) AND (a XOR (a - b))) 63 then 0x0800 else 0)"
    by (simp only: f_def update_flags_arith_def get_flags_def set_flags_def Let_def if_True mask_top drop_top
        fun_upd_same) (simp split: if_split)
  have neg: "sint x < 0 \<longleftrightarrow> bit x 63" for x :: u64
    using uint_range [of x] by (simp add: sint_top uint_top)
  show "bit f 0 \<longleftrightarrow> a < b" "bit f 6 \<longleftrightarrow> a = b" "bit f 7 \<longleftrightarrow> sint (a - b) < 0"
    "bit f 11 \<longleftrightarrow> sint a - sint b \<notin> {- (2 ^ 63)..<2 ^ 63}"
    unfolding f neg sint_compare(1) [symmetric] by (simp_all add: bit_or_iff)
qed

text \<open>What the condition codes of the x86 conditional jumps mean after comparing \<open>a\<close> with \<open>b\<close>;
  0xA and 0xB, on parity, are never true here.\<close>

definition x86_condition :: "u8 \<Rightarrow> u64 \<Rightarrow> u64 \<Rightarrow> bool" where
  "x86_condition c a b \<longleftrightarrow>
     (if c = 0x0 then sint a - sint b \<notin> {- (2 ^ 63)..<2 ^ 63}
      else if c = 0x1 then sint a - sint b \<in> {- (2 ^ 63)..<2 ^ 63}
      else if c = 0x2 then a < b else if c = 0x3 then b \<le> a
      else if c = 0x4 then a = b else if c = 0x5 then a \<noteq> b
      else if c = 0x6 then a \<le> b else if c = 0x7 then b < a
      else if c = 0x8 then sint (a - b) < 0 else if c = 0x9 then 0 \<le> sint (a - b)
      else if c = 0xC then sint a < sint b else if c = 0xD then sint b \<le> sint a
      else if c = 0xE then sint a \<le> sint b else if c = 0xF then sint b < sint a
      else False)"

lemma jcc_after_compare:
  "jcc_taken (get_flags (update_flags_arith (a - b) a b True rf)) c \<longleftrightarrow> x86_condition c a b"
proof -
  let ?f = "get_flags (update_flags_arith (a - b) a b True rf)"
  note low = low_bit [of _ ?f] low_bit [of 0 ?f, simplified]
  have eq: "sint a = sint b \<longleftrightarrow> a = b" by (auto intro: signed_word_eqI)
  note fl = compare_flags [of a b rf]
  show ?thesis
    unfolding jcc_taken_def x86_condition_def Let_def low fl of_bool_eq_0_iff of_bool_eq_iff
    using sint_compare(2) [of a b] eq
    by (auto simp: le_less not_less split: if_split)
qed

section \<open>Divisions\<close>

text \<open>When an instruction cannot be executed.\<close>

definition division_fault :: "micro_op_inst \<Rightarrow> 'm executor \<Rightarrow> exec_error option" where
  "division_fault i s =
     (let divisor = regs_read (op_src1 i) (ex_regs s) in
      if op_code i = OpDivRR \<and> divisor = 0 then Some DivisionByZero
      else if op_code i = OpIdivRR \<and> divisor = 0 then Some SignedDivisionByZero
      else if op_code i = OpIdivRR \<and> divisor = - 1 \<and>
              regs_read RDX (ex_regs s) = i64_MIN \<and> regs_read RAX (ex_regs s) = 0
      then Some DivisionPanic else None)"

lemma bit_dividend:
  "bit (idiv_dividend hi lo) n \<longleftrightarrow> n < 128 \<and> (if n < 64 then bit lo n else bit lo 63 \<or> bit hi (n - 64))"
proof (cases "n < 128")
  case True
  then have "min 63 (n - 64) = n - 64" "n < 64 \<Longrightarrow> min 63 n = n" "\<not> n < 64 \<Longrightarrow> min 63 n = 63" by auto
  then show ?thesis
    using True by (simp add: idiv_dividend_def bit_or_iff bit_push_bit_iff bit_signed_iff) auto
next
  case False
  then show ?thesis using bit_imp_le_length [of "idiv_dividend hi lo" n] by auto
qed

lemma idiv_dividend_negative: "bit lo 63 \<Longrightarrow> idiv_dividend hi lo = scast lo"
proof (rule bit_word_eqI)
  fix n assume "bit lo 63" "n < LENGTH(128)"
  then show "bit (idiv_dividend hi lo) n \<longleftrightarrow> bit (scast lo :: 128 word) n"
    by (cases "n = 63") (auto simp: bit_dividend bit_signed_iff min_def)
qed

lemma idiv_overflow: "idiv_dividend hi lo = i128_MIN \<longleftrightarrow> hi = i64_MIN \<and> lo = 0"
proof
  have top: "bit i128_MIN n \<longleftrightarrow> n = 127" "bit i64_MIN n \<longleftrightarrow> n = 63" for n
    unfolding i128_MIN_def i64_MIN_def bit_push_bit_iff bit_1_iff by (auto simp: possible_bit_word)
  show "idiv_dividend hi lo = i128_MIN" if "hi = i64_MIN \<and> lo = 0"
    by (rule bit_word_eqI) (use that in \<open>auto simp: bit_dividend top\<close>)
  assume "idiv_dividend hi lo = i128_MIN"
  then have b: "bit (idiv_dividend hi lo) n \<longleftrightarrow> n = 127" for n by (simp add: top)
  have lo: "\<not> bit lo n" if "n < 64" for n using b [of n] that by (simp add: bit_dividend)
  have "bit hi n \<longleftrightarrow> n = 63" if "n < 64" for n
    using b [of "n + 64"] that lo [of 63] by (simp add: bit_dividend)
  with lo show "hi = i64_MIN \<and> lo = 0" by (auto intro!: bit_word_eqI simp: top)
qed

lemma execute_inst_error:
  "fst (execute_inst m i n s) = Inl e \<longleftrightarrow> division_fault i s = Some e"
  "division_fault i s = Some e \<Longrightarrow> snd (execute_inst m i n s) = s"
proof -
  have div: "execute_inst m i n s = (case div_rr (regs_read (op_src1 i) (ex_regs s)) s of
      (Some e, s) \<Rightarrow> (Inl e, s) | (None, s) \<Rightarrow> (Inr n, s))" if "op_code i = OpDivRR"
    by (simp add: execute_inst_def that Let_def split: prod.splits option.splits)
  have idiv: "execute_inst m i n s = (case idiv_rr (regs_read (op_src1 i) (ex_regs s)) s of
      (Some e, s) \<Rightarrow> (Inl e, s) | (None, s) \<Rightarrow> (Inr n, s))" if "op_code i = OpIdivRR"
    by (simp add: execute_inst_def that Let_def split: prod.splits option.splits)
  have ok: "\<exists>r. fst (execute_inst m i n s) = Inr r" if "op_code i \<noteq> OpDivRR" "op_code i \<noteq> OpIdivRR"
    using that by (cases "op_code i") (simp_all add: execute_inst_def Let_def split: prod.splits)
  show "fst (execute_inst m i n s) = Inl e \<longleftrightarrow> division_fault i s = Some e"
    using div idiv ok
    by (cases "op_code i = OpDivRR"; cases "op_code i = OpIdivRR")
      (auto simp: div_rr_def idiv_rr_def division_fault_def Let_def idiv_overflow split: if_splits)
  show "division_fault i s = Some e \<Longrightarrow> snd (execute_inst m i n s) = s"
    using div idiv
    by (auto simp: div_rr_def idiv_rr_def division_fault_def Let_def idiv_overflow split: if_splits)
qed

lemma execute_ops_error:
  "execute_ops m ops n s = (Inl e, s') \<Longrightarrow> \<exists>i\<in>set ops. division_fault i s' = Some e"
proof (induction ops arbitrary: n s)
  case (Cons i ops)
  show ?case
  proof (cases "fst (execute_inst m i n s)")
    case (Inl e')
    with execute_inst_error(1) [of m i n s e'] have f: "division_fault i s = Some e'" by simp
    from Inl Cons.prems execute_inst_error(2) [OF f, of m n] f show ?thesis
      by (cases "execute_inst m i n s") auto
  next
    case (Inr n')
    with Cons show ?thesis by (cases "execute_inst m i n s") (auto split: if_splits)
  qed
qed simp

section \<open>Properties\<close>

text \<open>C22: Comparing two operands and jumping decides exactly what the x86 condition says: for every
  condition code but those on parity, a block made of a comparison (of two registers, or of
  a register with an immediate) and a conditional jump leaves to the target if the unsigned
  or signed relation, or the sign or overflow of the difference, holds of the operands, and
  otherwise names no successor.\<close>

theorem dbt_compare_branch:
  fixes s :: "'m executor"
  assumes "tb_wf tb" "tb_ops tb = [i, j]"
    and "op_code i \<in> {OpCmpRR, OpCmpRI}" "op_code j = OpJccRel"
  defines "a \<equiv> regs_read (op_src1 i) (ex_regs s)"
    and "b \<equiv> if op_code i = OpCmpRR then regs_read (op_src2 i) (ex_regs s) else op_immediate i"
  shows "fst (execute_block m tb s) =
    Inr (if x86_condition (reg_num (op_src2 j)) a b
         then Some (regs_read RAX (ex_regs s) + op_immediate j) else None)"
proof -
  have cmp: "execute_inst m i None s = (Inr None, on_regs (update_flags_arith (a - b) a b True) s)"
    using assms(3) by (elim insertE emptyE) (simp_all add: execute_inst_def Let_def a_def b_def)
  have "regs_read RAX (update_flags_arith (a - b) a b True rf) = regs_read RAX rf" for rf
    by (simp add: update_flags_arith_def Let_def regs_read_def set_flags_def)
  moreover have "\<not> is_terminator (op_code i)" using assms(3) by (auto simp: is_terminator_def)
  moreover have "is_terminator (op_code j)" using assms(4) by (simp add: is_terminator_def)
  ultimately show ?thesis
    unfolding execute_block_ops [OF assms(1)] assms(2)
    by (simp add: cmp) (simp add: execute_inst_def Let_def assms(4) on_regs_def jcc_after_compare)
qed

definition no_memory :: "unit memory_hooks" where
  "no_memory = \<lparr>memory_read = None, memory_write = None\<rparr>"

definition start_state :: "unit executor" where
  "start_state = \<lparr>ex_regs = regs_new, ex_mem = ()\<rparr>"

definition cmp_block :: translation_block where
  "cmp_block = snd (tb_push (micro_op_new OpJccRel RNone RNone R12 0x10)
     (snd (tb_push (micro_op_new OpCmpRI RNone RCX RNone 3) (tb_new 0x1000))))"

lemma cmp_block_ops:
  "tb_wf cmp_block"
  "tb_ops cmp_block = [micro_op_new OpCmpRI RNone RCX RNone 3, micro_op_new OpJccRel RNone RNone R12 0x10]"
  by (simp_all add: cmp_block_def tb_push_def tb_new_def tb_wf_def tb_ops_def Let_def
      MAX_MICRO_OPS_PER_BLOCK_def take_Suc_conv_app_nth numeral_2_eq_2)

theorem dbt_compare_branch_witness:
  "fst (execute_block no_memory cmp_block \<lparr>ex_regs = (\<lambda>_. 0)(RCX := - 1, RAX := 0x1000), ex_mem = ()\<rparr>) =
     Inr (Some 0x1010)"
proof -
  have "op_code (micro_op_new OpCmpRI RNone RCX RNone 3) \<in> {OpCmpRR, OpCmpRI}"
    "op_code (micro_op_new OpJccRel RNone RNone R12 0x10) = OpJccRel"
    by (simp_all add: micro_op_new_def)
  from dbt_compare_branch [OF cmp_block_ops this, of no_memory
      "\<lparr>ex_regs = (\<lambda>_. 0)(RCX := - 1, RAX := 0x1000), ex_mem = ()\<rparr>"]
  show ?thesis by (simp add: micro_op_new_def x86_condition_def regs_read_def)
qed

text \<open>C23: A block fails only at a division: when \<open>execute_block\<close> returns an error or panics, the state
  it leaves is the one before one of the block's DIV or IDIV instructions whose divisor, in
  that state, is zero, or, for IDIV, whose dividend is the smallest 128-bit number and whose
  divisor is -1. No other instruction, and no access to memory, ever fails.\<close>

theorem dbt_errors:
  assumes "tb_wf tb" "execute_block m tb s = (Inl e, s')"
  shows "\<exists>k < tb_micro_op_count tb. division_fault (tb_micro_ops tb ! k) s' = Some e"
proof -
  have "execute_ops m (tb_ops tb) None s = (Inl e, s')"
    using assms by (simp add: execute_block_ops)
  then obtain i where "i \<in> set (tb_ops tb)" "division_fault i s' = Some e"
    using execute_ops_error by blast
  then show ?thesis
    using assms(1) by (auto simp: in_set_conv_nth)
qed

definition div_block :: translation_block where
  "div_block = snd (tb_push (micro_op_new OpDivRR RNone RBX RNone 0) (tb_new 0))"

theorem dbt_errors_witness:
  "case execute_block no_memory div_block start_state of
     (r, s') \<Rightarrow> r = Inl DivisionByZero \<and> division_fault (tb_micro_ops div_block ! 0) s' = Some DivisionByZero"
proof -
  have wf: "tb_wf div_block" "tb_ops div_block = [micro_op_new OpDivRR RNone RBX RNone 0]"
    "tb_micro_op_count div_block = 1"
    by (simp_all add: div_block_def tb_push_def tb_new_def tb_wf_def tb_ops_def Let_def
        MAX_MICRO_OPS_PER_BLOCK_def take_Suc_conv_app_nth)
  have e: "execute_block no_memory div_block start_state = (Inl DivisionByZero, start_state)"
    by (simp add: start_state_def execute_block_ops wf execute_inst_def Let_def micro_op_new_def regs_read_def regs_new_def div_rr_def)
  from dbt_errors [OF wf(1) e] show ?thesis unfolding e by (simp add: wf(3))
qed

text \<open>IDIV takes its dividend from RAX alone whenever bit 63 of RAX is set: the high half in RDX,
  which then is OR-ed with the sign extension of the low half, has no influence. So a positive
  128-bit dividend of 2^63 or more divides as a negative number.\<close>

theorem idiv_ignores_high_half:
  assumes "bit lo 63" "d \<noteq> 0"
  shows "idiv_rr d \<lparr>ex_regs = rf(RAX := lo, RDX := hi), ex_mem = mem\<rparr> =
    (None, \<lparr>ex_regs = rf(RAX := word_of_int (sint lo sdiv sint d), RDX := word_of_int (sint lo smod sint d)),
            ex_mem = mem\<rparr>)"
proof -
  have "idiv_dividend hi lo \<noteq> i128_MIN" using assms(1) by (auto simp: idiv_overflow)
  moreover have "sint (scast lo :: 128 word) = sint lo"
    by (simp add: signed_scast_eq signed_take_bit_int_eq_self_iff) (use sint_range_size [of lo] in \<open>simp add: word_size\<close>)
  ultimately show ?thesis
    using assms(2)
    by (simp add: idiv_rr_def regs_read_def regs_write_def Let_def idiv_dividend_negative [OF assms(1)] on_regs_def
        fun_upd_twist)
qed

end
