(* ===== verification/DbtOptimizer.thy ===== *)
theory DbtOptimizer
  imports DbtExecutor
begin

text \<open>
  The optimiser of a translation block, \<open>dbt/optimizer.rs\<close>: two loops that remove instructions
  in place, each with an index that only moves on when nothing was removed. As lists, the
  first is a filter, the second drops the second of two mirrored moves (\<open>opt_refines\<close>).
\<close>

section \<open>The two loops\<close>

definition redundant :: "micro_op_inst \<Rightarrow> bool" where
  "redundant i \<longleftrightarrow> op_code i = OpNop \<or> op_code i = OpMovRR \<and> op_dst i = op_src1 i"

definition mirrored :: "micro_op_inst \<Rightarrow> micro_op_inst \<Rightarrow> bool" where
  "mirrored i j \<longleftrightarrow> op_code i = OpMovRR \<and> op_code j = OpMovRR \<and>
     op_dst i = op_src1 j \<and> op_src1 i = op_dst j"

lemma remove_count: "i < tb_micro_op_count tb \<Longrightarrow> tb_micro_op_count (tb_remove i tb) = tb_micro_op_count tb - 1"
  by (simp add: tb_remove_def Let_def)

function opt_pass1 :: "nat \<Rightarrow> translation_block \<Rightarrow> translation_block" where
  "opt_pass1 i tb =
     (if i < tb_micro_op_count tb then
        (if redundant (tb_micro_ops tb ! i) then opt_pass1 i (tb_remove i tb) else opt_pass1 (i + 1) tb)
      else tb)"
  by pat_completeness auto
termination
  by (relation "measure (\<lambda>(i, tb). tb_micro_op_count tb - i)") (auto simp: remove_count)

function opt_pass2 :: "nat \<Rightarrow> translation_block \<Rightarrow> translation_block" where
  "opt_pass2 i tb =
     (if i < tb_micro_op_count tb - 1 then
        (if mirrored (tb_micro_ops tb ! i) (tb_micro_ops tb ! (i + 1))
         then opt_pass2 i (tb_remove (i + 1) tb) else opt_pass2 (i + 1) tb)
      else tb)"
  by pat_completeness auto
termination
  by (relation "measure (\<lambda>(i, tb). tb_micro_op_count tb - i)") (auto simp: remove_count)

declare opt_pass1.simps [simp del] opt_pass2.simps [simp del]

definition optimize_block :: "translation_block \<Rightarrow> translation_block" where
  "optimize_block tb =
     (let tb = opt_pass1 0 tb in if tb_micro_op_count tb > 1 then opt_pass2 0 tb else tb)"

section \<open>The block as a list\<close>

fun drop_mirrored :: "micro_op_inst list \<Rightarrow> micro_op_inst list" where
  "drop_mirrored (i # j # ops) =
     (if mirrored i j then drop_mirrored (i # ops) else i # drop_mirrored (j # ops))"
| "drop_mirrored ops = ops"

lemma pass1_refines:
  assumes "tb_wf tb" "i \<le> tb_micro_op_count tb"
  shows "tb_wf (opt_pass1 i tb) \<and>
    tb_ops (opt_pass1 i tb) = take i (tb_ops tb) @ filter (\<lambda>u. \<not> redundant u) (drop i (tb_ops tb))"
  using assms
proof (induction i tb rule: opt_pass1.induct)
  case (1 i tb)
  show ?case
  proof (cases "i < tb_micro_op_count tb")
    case True
    have d: "drop i (tb_ops tb) = tb_micro_ops tb ! i # drop (Suc i) (tb_ops tb)"
      using 1(3) True by (simp flip: Cons_nth_drop_Suc)
    have t: "take (Suc i) (tb_ops tb) = take i (tb_ops tb) @ [tb_micro_ops tb ! i]"
      using 1(3) True by (simp add: take_Suc_conv_app_nth)
    note rm = tb_remove_ops [OF 1(3) True]
    have len: "length (take i (tb_ops tb)) = i" using 1(3) True by simp
    show ?thesis
    proof (cases "redundant (tb_micro_ops tb ! i)")
      case red: True
      have "tb_wf (opt_pass1 i (tb_remove i tb)) \<and> tb_ops (opt_pass1 i (tb_remove i tb)) =
          take i (tb_ops (tb_remove i tb)) @ filter (\<lambda>u. \<not> redundant u) (drop i (tb_ops (tb_remove i tb)))"
        using rm True by (intro 1(1) [OF True red]) simp_all
      then show ?thesis
        using True red len by (subst (1 2) opt_pass1.simps) (simp add: rm d)
    next
      case False
      have "tb_wf (opt_pass1 (i + 1) tb) \<and> tb_ops (opt_pass1 (i + 1) tb) =
          take (i + 1) (tb_ops tb) @ filter (\<lambda>u. \<not> redundant u) (drop (i + 1) (tb_ops tb))"
        using 1(3) True by (intro 1(2) [OF True False]) simp_all
      then show ?thesis
        using True False by (subst (1 2) opt_pass1.simps) (simp add: d t)
    qed
  next
    case False
    then show ?thesis using 1(3,4) by (subst (1 2) opt_pass1.simps) simp
  qed
qed

lemma pass2_refines:
  assumes "tb_wf tb" "i \<le> tb_micro_op_count tb"
  shows "tb_wf (opt_pass2 i tb) \<and>
    tb_ops (opt_pass2 i tb) = take i (tb_ops tb) @ drop_mirrored (drop i (tb_ops tb))"
  using assms
proof (induction i tb rule: opt_pass2.induct)
  case (1 i tb)
  show ?case
  proof (cases "i < tb_micro_op_count tb - 1")
    case True
    then have i: "i < tb_micro_op_count tb" "Suc i < tb_micro_op_count tb" by simp_all
    let ?u = "tb_micro_ops tb ! i" and ?v = "tb_micro_ops tb ! (i + 1)"
    have d: "drop i (tb_ops tb) = ?u # ?v # drop (Suc (Suc i)) (tb_ops tb)"
      using 1(3) i by (simp flip: Cons_nth_drop_Suc)
    have t: "take (Suc i) (tb_ops tb) = take i (tb_ops tb) @ [?u]"
      using 1(3) i by (simp add: take_Suc_conv_app_nth)
    have len: "length (take i (tb_ops tb)) = i" using 1(3) i by simp
    note rm = tb_remove_ops [OF 1(3) i(2)]
    show ?thesis
    proof (cases "mirrored ?u ?v")
      case mir: True
      have "tb_wf (opt_pass2 i (tb_remove (i + 1) tb)) \<and> tb_ops (opt_pass2 i (tb_remove (i + 1) tb)) =
          take i (tb_ops (tb_remove (i + 1) tb)) @ drop_mirrored (drop i (tb_ops (tb_remove (i + 1) tb)))"
        using rm i by (intro 1(1) [OF True mir]) simp_all
      then show ?thesis
        using True mir len by (subst (1 2) opt_pass2.simps) (simp add: rm t d)
    next
      case False
      have "tb_wf (opt_pass2 (i + 1) tb) \<and> tb_ops (opt_pass2 (i + 1) tb) =
          take (i + 1) (tb_ops tb) @ drop_mirrored (drop (i + 1) (tb_ops tb))"
        using 1(3) i by (intro 1(2) [OF True False]) simp_all
      moreover have "drop (i + 1) (tb_ops tb) = ?v # drop (Suc (Suc i)) (tb_ops tb)"
        using d by (metis Suc_eq_plus1 drop_Suc tl_drop list.sel(3))
      ultimately show ?thesis
        using True False by (subst (1 2) opt_pass2.simps) (simp add: d t)
    qed
  next
    case False
    then have "length (drop i (tb_ops tb)) \<le> 1" using 1(3) by simp
    then have "drop_mirrored (drop i (tb_ops tb)) = drop i (tb_ops tb)"
      by (cases "drop i (tb_ops tb)" rule: drop_mirrored.cases) simp_all
    then show ?thesis using 1(3) False by (subst (1 2) opt_pass2.simps) simp
  qed
qed

theorem opt_refines:
  assumes "tb_wf tb"
  shows "tb_wf (optimize_block tb)"
    and "tb_ops (optimize_block tb) = drop_mirrored (filter (\<lambda>u. \<not> redundant u) (tb_ops tb))"
proof -
  have p1: "tb_wf (opt_pass1 0 tb)" "tb_ops (opt_pass1 0 tb) = filter (\<lambda>u. \<not> redundant u) (tb_ops tb)"
    using pass1_refines [OF assms, of 0] by simp_all
  have p2: "tb_wf (opt_pass2 0 (opt_pass1 0 tb))"
    "tb_ops (opt_pass2 0 (opt_pass1 0 tb)) = drop_mirrored (tb_ops (opt_pass1 0 tb))"
    using pass2_refines [OF p1(1), of 0] by simp_all
  have "drop_mirrored ops = ops" if "length ops \<le> 1" for ops
    using that by (cases ops rule: drop_mirrored.cases) simp_all
  then show "tb_wf (optimize_block tb)"
    "tb_ops (optimize_block tb) = drop_mirrored (filter (\<lambda>u. \<not> redundant u) (tb_ops tb))"
    using p1 p2 tb_ops_length [OF p1(1)] by (auto simp: optimize_block_def Let_def)
qed

section \<open>What the removed instructions do\<close>

lemma execute_move:
  "op_code i = OpMovRR \<Longrightarrow>
     execute_inst m i n s = (Inr n, on_regs (\<lambda>rf. regs_write (op_dst i) (regs_read (op_src1 i) rf) rf) s)"
  by (simp add: execute_inst_def Let_def on_regs_def)

lemma write_own [simp]: "regs_write r (regs_read r rf) rf = rf"
  by (simp add: regs_write_def regs_read_def)

lemma execute_redundant: "redundant i \<Longrightarrow> execute_ops m (i # ops) n s = execute_ops m ops n s"
  by (auto simp: redundant_def execute_move on_regs_def is_terminator_def execute_inst_def [of m i])

lemma execute_filter: "execute_ops m (filter (\<lambda>u. \<not> redundant u) ops) n s = execute_ops m ops n s"
proof (induction ops arbitrary: n s)
  case (Cons i ops)
  show ?case
  proof (cases "redundant i")
    case True
    then show ?thesis using Cons by (simp del: execute_ops.simps add: execute_redundant)
  next
    case False
    then show ?thesis using Cons by (simp split: prod.splits sum.splits)
  qed
qed simp

lemma execute_mirrored:
  assumes "mirrored i j" "op_dst i \<noteq> RNone"
  shows "execute_ops m (i # j # ops) n s = execute_ops m (i # ops) n s"
proof -
  have "regs_write b (regs_read a (regs_write a (regs_read b rf) rf)) (regs_write a (regs_read b rf) rf) =
      regs_write a (regs_read b rf) rf" if "a \<noteq> RNone" for a b rf
    using that by (auto simp: regs_write_def regs_read_def)
  then show ?thesis
    using assms by (auto simp: mirrored_def execute_move on_regs_def is_terminator_def)
qed

lemma execute_drop_mirrored:
  assumes "\<And>i. i \<in> set ops \<Longrightarrow> op_code i = OpMovRR \<Longrightarrow> op_dst i \<noteq> RNone"
  shows "execute_ops m (drop_mirrored ops) n s = execute_ops m ops n s"
  using assms
proof (induction ops arbitrary: n s rule: drop_mirrored.induct)
  case (1 i j ops)
  show ?case
  proof (cases "mirrored i j")
    case True
    then have "op_dst i \<noteq> RNone" using 1(3) [of i] by (auto simp: mirrored_def)
    then have "execute_ops m (i # j # ops) n s = execute_ops m (i # ops) n s"
      by (rule execute_mirrored [OF True])
    moreover have "execute_ops m (drop_mirrored (i # ops)) n s = execute_ops m (i # ops) n s"
      using 1(3) by (intro 1(1) [OF True]) auto
    ultimately show ?thesis by (simp only: drop_mirrored.simps True if_True)
  next
    case False
    then have "execute_ops m (drop_mirrored (j # ops)) n' s' = execute_ops m (j # ops) n' s'" for n' s'
      using 1 by simp
    then show ?thesis using False by (simp only: drop_mirrored.simps if_False execute_ops.simps(2))
  qed
qed simp_all

lemma optimize_equiv:
  assumes "tb_wf tb"
    and "\<And>i. i \<in> set (tb_ops tb) \<Longrightarrow> op_code i = OpMovRR \<Longrightarrow> op_dst i = RNone \<Longrightarrow> op_src1 i = RNone"
  shows "execute_block m (optimize_block tb) s = execute_block m tb s"
proof -
  let ?ops = "filter (\<lambda>u. \<not> redundant u) (tb_ops tb)"
  have "op_dst i \<noteq> RNone" if "i \<in> set ?ops" "op_code i = OpMovRR" for i
    using that assms(2) by (auto simp: redundant_def)
  then have "execute_ops m (drop_mirrored ?ops) None s = execute_ops m ?ops None s"
    by (rule execute_drop_mirrored)
  then show ?thesis
    using assms(1) opt_refines [OF assms(1)] by (simp add: execute_block_ops execute_filter)
qed

section \<open>Properties\<close>

text \<open>C20: The optimiser preserves what a block does: in a block in which every move into \<open>RNone\<close> comes
  from \<open>RNone\<close>, the optimised block is no longer, holds no Nop and no move of a register to
  itself, and returns the same result and leaves the same registers and memory as the block
  itself, for every memory and every start, errors included.\<close>

theorem optimize_preserves:
  assumes "tb_wf tb"
    and "\<forall>i\<in>set (tb_ops tb). op_code i = OpMovRR \<and> op_dst i = RNone \<longrightarrow> op_src1 i = RNone"
  shows "execute_block m (optimize_block tb) s = execute_block m tb s
    \<and> length (tb_ops (optimize_block tb)) \<le> length (tb_ops tb)
    \<and> (\<forall>i\<in>set (tb_ops (optimize_block tb)). \<not> redundant i)"
proof (intro conjI)
  let ?ops = "filter (\<lambda>u. \<not> redundant u) (tb_ops tb)"
  note opt = opt_refines [OF assms(1)]
  show "execute_block m (optimize_block tb) s = execute_block m tb s"
    using assms by (intro optimize_equiv) auto
  have len: "length (drop_mirrored ops) \<le> length ops" for ops
    by (induction ops rule: drop_mirrored.induct) auto
  have sub: "set (drop_mirrored ops) \<subseteq> set ops" for ops
    by (induction ops rule: drop_mirrored.induct) auto
  show "length (tb_ops (optimize_block tb)) \<le> length (tb_ops tb)"
    unfolding opt(2) using len [of ?ops] length_filter_le [of "\<lambda>u. \<not> redundant u" "tb_ops tb"] by linarith
  show "\<forall>i\<in>set (tb_ops (optimize_block tb)). \<not> redundant i"
    unfolding opt(2) using sub [of ?ops] by auto
qed

definition move_block :: "dbt_register \<Rightarrow> dbt_register \<Rightarrow> translation_block" where
  "move_block a b = snd (tb_push (micro_op_new OpMovRR b a RNone 0)
     (snd (tb_push (micro_op_new OpMovRR a b RNone 0) (tb_new 0))))"

lemma move_block_ops:
  "tb_wf (move_block a b)"
  "tb_ops (move_block a b) = [micro_op_new OpMovRR a b RNone 0, micro_op_new OpMovRR b a RNone 0]"
  by (simp_all add: move_block_def tb_push_def tb_new_def tb_wf_def tb_ops_def Let_def
      MAX_MICRO_OPS_PER_BLOCK_def take_Suc_conv_app_nth numeral_2_eq_2)

theorem optimize_preserves_witness:
  "execute_block no_memory (optimize_block (move_block RBX RCX)) start_state =
     execute_block no_memory (move_block RBX RCX) start_state \<and>
   length (tb_ops (optimize_block (move_block RBX RCX))) \<le> 2"
proof -
  have "\<forall>i\<in>set (tb_ops (move_block RBX RCX)). op_code i = OpMovRR \<and> op_dst i = RNone \<longrightarrow> op_src1 i = RNone"
    by (simp add: move_block_ops micro_op_new_def)
  from optimize_preserves [OF move_block_ops(1) this, of no_memory start_state] show ?thesis
    by (simp add: move_block_ops numeral_2_eq_2)
qed

text \<open>The condition on \<open>RNone\<close> is needed. A register the decoder does not know, a segment register
  say, is \<open>RNone\<close>, which reads as 0; of \<open>mov ds, ax; mov ax, ds\<close> the optimiser drops the second
  move, so RAX keeps its value, where the block itself clears it.\<close>

theorem optimize_null_move:
  "ex_regs (snd (execute_block m (optimize_block (move_block RNone RAX)) s)) RAX = ex_regs s RAX"
  "ex_regs (snd (execute_block m (move_block RNone RAX) s)) RAX = 0"
  by (simp_all add: execute_block_ops opt_refines move_block_ops redundant_def mirrored_def micro_op_new_def
      execute_move is_terminator_def on_regs_def regs_write_def regs_read_def)

end
