(* ===== verification/DbtTranslator.thy ===== *)
theory DbtTranslator
  imports DbtOptimizer
begin

text \<open>
  The translator from x86 to micro-operations, \<open>dbt/decoder.rs\<close> and \<open>dbt/translator.rs\<close>. The
  decoder is the crate \<open>iced_x86\<close>: an instruction is a record of what the code asks of it,
  and the decoder a list, the instructions it would yield from the bytes. Of the crate's
  enumerations the names used here are constructors; all others are \<open>Other\<close>. \<open>num\<close> gives the
  discriminant of a mnemonic.
\<close>

section \<open>What the decoder yields\<close>

datatype (plugins only: size) iced_register =
    IcedRAX | IcedEAX | IcedAX | IcedAL | IcedAH | IcedRCX | IcedECX | IcedCX | IcedCL |
    IcedCH | IcedRDX | IcedEDX | IcedDX | IcedDL | IcedDH | IcedRBX | IcedEBX | IcedBX |
    IcedBL | IcedBH | IcedRSP | IcedESP | IcedSP | IcedSPL | IcedRBP | IcedEBP | IcedBP |
    IcedBPL | IcedRSI | IcedESI | IcedSI | IcedSIL | IcedRDI | IcedEDI | IcedDI | IcedDIL |
    IcedR8 | IcedR8D | IcedR8W | IcedR8L | IcedR9 | IcedR9D | IcedR9W | IcedR9L | IcedR10 |
    IcedR10D | IcedR10W | IcedR10L | IcedR11 | IcedR11D | IcedR11W | IcedR11L | IcedR12 |
    IcedR12D | IcedR12W | IcedR12L | IcedR13 | IcedR13D | IcedR13W | IcedR13L | IcedR14 |
    IcedR14D | IcedR14W | IcedR14L | IcedR15 | IcedR15D | IcedR15W | IcedR15L | IcedOther nat

datatype (plugins only: size) mnemonic =
    MnJmp | MnJo | MnJno | MnJb | MnJae | MnJe | MnJne | MnJbe | MnJa | MnJs | MnJns | MnJp |
    MnJnp | MnJl | MnJge | MnJle | MnJg | MnCall | MnRet | MnIret | MnHlt | MnSeta | MnSetae |
    MnSetb | MnSetbe | MnSetc | MnSetnc | MnSete | MnSetne | MnSetg | MnSetge | MnSetl |
    MnSetle | MnSeto | MnSetno | MnSets | MnSetns | MnSetp | MnSetnp | MnNop | MnMov |
    MnMovzx | MnMovsx | MnMovsxd | MnAdd | MnSub | MnCmp | MnAnd | MnOr | MnXor | MnShl |
    MnSal | MnShr | MnSar | MnRol | MnRor | MnPush | MnPop | MnInc | MnDec | MnRetf | MnCli |
    MnSti | MnOther nat

datatype op_kind =
    KRegister | KMemory | KImmediate8 | KImmediate16 | KImmediate32 | KImmediate64 |
    KImmediate8to16 | KImmediate8to32 | KImmediate8to64 | KImmediate32to64 | KOther nat

record iced_instruction =
  ii_mnemonic :: mnemonic
  ii_op0_kind :: op_kind
  ii_op1_kind :: op_kind
  ii_op0_register :: iced_register
  ii_op1_register :: iced_register
  ii_immediate64 :: u64
  ii_near_branch64 :: u64
  ii_memory_base :: iced_register
  ii_memory_displacement64 :: u64
  ii_len :: nat

definition map_register :: "iced_register \<Rightarrow> dbt_register" where
  "map_register r =
     (case r of
        IcedRAX \<Rightarrow> RAX | IcedEAX \<Rightarrow> RAX | IcedAX \<Rightarrow> RAX
      | IcedAL \<Rightarrow> RAX | IcedAH \<Rightarrow> RAX
      | IcedRCX \<Rightarrow> RCX | IcedECX \<Rightarrow> RCX | IcedCX \<Rightarrow> RCX
      | IcedCL \<Rightarrow> RCX | IcedCH \<Rightarrow> RCX
      | IcedRDX \<Rightarrow> RDX | IcedEDX \<Rightarrow> RDX | IcedDX \<Rightarrow> RDX
      | IcedDL \<Rightarrow> RDX | IcedDH \<Rightarrow> RDX
      | IcedRBX \<Rightarrow> RBX | IcedEBX \<Rightarrow> RBX | IcedBX \<Rightarrow> RBX
      | IcedBL \<Rightarrow> RBX | IcedBH \<Rightarrow> RBX
      | IcedRSP \<Rightarrow> RSP | IcedESP \<Rightarrow> RSP | IcedSP \<Rightarrow> RSP
      | IcedSPL \<Rightarrow> RSP
      | IcedRBP \<Rightarrow> RBP | IcedEBP \<Rightarrow> RBP | IcedBP \<Rightarrow> RBP
      | IcedBPL \<Rightarrow> RBP
      | IcedRSI \<Rightarrow> RSI | IcedESI \<Rightarrow> RSI | IcedSI \<Rightarrow> RSI
      | IcedSIL \<Rightarrow> RSI
      | IcedRDI \<Rightarrow> RDI | IcedEDI \<Rightarrow> RDI | IcedDI \<Rightarrow> RDI
      | IcedDIL \<Rightarrow> RDI
      | IcedR8 \<Rightarrow> R8 | IcedR8D \<Rightarrow> R8 | IcedR8W \<Rightarrow> R8
      | IcedR8L \<Rightarrow> R8
      | IcedR9 \<Rightarrow> R9 | IcedR9D \<Rightarrow> R9 | IcedR9W \<Rightarrow> R9
      | IcedR9L \<Rightarrow> R9
      | IcedR10 \<Rightarrow> R10 | IcedR10D \<Rightarrow> R10 | IcedR10W \<Rightarrow> R10
      | IcedR10L \<Rightarrow> R10
      | IcedR11 \<Rightarrow> R11 | IcedR11D \<Rightarrow> R11 | IcedR11W \<Rightarrow> R11
      | IcedR11L \<Rightarrow> R11
      | IcedR12 \<Rightarrow> R12 | IcedR12D \<Rightarrow> R12 | IcedR12W \<Rightarrow> R12
      | IcedR12L \<Rightarrow> R12
      | IcedR13 \<Rightarrow> R13 | IcedR13D \<Rightarrow> R13 | IcedR13W \<Rightarrow> R13
      | IcedR13L \<Rightarrow> R13
      | IcedR14 \<Rightarrow> R14 | IcedR14D \<Rightarrow> R14 | IcedR14W \<Rightarrow> R14
      | IcedR14L \<Rightarrow> R14
      | IcedR15 \<Rightarrow> R15 | IcedR15D \<Rightarrow> R15 | IcedR15W \<Rightarrow> R15
      | IcedR15L \<Rightarrow> R15
      | _ \<Rightarrow> RNone)"

definition is_r8_or_above :: "dbt_register \<Rightarrow> bool" where
  "is_r8_or_above r \<longleftrightarrow> reg_num r \<ge> 8 \<and> reg_num r \<le> 15"

definition has_vex_prefix :: "u8 list \<Rightarrow> bool" where
  "has_vex_prefix bytes = (if bytes = [] then False else bytes ! 0 = 0xC5 \<or> bytes ! 0 = 0xC4)"

definition has_evex_prefix :: "u8 list \<Rightarrow> bool" where
  "has_evex_prefix bytes = (if bytes = [] then False else bytes ! 0 = 0x62)"

section \<open>One instruction\<close>

definition is_branch_or_ret :: "mnemonic \<Rightarrow> bool" where
  "is_branch_or_ret m \<longleftrightarrow>
     m \<in> {MnJmp, MnJo, MnJno, MnJb, MnJae, MnJe, MnJne, MnJbe, MnJa, MnJs, MnJns, MnJp, MnJnp,
          MnJl, MnJge, MnJle, MnJg, MnCall, MnRet, MnIret, MnHlt}"

definition is_jcc :: "mnemonic \<Rightarrow> bool" where
  "is_jcc m \<longleftrightarrow>
     m \<in> {MnJo, MnJno, MnJb, MnJae, MnJe, MnJne, MnJbe, MnJa, MnJs, MnJns, MnJp, MnJnp, MnJl,
          MnJge, MnJle, MnJg}"

definition is_setcc :: "mnemonic \<Rightarrow> bool" where
  "is_setcc m \<longleftrightarrow>
     m \<in> {MnSeta, MnSetae, MnSetb, MnSetbe, MnSetc, MnSetnc, MnSete, MnSetne, MnSetg, MnSetge,
          MnSetl, MnSetle, MnSeto, MnSetno, MnSets, MnSetns, MnSetp, MnSetnp}"

definition is_imm :: "op_kind \<Rightarrow> bool" where
  "is_imm k \<longleftrightarrow>
     k \<in> {KImmediate8, KImmediate16, KImmediate32, KImmediate64, KImmediate8to16, KImmediate8to32,
          KImmediate8to64, KImmediate32to64}"

definition translate_mov :: "iced_instruction \<Rightarrow> micro_op_inst list" where
  "translate_mov inst =
     (let dk = ii_op0_kind inst; sk = ii_op1_kind inst; dst = map_register (ii_op0_register inst);
          src = map_register (ii_op1_register inst); base = map_register (ii_memory_base inst);
          imm = ii_immediate64 inst; disp = ii_memory_displacement64 inst in
      if dk = KRegister \<and> sk = KRegister then [with_size 8 (micro_op_new OpMovRR dst src RNone 0)]
      else if dk = KRegister \<and> is_imm sk then [with_size 8 (micro_op_new OpMovRI dst RNone RNone imm)]
      else if dk = KRegister \<and> sk = KMemory then [with_size 8 (micro_op_new OpMovRM dst base RNone disp)]
      else if dk = KMemory \<and> sk = KRegister then [with_size 8 (micro_op_new OpMovMR base src RNone disp)]
      else if dk = KMemory \<and> is_imm sk then [with_size 8 (micro_op_new OpMovMI base RNone RNone imm)]
      else [])"

definition translate_binary ::
  "iced_instruction \<Rightarrow> micro_op_code \<Rightarrow> micro_op_code \<Rightarrow> micro_op_inst list" where
  "translate_binary inst rr_code ri_code =
     (let dk = ii_op0_kind inst; sk = ii_op1_kind inst; dst = map_register (ii_op0_register inst);
          src = map_register (ii_op1_register inst) in
      if dk = KRegister \<and> sk = KRegister then [with_size 8 (micro_op_new rr_code dst dst src 0)]
      else if dk = KRegister \<and> is_imm sk
      then [with_size 8 (micro_op_new ri_code dst dst RNone (ii_immediate64 inst))]
      else [])"

text \<open>The result type of the source has an error, which no case produces.\<close>

definition translate_instruction :: "(mnemonic \<Rightarrow> u64) \<Rightarrow> iced_instruction \<Rightarrow> micro_op_inst list" where
  "translate_instruction num inst =
     (let m = ii_mnemonic inst; op0 = map_register (ii_op0_register inst);
          op1 = map_register (ii_op1_register inst); imm = ii_immediate64 inst;
          target = ii_near_branch64 inst; plain = (\<lambda>c. [micro_op_new c RNone RNone RNone 0]) in
      if m = MnNop then plain OpNop
      else if m = MnMov then translate_mov inst
      else if m = MnMovzx then [with_size 8 (micro_op_new OpMovzxRR op0 op1 RNone 0)]
      else if m = MnMovsx then [with_size 8 (micro_op_new OpMovsxRR op0 op1 RNone 0)]
      else if m = MnMovsxd then [with_size 8 (micro_op_new OpMovsxd op0 op1 RNone 0)]
      else if m = MnAdd then translate_binary inst OpAddRR OpAddRI
      else if m = MnSub then translate_binary inst OpSubRR OpSubRI
      else if m = MnCmp then translate_binary inst OpCmpRR OpCmpRI
      else if m = MnAnd then translate_binary inst OpAndRR OpAndRR
      else if m = MnOr then translate_binary inst OpOrRR OpOrRR
      else if m = MnXor then translate_binary inst OpXorRR OpXorRR
      else if m = MnShl \<or> m = MnSal then translate_binary inst OpShlRR OpShlRR
      else if m = MnShr then translate_binary inst OpShrRR OpShrRR
      else if m = MnSar then translate_binary inst OpSarRR OpSarRR
      else if m = MnRol then [with_size 8 (micro_op_new OpRolRI op0 op0 RNone imm)]
      else if m = MnRor then [with_size 8 (micro_op_new OpRorRI op0 op0 RNone imm)]
      else if m = MnPush then [with_size 8 (micro_op_new OpPushR RNone op0 RNone 0)]
      else if m = MnPop then [with_size 8 (micro_op_new OpPopR op0 RNone RNone 0)]
      else if m = MnInc then [with_size 8 (micro_op_new OpIncR op0 op0 RNone 0)]
      else if m = MnDec then [with_size 8 (micro_op_new OpDecR op0 op0 RNone 0)]
      else if m = MnJmp then
        (if ii_op0_kind inst = KRegister then [micro_op_new OpJmpAbs RNone op0 RNone 0]
         else [micro_op_new OpJmpRel RNone RNone RNone target])
      else if is_jcc m then [micro_op_new OpJccRel RNone RNone RNone target]
      else if is_setcc m then [with_size 8 (micro_op_new OpSetcc op0 RNone RNone (num m))]
      else if m = MnCall then
        (if ii_op0_kind inst = KRegister then [micro_op_new OpCallAbs RNone op0 RNone 0]
         else [micro_op_new OpCallRel RNone RNone RNone target])
      else if m = MnRet \<or> m = MnRetf then plain OpRet
      else if m = MnHlt then plain OpHlt
      else if m = MnCli then plain OpCli
      else if m = MnSti then plain OpSti
      else plain OpNop)"

section \<open>A block\<close>

fun push_all :: "micro_op_inst list \<Rightarrow> translation_block \<Rightarrow> translation_block" where
  "push_all [] tb = tb"
| "push_all (u # us) tb = (case tb_push u tb of (ok, tb) \<Rightarrow> if ok then push_all us tb else tb)"

fun translate_loop ::
  "(mnemonic \<Rightarrow> u64) \<Rightarrow> iced_instruction list \<Rightarrow> nat \<Rightarrow> translation_block \<Rightarrow> nat \<times> translation_block" where
  "translate_loop num [] bytes tb = (bytes, tb)"
| "translate_loop num (inst # insts) bytes tb =
     (let bytes = bytes + ii_len inst;
          tb = push_all (translate_instruction num inst) tb;
          tb = tb\<lparr>tb_instruction_count := tb_instruction_count tb + 1\<rparr> in
      if is_branch_or_ret (ii_mnemonic inst) then (bytes, tb)
      else translate_loop num insts bytes tb)"

definition translate_block ::
  "(mnemonic \<Rightarrow> u64) \<Rightarrow> iced_instruction list \<Rightarrow> u64 \<Rightarrow> translation_block" where
  "translate_block num insts x86_ip =
     (let (bytes, tb) = translate_loop num insts 0 (tb_new x86_ip)
      in tb\<lparr>tb_guest_size := of_nat bytes\<rparr>)"

section \<open>The block as a list\<close>

text \<open>The instructions up to and with the first that ends a block.\<close>

fun block_insts :: "iced_instruction list \<Rightarrow> iced_instruction list" where
  "block_insts [] = []"
| "block_insts (i # insts) = (if is_branch_or_ret (ii_mnemonic i) then [i] else i # block_insts insts)"

lemma push_all_ops:
  assumes "tb_wf tb"
  shows "tb_wf (push_all us tb)"
    "tb_ops (push_all us tb) = take MAX_MICRO_OPS_PER_BLOCK (tb_ops tb @ us)"
    "tb_instruction_count (push_all us tb) = tb_instruction_count tb"
proof -
  have "tb_wf (push_all us tb) \<and>
      tb_ops (push_all us tb) = take MAX_MICRO_OPS_PER_BLOCK (tb_ops tb @ us) \<and>
      tb_instruction_count (push_all us tb) = tb_instruction_count tb"
    using assms
  proof (induction us arbitrary: tb)
    case Nil
    then show ?case using tb_ops_length [OF Nil] by (simp add: tb_wf_def)
  next
    case (Cons u us)
    obtain ok tb' where p: "tb_push u tb = (ok, tb')" by (rule prod.exhaust)
    note ops = tb_push_ops [OF Cons.prems p]
    have cnt: "tb_instruction_count tb' = tb_instruction_count tb"
      using p by (auto simp: tb_push_def Let_def split: if_splits)
    show ?case
    proof (cases ok)
      case True
      with ops cnt p Cons.IH [OF ops(1)] show ?thesis by simp
    next
      case False
      then have "length (tb_ops tb) = MAX_MICRO_OPS_PER_BLOCK"
        using ops(2) Cons.prems tb_ops_length [OF Cons.prems] by (simp add: tb_wf_def)
      with False ops cnt p show ?thesis by simp
    qed
  qed
  then show "tb_wf (push_all us tb)"
    "tb_ops (push_all us tb) = take MAX_MICRO_OPS_PER_BLOCK (tb_ops tb @ us)"
    "tb_instruction_count (push_all us tb) = tb_instruction_count tb" by simp_all
qed

lemma tb_fields [simp]:
  "tb_wf (tb\<lparr>tb_instruction_count := c\<rparr>) = tb_wf tb" "tb_wf (tb\<lparr>tb_guest_size := z\<rparr>) = tb_wf tb"
  "tb_ops (tb\<lparr>tb_instruction_count := c\<rparr>) = tb_ops tb" "tb_ops (tb\<lparr>tb_guest_size := z\<rparr>) = tb_ops tb"
  by (simp_all add: tb_wf_def tb_ops_def)

lemma translate_loop_ops:
  assumes "tb_wf tb" "translate_loop num insts bytes tb = (bytes', tb')"
  shows "tb_wf tb' \<and>
    tb_ops tb' = take MAX_MICRO_OPS_PER_BLOCK
      (tb_ops tb @ concat (map (translate_instruction num) (block_insts insts))) \<and>
    tb_instruction_count tb' = tb_instruction_count tb + of_nat (length (block_insts insts)) \<and>
    bytes' = bytes + sum_list (map ii_len (block_insts insts))"
  using assms
proof (induction insts arbitrary: bytes tb)
  case Nil
  then show ?case using tb_ops_length [OF Nil(1)] by (simp add: tb_wf_def)
next
  case (Cons i insts)
  let ?us = "translate_instruction num i"
  let ?tb = "(push_all ?us tb)\<lparr>tb_instruction_count := tb_instruction_count (push_all ?us tb) + 1\<rparr>"
  note p = push_all_ops [OF Cons.prems(1), of ?us]
  have wf: "tb_wf ?tb" using p(1) by simp
  have cut: "take n (take n xs @ ys) = take n (xs @ ys)" for n and xs ys :: "micro_op_inst list"
    by (cases "length xs \<le> n") simp_all
  show ?case
  proof (cases "is_branch_or_ret (ii_mnemonic i)")
    case True
    then show ?thesis using Cons.prems(2) p by (auto simp: Let_def)
  next
    case False
    then have "translate_loop num insts (bytes + ii_len i) ?tb = (bytes', tb')"
      using Cons.prems(2) by (simp add: Let_def)
    from Cons.IH [OF wf this] show ?thesis
      using False p by (simp add: cut del: take_append)
  qed
qed

lemma translate_block_wf: "tb_wf (translate_block num insts ip)"
  using translate_loop_ops [OF tb_wf_new(1)]
  by (auto simp: translate_block_def split: prod.splits)

lemma translate_block_list:
  "tb_ops (translate_block num insts ip) =
     take MAX_MICRO_OPS_PER_BLOCK (concat (map (translate_instruction num) (block_insts insts)))"
  using translate_loop_ops [OF tb_wf_new(1)]
  by (auto simp: translate_block_def split: prod.splits)

lemma push_all_ip: "tb_guest_ip (push_all us tb) = tb_guest_ip tb"
  by (induction us tb rule: push_all.induct) (auto simp: tb_push_def Let_def split: prod.splits if_splits)

lemma translate_loop_ip: "translate_loop num insts bytes tb = (bytes', tb') \<Longrightarrow> tb_guest_ip tb' = tb_guest_ip tb"
  by (induction num insts bytes tb rule: translate_loop.induct)
     (auto simp: Let_def push_all_ip split: if_splits)

section \<open>What the translation emits\<close>

lemma translate_jcc:
  "is_jcc (ii_mnemonic i) \<Longrightarrow>
     translate_instruction num i = [micro_op_new OpJccRel RNone RNone RNone (ii_near_branch64 i)]"
  by (cases "ii_mnemonic i") (simp_all add: is_jcc_def translate_instruction_def Let_def)

lemma translate_codes:
  assumes "u \<in> set (translate_instruction num i)"
  shows "is_terminator (op_code u) \<Longrightarrow> is_branch_or_ret (ii_mnemonic i) \<or> ii_mnemonic i = MnRetf"
    and "op_code u = OpJccRel \<Longrightarrow> is_jcc (ii_mnemonic i) \<and> op_src2 u = RNone"
    and "op_code u = OpMovRR \<Longrightarrow> ii_mnemonic i = MnMov \<and> ii_op0_kind i = KRegister \<and>
      op_dst u = map_register (ii_op0_register i)"
  using assms
  by (cases "ii_mnemonic i";
      auto simp: translate_instruction_def Let_def is_jcc_def is_setcc_def is_branch_or_ret_def is_terminator_def
        translate_mov_def translate_binary_def micro_op_new_def with_size_def split: if_splits)+

lemma execute_keeps_next:
  assumes "is_terminator (op_code u) \<Longrightarrow> op_code u = OpJccRel \<and> op_src2 u = RNone"
    and "fst (execute_inst m u n s) = Inr n'"
  shows "n' = n"
proof (cases "is_terminator (op_code u)")
  case True
  with assms show ?thesis
    by (auto simp: execute_inst_def Let_def jcc_taken_def)
next
  case False
  then have "fst (execute_inst m u n s) = Inr n \<or> (\<exists>e. fst (execute_inst m u n s) = Inl e)"
    by (cases "op_code u")
       (simp_all add: execute_inst_def Let_def is_terminator_def split: prod.splits option.splits if_splits)
  with assms(2) show ?thesis by auto
qed

lemma execute_no_successor:
  assumes "\<And>u. u \<in> set us \<Longrightarrow> is_terminator (op_code u) \<Longrightarrow> op_code u = OpJccRel \<and> op_src2 u = RNone"
    and "fst (execute_ops m us None s) = Inr n"
  shows "n = None"
  using assms
proof (induction us arbitrary: s)
  case (Cons u us)
  obtain r s' where x: "execute_inst m u None s = (r, s')" by (rule prod.exhaust)
  show ?case
  proof (cases r)
    case (Inl e)
    with Cons.prems(2) x show ?thesis by simp
  next
    case (Inr n')
    have "n' = None"
      by (rule execute_keeps_next [where m = m and u = u and s = s]) (use Cons.prems(1) [of u] x Inr in auto)
    with Cons x Inr show ?thesis by (auto split: if_splits)
  qed
qed simp

section \<open>Properties\<close>

text \<open>The translation of a block is the first 256 micro-operations of its instructions, in order,
  up to and with the first branch, call, return or HLT. The size and the instruction count
  are those of all these instructions, also of those whose micro-operations no longer fitted.\<close>

theorem translate_block_layout:
  "tb_wf (translate_block num insts ip) \<and>
   tb_ops (translate_block num insts ip) =
     take MAX_MICRO_OPS_PER_BLOCK (concat (map (translate_instruction num) (block_insts insts))) \<and>
   tb_guest_ip (translate_block num insts ip) = ip \<and>
   tb_instruction_count (translate_block num insts ip) = of_nat (length (block_insts insts)) \<and>
   tb_guest_size (translate_block num insts ip) = of_nat (sum_list (map ii_len (block_insts insts)))"
proof -
  obtain bytes tb where l: "translate_loop num insts 0 (tb_new ip) = (bytes, tb)" by (rule prod.exhaust)
  have ip: "tb_guest_ip tb = ip"
    using translate_loop_ip [OF l] by (simp add: tb_new_def)
  have "tb_instruction_count (tb_new ip) = 0" by (simp add: tb_new_def)
  with translate_loop_ops [OF tb_wf_new(1) l] ip show ?thesis
    by (simp add: translate_block_def l)
qed

text \<open>C24: A conditional jump of the guest is never taken. Its micro-operation carries no condition, so
  a block that ends in one, and has no far return before it, names no successor, whatever the
  flags and the memory.\<close>

theorem translated_jcc_never_taken:
  assumes "insts = ps @ [j]" "is_jcc (ii_mnemonic j)"
    and "\<forall>p\<in>set ps. \<not> is_branch_or_ret (ii_mnemonic p) \<and> ii_mnemonic p \<noteq> MnRetf"
    and "fst (execute_block m (translate_block num insts ip) s) = Inr n"
  shows "n = None"
proof -
  have sub: "set (block_insts insts) \<subseteq> set insts" for insts
    by (induction insts) auto
  have "op_code u = OpJccRel \<and> op_src2 u = RNone"
    if u: "u \<in> set (tb_ops (translate_block num insts ip))" and t: "is_terminator (op_code u)" for u
  proof -
    obtain i where i: "i \<in> set (block_insts insts)" "u \<in> set (translate_instruction num i)"
      using u set_take_subset unfolding translate_block_list by fastforce
    have "i \<in> set ps \<or> i = j" using sub [of insts] i(1) assms(1) by auto
    moreover have "i \<notin> set ps" using translate_codes(1) [OF i(2) t] assms(3) by auto
    ultimately have "translate_instruction num i = [micro_op_new OpJccRel RNone RNone RNone (ii_near_branch64 i)]"
      using translate_jcc assms(2) by simp
    with i(2) show ?thesis by (simp add: micro_op_new_def)
  qed
  then show ?thesis
    using execute_no_successor assms(4) unfolding execute_block_ops [OF translate_block_wf] by metis
qed

definition sample_inst :: "mnemonic \<Rightarrow> iced_instruction" where
  "sample_inst m =
     \<lparr>ii_mnemonic = m, ii_op0_kind = KRegister, ii_op1_kind = KRegister, ii_op0_register = IcedRBX,
      ii_op1_register = IcedRCX, ii_immediate64 = 0, ii_near_branch64 = 0x2000, ii_memory_base = IcedRAX,
      ii_memory_displacement64 = 0, ii_len = 3\<rparr>"

theorem translated_jcc_never_taken_witness:
  "fst (execute_block no_memory (translate_block (\<lambda>_. 0) [sample_inst MnCmp, sample_inst MnJe] 0x1000)
     start_state) = Inr None"
proof -
  let ?tb = "translate_block (\<lambda>_. 0) [sample_inst MnCmp, sample_inst MnJe] 0x1000"
  let ?s = "start_state"
  have code: "op_code u \<notin> {OpDivRR, OpIdivRR}" if "u \<in> set (tb_ops ?tb)" for u
    using that unfolding translate_block_list
    by (auto simp: sample_inst_def is_branch_or_ret_def translate_instruction_def translate_binary_def is_jcc_def
        Let_def micro_op_new_def with_size_def MAX_MICRO_OPS_PER_BLOCK_def)
  have "\<exists>n. fst (execute_block no_memory ?tb ?s) = Inr n"
  proof (cases "fst (execute_block no_memory ?tb ?s)")
    case (Inl e)
    then have "execute_ops no_memory (tb_ops ?tb) None ?s = (Inl e, snd (execute_block no_memory ?tb ?s))"
      by (metis execute_block_ops prod.collapse translate_block_wf)
    then obtain u where "u \<in> set (tb_ops ?tb)" "division_fault u (snd (execute_block no_memory ?tb ?s)) = Some e"
      using execute_ops_error by metis
    with code [of u] show ?thesis by (auto simp: division_fault_def Let_def split: if_splits)
  qed simp
  then obtain n where n: "fst (execute_block no_memory ?tb ?s) = Inr n" by (rule exE)
  have "[sample_inst MnCmp, sample_inst MnJe] = [sample_inst MnCmp] @ [sample_inst MnJe]"
    "is_jcc (ii_mnemonic (sample_inst MnJe))"
    "\<forall>p\<in>set [sample_inst MnCmp]. \<not> is_branch_or_ret (ii_mnemonic p) \<and> ii_mnemonic p \<noteq> MnRetf"
    by (simp_all add: sample_inst_def is_jcc_def is_branch_or_ret_def)
  from translated_jcc_never_taken [OF this n] n show ?thesis by simp
qed

text \<open>Translating and then optimising changes nothing: a translated block in which no MOV writes a
  register outside the general ones (a segment, control or vector register) runs after the
  optimiser exactly as before it.\<close>

theorem translate_optimize_sound:
  assumes "\<forall>i\<in>set insts. ii_mnemonic i = MnMov \<and> ii_op0_kind i = KRegister \<longrightarrow>
    map_register (ii_op0_register i) \<noteq> RNone"
  shows "execute_block m (optimize_block (translate_block num insts ip)) s =
    execute_block m (translate_block num insts ip) s"
proof (rule optimize_equiv [OF translate_block_wf])
  fix u assume u: "u \<in> set (tb_ops (translate_block num insts ip))" "op_code u = OpMovRR" "op_dst u = RNone"
  have "set (block_insts insts) \<subseteq> set insts" by (induction insts) auto
  then obtain i where i: "i \<in> set insts" "u \<in> set (translate_instruction num i)"
    using u(1) set_take_subset unfolding translate_block_list by fastforce
  from translate_codes(3) [OF i(2) u(2)] u(3) assms i(1) show "op_src1 u = RNone" by auto
qed

theorem translate_optimize_sound_witness:
  "execute_block no_memory (optimize_block (translate_block (\<lambda>_. 0) [sample_inst MnMov, sample_inst MnRet] 0)) start_state =
   execute_block no_memory (translate_block (\<lambda>_. 0) [sample_inst MnMov, sample_inst MnRet] 0) start_state"
  by (rule translate_optimize_sound) (simp add: sample_inst_def map_register_def)

text \<open>An immediate operand of a logic or shift instruction is not used: \<open>and r, imm\<close> clears the
  register, and \<open>or\<close>, \<open>xor\<close> and the shifts by a constant leave it as it is.\<close>

theorem logic_immediate_ignored:
  assumes "ii_mnemonic i \<in> {MnAnd, MnOr, MnXor, MnShl, MnSal, MnShr, MnSar}"
    and "ii_op0_kind i = KRegister" "is_imm (ii_op1_kind i)"
    and "r = map_register (ii_op0_register i)" "r \<noteq> RNone" "r \<noteq> RFlags"
    and "execute_ops m (translate_instruction num i) n s = (res, s')"
  shows "ex_regs s' r = (if ii_mnemonic i = MnAnd then 0 else ex_regs s r)"
proof -
  have imm: "ii_op1_kind i \<noteq> KRegister" using assms(3) by (auto simp: is_imm_def)
  show ?thesis
    using assms(1,7)
    by (elim insertE emptyE)
       (simp_all add: translate_instruction_def Let_def translate_binary_def assms(2-3) imm assms(4) [symmetric]
         with_size_def micro_op_new_def execute_inst_def is_terminator_def logic_result_def on_regs_def
         update_flags_logic_def set_flags_def regs_write_def regs_read_def shl_value_def shr_value_def sar_value_def
         assms(5,6), auto simp: assms(5,6))
qed

text \<open>A relative jump or call adds its absolute target to RAX.\<close>

theorem relative_jump_adds_rax:
  assumes "ii_mnemonic i \<in> {MnJmp, MnCall}" "ii_op0_kind i \<noteq> KRegister"
  shows "fst (execute_ops m (translate_instruction num i) n s) =
    Inr (Some (regs_read RAX (ex_regs s) + ii_near_branch64 i))"
  using assms(1)
  by (elim insertE emptyE)
     (simp_all add: translate_instruction_def Let_def assms(2) is_jcc_def is_setcc_def micro_op_new_def
       execute_inst_def is_terminator_def)

end
