(* ===== verification/DbtCodegen.thy ===== *)
theory DbtCodegen
  imports DbtIr ByteLayout
begin

text \<open>
  The x86-64 emitter, \<open>dbt/codegen/mod.rs\<close>: a buffer of 4096 bytes that drops what no longer
  fits, the REX and ModRM bytes, and one function per machine instruction. The second half
  gives the encoding's other direction, a decoder of the emitted forms after the processor
  manual, and shows that it reads back what was emitted.
\<close>

section \<open>The code buffer\<close>

definition MAX_CODE_SIZE :: nat where "MAX_CODE_SIZE = 4096"
definition MAX_RELOCATIONS :: nat where "MAX_RELOCATIONS = 64"

text \<open>The three relocation fields are never used.\<close>

record code_buffer =
  cb_bytes :: "u8 list"
  cb_len :: nat
  cb_reloc_offsets :: "nat list"
  cb_reloc_targets :: "u64 list"
  cb_reloc_count :: nat

definition code_buffer_new :: code_buffer where
  "code_buffer_new =
     \<lparr>cb_bytes = replicate MAX_CODE_SIZE 0, cb_len = 0, cb_reloc_offsets = replicate MAX_RELOCATIONS 0,
      cb_reloc_targets = replicate MAX_RELOCATIONS 0, cb_reloc_count = 0\<rparr>"

definition emit_u8 :: "u8 \<Rightarrow> code_buffer \<Rightarrow> code_buffer" where
  "emit_u8 v buf =
     (if cb_len buf < MAX_CODE_SIZE
      then buf\<lparr>cb_bytes := (cb_bytes buf)[cb_len buf := v], cb_len := cb_len buf + 1\<rparr> else buf)"

definition emit_u32 :: "u32 \<Rightarrow> code_buffer \<Rightarrow> code_buffer" where
  "emit_u32 v buf = fold emit_u8 (le_bytes 4 v) buf"

definition emit_u64 :: "u64 \<Rightarrow> code_buffer \<Rightarrow> code_buffer" where
  "emit_u64 v buf = fold emit_u8 (le_bytes 8 v) buf"

definition rex_byte :: "bool \<Rightarrow> bool \<Rightarrow> bool \<Rightarrow> bool \<Rightarrow> u8" where
  "rex_byte w r x b =
     (let rex = 0x40; rex = (if w then rex OR 0x08 else rex); rex = (if r then rex OR 0x04 else rex);
          rex = (if x then rex OR 0x02 else rex) in if b then rex OR 0x01 else rex)"

definition emit_rex :: "bool \<Rightarrow> bool \<Rightarrow> bool \<Rightarrow> bool \<Rightarrow> code_buffer \<Rightarrow> code_buffer" where
  "emit_rex w r x b buf = (let rex = rex_byte w r x b in if rex \<noteq> 0x40 then emit_u8 rex buf else buf)"

definition modrm_byte :: "u8 \<Rightarrow> u8 \<Rightarrow> u8 \<Rightarrow> u8" where
  "modrm_byte mod' reg rm = (push_bit 6 mod' OR push_bit 3 (reg AND 7)) OR (rm AND 7)"

definition emit_modrm :: "u8 \<Rightarrow> u8 \<Rightarrow> u8 \<Rightarrow> code_buffer \<Rightarrow> code_buffer" where
  "emit_modrm mod' reg rm buf = emit_u8 (modrm_byte mod' reg rm) buf"

definition rel32 :: "u64 \<Rightarrow> u64 \<Rightarrow> u32" where
  "rel32 target current = ucast (target - (current + 4))"

definition emit_rel32 :: "u64 \<Rightarrow> u64 \<Rightarrow> code_buffer \<Rightarrow> code_buffer" where
  "emit_rel32 target current buf = emit_u32 (rel32 target current) buf"

section \<open>The instructions\<close>

definition cg_is_r8_or_above :: "dbt_register \<Rightarrow> bool" where
  "cg_is_r8_or_above reg = (let r = reg_num reg in r \<ge> 8 \<and> r \<le> 15)"

definition x64_reg :: "dbt_register \<Rightarrow> u8" where
  "x64_reg reg =
     (case reg of
        RAX \<Rightarrow> 0 | R8 \<Rightarrow> 0 | RCX \<Rightarrow> 1 | R9 \<Rightarrow> 1 | RDX \<Rightarrow> 2 | R10 \<Rightarrow> 2 | RBX \<Rightarrow> 3 | R11 \<Rightarrow> 3
      | RSP \<Rightarrow> 4 | R12 \<Rightarrow> 4 | RBP \<Rightarrow> 5 | R13 \<Rightarrow> 5 | RSI \<Rightarrow> 6 | R14 \<Rightarrow> 6 | RDI \<Rightarrow> 7 | R15 \<Rightarrow> 7
      | _ \<Rightarrow> 0)"

definition emit_mov_rr :: "dbt_register \<Rightarrow> dbt_register \<Rightarrow> code_buffer \<Rightarrow> code_buffer" where
  "emit_mov_rr dst src buf =
     (let w = True; r = cg_is_r8_or_above dst; b = cg_is_r8_or_above src
      in emit_modrm 3 (x64_reg dst) (x64_reg src) (emit_u8 0x8B (emit_rex w r False b buf)))"

definition emit_test_rr :: "dbt_register \<Rightarrow> dbt_register \<Rightarrow> code_buffer \<Rightarrow> code_buffer" where
  "emit_test_rr dst src buf =
     (let w = True; r = cg_is_r8_or_above dst; b = cg_is_r8_or_above src
      in emit_modrm 3 (x64_reg dst) (x64_reg src) (emit_u8 0x85 (emit_rex w r False b buf)))"

definition emit_xchg_rr :: "dbt_register \<Rightarrow> dbt_register \<Rightarrow> code_buffer \<Rightarrow> code_buffer" where
  "emit_xchg_rr dst src buf =
     (let w = True; r = cg_is_r8_or_above dst; b = cg_is_r8_or_above src
      in emit_modrm 3 (x64_reg dst) (x64_reg src) (emit_u8 0x87 (emit_rex w r False b buf)))"

definition emit_add_rr :: "dbt_register \<Rightarrow> dbt_register \<Rightarrow> code_buffer \<Rightarrow> code_buffer" where
  "emit_add_rr dst src buf =
     (let w = True; r = cg_is_r8_or_above dst; b = cg_is_r8_or_above src
      in emit_modrm 3 (x64_reg dst) (x64_reg src) (emit_u8 0x03 (emit_rex w r False b buf)))"

definition emit_sub_rr :: "dbt_register \<Rightarrow> dbt_register \<Rightarrow> code_buffer \<Rightarrow> code_buffer" where
  "emit_sub_rr dst src buf =
     (let w = True; r = cg_is_r8_or_above dst; b = cg_is_r8_or_above src
      in emit_modrm 3 (x64_reg dst) (x64_reg src) (emit_u8 0x2B (emit_rex w r False b buf)))"

definition emit_and_rr :: "dbt_register \<Rightarrow> dbt_register \<Rightarrow> code_buffer \<Rightarrow> code_buffer" where
  "emit_and_rr dst src buf =
     (let w = True; r = cg_is_r8_or_above dst; b = cg_is_r8_or_above src
      in emit_modrm 3 (x64_reg dst) (x64_reg src) (emit_u8 0x23 (emit_rex w r False b buf)))"

definition emit_or_rr :: "dbt_register \<Rightarrow> dbt_register \<Rightarrow> code_buffer \<Rightarrow> code_buffer" where
  "emit_or_rr dst src buf =
     (let w = True; r = cg_is_r8_or_above dst; b = cg_is_r8_or_above src
      in emit_modrm 3 (x64_reg dst) (x64_reg src) (emit_u8 0x0B (emit_rex w r False b buf)))"

definition emit_xor_rr :: "dbt_register \<Rightarrow> dbt_register \<Rightarrow> code_buffer \<Rightarrow> code_buffer" where
  "emit_xor_rr dst src buf =
     (let w = True; r = cg_is_r8_or_above dst; b = cg_is_r8_or_above src
      in emit_modrm 3 (x64_reg dst) (x64_reg src) (emit_u8 0x33 (emit_rex w r False b buf)))"

definition emit_cmp_rr :: "dbt_register \<Rightarrow> dbt_register \<Rightarrow> code_buffer \<Rightarrow> code_buffer" where
  "emit_cmp_rr dst src buf =
     (let w = True; r = cg_is_r8_or_above dst; b = cg_is_r8_or_above src
      in emit_modrm 3 (x64_reg dst) (x64_reg src) (emit_u8 0x3B (emit_rex w r False b buf)))"

definition emit_mov_ri :: "dbt_register \<Rightarrow> u64 \<Rightarrow> code_buffer \<Rightarrow> code_buffer" where
  "emit_mov_ri dst imm buf =
     (let r = x64_reg dst; b = cg_is_r8_or_above dst
      in emit_u64 imm (emit_u8 (0xB8 OR (r AND 7)) (emit_rex True False False b buf)))"

definition emit_add_ri :: "dbt_register \<Rightarrow> u32 \<Rightarrow> code_buffer \<Rightarrow> code_buffer" where
  "emit_add_ri dst imm buf =
     (let b = cg_is_r8_or_above dst
      in emit_u32 imm (emit_modrm 3 0 (x64_reg dst) (emit_u8 0x81 (emit_rex True False False b buf))))"

definition emit_sub_ri :: "dbt_register \<Rightarrow> u32 \<Rightarrow> code_buffer \<Rightarrow> code_buffer" where
  "emit_sub_ri dst imm buf =
     (let b = cg_is_r8_or_above dst
      in emit_u32 imm (emit_modrm 3 5 (x64_reg dst) (emit_u8 0x81 (emit_rex True False False b buf))))"

definition emit_push_r :: "dbt_register \<Rightarrow> code_buffer \<Rightarrow> code_buffer" where
  "emit_push_r reg buf =
     (let r = x64_reg reg; buf = (if r \<ge> 8 then emit_rex False False False True buf else buf)
      in emit_u8 (0x50 OR (r AND 7)) buf)"

definition emit_pop_r :: "dbt_register \<Rightarrow> code_buffer \<Rightarrow> code_buffer" where
  "emit_pop_r reg buf =
     (let r = x64_reg reg; buf = (if r \<ge> 8 then emit_rex False False False True buf else buf)
      in emit_u8 (0x58 OR (r AND 7)) buf)"

definition emit_ret :: "code_buffer \<Rightarrow> code_buffer" where "emit_ret = emit_u8 0xC3"

definition emit_jmp_rel32 :: "u64 \<Rightarrow> u64 \<Rightarrow> code_buffer \<Rightarrow> code_buffer" where
  "emit_jmp_rel32 target current buf = emit_rel32 target current (emit_u8 0xE9 buf)"

definition emit_call_rel32 :: "u64 \<Rightarrow> u64 \<Rightarrow> code_buffer \<Rightarrow> code_buffer" where
  "emit_call_rel32 target current buf = emit_rel32 target current (emit_u8 0xE8 buf)"

definition emit_nop :: "code_buffer \<Rightarrow> code_buffer" where "emit_nop = emit_u8 0x90"

section \<open>What reaches the buffer\<close>

definition cb_wf :: "code_buffer \<Rightarrow> bool" where
  "cb_wf buf \<longleftrightarrow> length (cb_bytes buf) = MAX_CODE_SIZE \<and> cb_len buf \<le> MAX_CODE_SIZE"

definition cb_code :: "code_buffer \<Rightarrow> u8 list" where
  "cb_code buf = take (cb_len buf) (cb_bytes buf)"

text \<open>\<open>emits f bs\<close>: whatever is in the buffer, \<open>f\<close> appends those of the bytes \<open>bs\<close> that fit.\<close>

definition emits :: "(code_buffer \<Rightarrow> code_buffer) \<Rightarrow> u8 list \<Rightarrow> bool" where
  "emits f bs \<longleftrightarrow> (\<forall>buf. cb_wf buf \<longrightarrow>
     cb_wf (f buf) \<and> cb_code (f buf) = take MAX_CODE_SIZE (cb_code buf @ bs))"

lemma emits_u8: "emits (emit_u8 v) [v]"
  by (auto simp: emits_def emit_u8_def cb_wf_def cb_code_def take_Suc_conv_app_nth)

lemma emits_comp: "emits g xs \<Longrightarrow> emits f ys \<Longrightarrow> emits (\<lambda>buf. f (g buf)) (xs @ ys)"
proof -
  have cut: "take n (take n xs @ ys) = take n (xs @ ys)" for n and xs ys :: "u8 list"
    by (cases "length xs \<le> n") simp_all
  show "emits g xs \<Longrightarrow> emits f ys \<Longrightarrow> emits (\<lambda>buf. f (g buf)) (xs @ ys)"
    unfolding emits_def append_assoc [symmetric] by (metis cut)
qed

lemma emits_id: "emits (\<lambda>buf. buf) []"
  by (auto simp: emits_def cb_wf_def cb_code_def)

lemma emits_fold: "emits (fold emit_u8 bs) bs"
proof (induction bs)
  case Nil
  then show ?case using emits_id by (simp add: id_def)
next
  case (Cons b bs)
  from emits_comp [OF emits_u8 [of b] this] show ?case by (simp add: comp_def)
qed

lemma emits_u32: "emits (emit_u32 v) (le_bytes 4 v)"
  and emits_u64: "emits (emit_u64 w) (le_bytes 8 w)"
  unfolding emit_u32_def emit_u64_def by (rule emits_fold)+

section \<open>A decoder of the emitted forms\<close>

text \<open>Registers are numbered 0 to 15. A byte 0x40 to 0x4F is a REX prefix with the bits W, R, X and B.\<close>

datatype x64_inst =
    XRR u8 u8 u8 | XMovRI u8 u64 | XAddRI u8 u32 | XSubRI u8 u32 | XPush u8 | XPop u8 |
    XRet | XNop | XJmp u32 | XCall u32

definition rr_opcodes :: "u8 set" where
  "rr_opcodes = {0x8B, 0x85, 0x87, 0x03, 0x2B, 0x23, 0x0B, 0x33, 0x3B}"

definition rex_reg :: "bool \<Rightarrow> u8 \<Rightarrow> u8" where
  "rex_reg high low = (if high then low OR 8 else low)"

definition split_rex :: "u8 list \<Rightarrow> u8 \<times> u8 list" where
  "split_rex bs =
     (case bs of b # bs' \<Rightarrow> if b AND 0xF0 = 0x40 then (b, bs') else (0, bs) | [] \<Rightarrow> (0, []))"

definition x64_decode :: "u8 list \<Rightarrow> (x64_inst \<times> u8 list) option" where
  "x64_decode code =
     (let (rex, bs) = split_rex code; w = bit rex 3; r = bit rex 2; b = bit rex 0 in
      case bs of
        [] \<Rightarrow> None
      | op # bs \<Rightarrow>
          if w \<and> op \<in> rr_opcodes then
            (case bs of
               m # bs \<Rightarrow>
                 if drop_bit 6 m = 3
                 then Some (XRR op (rex_reg r (drop_bit 3 m AND 7)) (rex_reg b (m AND 7)), bs) else None
             | [] \<Rightarrow> None)
          else if w \<and> op AND 0xF8 = 0xB8 then
            (if length bs \<ge> 8 then Some (XMovRI (rex_reg b (op AND 7)) (le_word (take 8 bs)), drop 8 bs) else None)
          else if w \<and> op = 0x81 then
            (case bs of
               m # bs \<Rightarrow>
                 if drop_bit 6 m = 3 \<and> length bs \<ge> 4 then
                   (if drop_bit 3 m AND 7 = 0 then Some (XAddRI (rex_reg b (m AND 7)) (le_word (take 4 bs)), drop 4 bs)
                    else if drop_bit 3 m AND 7 = 5 then Some (XSubRI (rex_reg b (m AND 7)) (le_word (take 4 bs)), drop 4 bs)
                    else None)
                 else None
             | [] \<Rightarrow> None)
          else if op AND 0xF8 = 0x50 then Some (XPush (rex_reg b (op AND 7)), bs)
          else if op AND 0xF8 = 0x58 then Some (XPop (rex_reg b (op AND 7)), bs)
          else if op = 0xC3 then Some (XRet, bs)
          else if op = 0x90 then Some (XNop, bs)
          else if op = 0xE9 \<and> length bs \<ge> 4 then Some (XJmp (le_word (take 4 bs)), drop 4 bs)
          else if op = 0xE8 \<and> length bs \<ge> 4 then Some (XCall (le_word (take 4 bs)), drop 4 bs)
          else None)"

primrec x64_decode_all :: "nat \<Rightarrow> u8 list \<Rightarrow> x64_inst list" where
  "x64_decode_all 0 bs = []"
| "x64_decode_all (Suc n) bs =
     (case x64_decode bs of None \<Rightarrow> [] | Some (i, bs) \<Rightarrow> i # x64_decode_all n bs)"

section \<open>The emitter's calls\<close>

datatype x64_call =
    OMovRR dbt_register dbt_register | OTestRR dbt_register dbt_register | OXchgRR dbt_register dbt_register | OAddRR dbt_register dbt_register |
    OSubRR dbt_register dbt_register | OAndRR dbt_register dbt_register | OOrRR dbt_register dbt_register | OXorRR dbt_register dbt_register | OCmpRR dbt_register dbt_register |
    OMovRI dbt_register u64 | OAddRI dbt_register u32 | OSubRI dbt_register u32 |
    OPush dbt_register | OPop dbt_register | ORet | ONop | OJmp u64 u64 | OCall u64 u64

primrec emit_call :: "x64_call \<Rightarrow> code_buffer \<Rightarrow> code_buffer" where
  "emit_call (OMovRR d s) = emit_mov_rr d s"
| "emit_call (OTestRR d s) = emit_test_rr d s"
| "emit_call (OXchgRR d s) = emit_xchg_rr d s"
| "emit_call (OAddRR d s) = emit_add_rr d s"
| "emit_call (OSubRR d s) = emit_sub_rr d s"
| "emit_call (OAndRR d s) = emit_and_rr d s"
| "emit_call (OOrRR d s) = emit_or_rr d s"
| "emit_call (OXorRR d s) = emit_xor_rr d s"
| "emit_call (OCmpRR d s) = emit_cmp_rr d s"
| "emit_call (OMovRI d v) = emit_mov_ri d v"
| "emit_call (OAddRI d v) = emit_add_ri d v"
| "emit_call (OSubRI d v) = emit_sub_ri d v"
| "emit_call (OPush r) = emit_push_r r"
| "emit_call (OPop r) = emit_pop_r r"
| "emit_call ORet = emit_ret"
| "emit_call ONop = emit_nop"
| "emit_call (OJmp t c) = emit_jmp_rel32 t c"
| "emit_call (OCall t c) = emit_call_rel32 t c"

text \<open>The instruction each call is documented to emit.\<close>

primrec call_meaning :: "x64_call \<Rightarrow> x64_inst" where
  "call_meaning (OMovRR d s) = XRR 0x8B (reg_num d) (reg_num s)"
| "call_meaning (OTestRR d s) = XRR 0x85 (reg_num d) (reg_num s)"
| "call_meaning (OXchgRR d s) = XRR 0x87 (reg_num d) (reg_num s)"
| "call_meaning (OAddRR d s) = XRR 0x03 (reg_num d) (reg_num s)"
| "call_meaning (OSubRR d s) = XRR 0x2B (reg_num d) (reg_num s)"
| "call_meaning (OAndRR d s) = XRR 0x23 (reg_num d) (reg_num s)"
| "call_meaning (OOrRR d s) = XRR 0x0B (reg_num d) (reg_num s)"
| "call_meaning (OXorRR d s) = XRR 0x33 (reg_num d) (reg_num s)"
| "call_meaning (OCmpRR d s) = XRR 0x3B (reg_num d) (reg_num s)"
| "call_meaning (OMovRI d v) = XMovRI (reg_num d) v"
| "call_meaning (OAddRI d v) = XAddRI (reg_num d) v"
| "call_meaning (OSubRI d v) = XSubRI (reg_num d) v"
| "call_meaning (OPush r) = XPush (reg_num r)"
| "call_meaning (OPop r) = XPop (reg_num r)"
| "call_meaning ORet = XRet"
| "call_meaning ONop = XNop"
| "call_meaning (OJmp t c) = XJmp (rel32 t c)"
| "call_meaning (OCall t c) = XCall (rel32 t c)"

definition rr_bytes :: "u8 \<Rightarrow> dbt_register \<Rightarrow> dbt_register \<Rightarrow> u8 list" where
  "rr_bytes op d s =
     [rex_byte True (cg_is_r8_or_above d) False (cg_is_r8_or_above s), op, modrm_byte 3 (x64_reg d) (x64_reg s)]"

definition ri_bytes :: "u8 \<Rightarrow> dbt_register \<Rightarrow> u32 \<Rightarrow> u8 list" where
  "ri_bytes ext d v =
     [rex_byte True False False (cg_is_r8_or_above d), 0x81, modrm_byte 3 ext (x64_reg d)] @ le_bytes 4 v"

primrec call_bytes :: "x64_call \<Rightarrow> u8 list" where
  "call_bytes (OMovRR d s) = rr_bytes 0x8B d s"
| "call_bytes (OTestRR d s) = rr_bytes 0x85 d s"
| "call_bytes (OXchgRR d s) = rr_bytes 0x87 d s"
| "call_bytes (OAddRR d s) = rr_bytes 0x03 d s"
| "call_bytes (OSubRR d s) = rr_bytes 0x2B d s"
| "call_bytes (OAndRR d s) = rr_bytes 0x23 d s"
| "call_bytes (OOrRR d s) = rr_bytes 0x0B d s"
| "call_bytes (OXorRR d s) = rr_bytes 0x33 d s"
| "call_bytes (OCmpRR d s) = rr_bytes 0x3B d s"
| "call_bytes (OMovRI d v) =
     [rex_byte True False False (cg_is_r8_or_above d), 0xB8 OR (x64_reg d AND 7)] @ le_bytes 8 v"
| "call_bytes (OAddRI d v) = ri_bytes 0 d v"
| "call_bytes (OSubRI d v) = ri_bytes 5 d v"
| "call_bytes (OPush r) = [0x50 OR (x64_reg r AND 7)]"
| "call_bytes (OPop r) = [0x58 OR (x64_reg r AND 7)]"
| "call_bytes ORet = [0xC3]"
| "call_bytes ONop = [0x90]"
| "call_bytes (OJmp t c) = 0xE9 # le_bytes 4 (rel32 t c)"
| "call_bytes (OCall t c) = 0xE8 # le_bytes 4 (rel32 t c)"

lemma emits_rex: "emits (emit_rex True r x b) [rex_byte True r x b]"
proof -
  have "rex_byte True r x b \<noteq> 0x40" by (cases r; cases x; cases b) (simp_all add: rex_byte_def)
  then have "emit_rex True r x b = emit_u8 (rex_byte True r x b)" by (auto simp: emit_rex_def Let_def)
  then show ?thesis by (simp add: emits_u8)
qed

lemma emits_modrm: "emits (emit_modrm m r b) [modrm_byte m r b]"
  unfolding emit_modrm_def by (rule emits_u8)

lemma emits_rr:
  "emits (\<lambda>buf. emit_modrm 3 (x64_reg d) (x64_reg s) (emit_u8 op
     (emit_rex True (cg_is_r8_or_above d) False (cg_is_r8_or_above s) buf))) (rr_bytes op d s)"
  using emits_comp [OF emits_comp [OF emits_rex emits_u8] emits_modrm] by (simp add: rr_bytes_def)

lemma x64_reg_small: "\<not> 8 \<le> x64_reg r"
  by (cases r) (simp_all add: x64_reg_def word_le_nat_alt)

lemma emits_call: "emits (emit_call c) (call_bytes c)"
proof (cases c)
  case (OMovRR d s)
  then show ?thesis using emits_rr by (simp add: emit_mov_rr_def [abs_def])
next
  case (OTestRR d s)
  then show ?thesis using emits_rr by (simp add: emit_test_rr_def [abs_def])
next
  case (OXchgRR d s)
  then show ?thesis using emits_rr by (simp add: emit_xchg_rr_def [abs_def])
next
  case (OAddRR d s)
  then show ?thesis using emits_rr by (simp add: emit_add_rr_def [abs_def])
next
  case (OSubRR d s)
  then show ?thesis using emits_rr by (simp add: emit_sub_rr_def [abs_def])
next
  case (OAndRR d s)
  then show ?thesis using emits_rr by (simp add: emit_and_rr_def [abs_def])
next
  case (OOrRR d s)
  then show ?thesis using emits_rr by (simp add: emit_or_rr_def [abs_def])
next
  case (OXorRR d s)
  then show ?thesis using emits_rr by (simp add: emit_xor_rr_def [abs_def])
next
  case (OCmpRR d s)
  then show ?thesis using emits_rr by (simp add: emit_cmp_rr_def [abs_def])
next
  case (OMovRI d v)
  then show ?thesis
    using emits_comp [OF emits_comp [OF emits_rex emits_u8] emits_u64] by (simp add: emit_mov_ri_def [abs_def] Let_def)
next
  case (OAddRI d v)
  then show ?thesis
    using emits_comp [OF emits_comp [OF emits_comp [OF emits_rex emits_u8] emits_modrm] emits_u32]
    by (simp add: emit_add_ri_def [abs_def] ri_bytes_def)
next
  case (OSubRI d v)
  then show ?thesis
    using emits_comp [OF emits_comp [OF emits_comp [OF emits_rex emits_u8] emits_modrm] emits_u32]
    by (simp add: emit_sub_ri_def [abs_def] ri_bytes_def)
next
  case (OPush r)
  then show ?thesis by (simp add: emit_push_r_def [abs_def] Let_def x64_reg_small emits_u8)
next
  case (OPop r)
  then show ?thesis by (simp add: emit_pop_r_def [abs_def] Let_def x64_reg_small emits_u8)
next
  case (OJmp t c)
  then show ?thesis
    using emits_comp [OF emits_u8 emits_u32] by (simp add: emit_jmp_rel32_def [abs_def] emit_rel32_def)
next
  case (OCall t c)
  then show ?thesis
    using emits_comp [OF emits_u8 emits_u32] by (simp add: emit_call_rel32_def [abs_def] emit_rel32_def)
qed (simp_all add: emits_u8 emit_ret_def emit_nop_def)

section \<open>Reading back\<close>

lemma and_seven: "x AND 7 = take_bit 3 (x :: u8)"
  by (simp add: take_bit_eq_mask mask_eq_exp_minus_1)

lemma modrm_fields:
  assumes "m < 4"
  shows "drop_bit 6 (modrm_byte m r b) = m" "drop_bit 3 (modrm_byte m r b) AND 7 = r AND 7"
    "modrm_byte m r b AND 7 = b AND 7"
proof -
  have m: "n < 2" if "bit m n" for n
  proof -
    have "take_bit 2 m = m" using assms
      by (simp add: take_bit_eq_mod word_unat_eq_iff unat_mod_distrib word_less_nat_alt)
    then show ?thesis using that bit_take_bit_iff [of 2 m n] by auto
  qed
  have bits: "bit (modrm_byte m r b) n \<longleftrightarrow>
      n < 8 \<and> (if n < 3 then bit b n else if n < 6 then bit r (n - 3) else bit m (n - 6))" for n
    using bit_imp_le_length [of b n]
    by (auto simp: modrm_byte_def and_seven bit_or_iff bit_push_bit_iff bit_take_bit_iff)
  show "drop_bit 6 (modrm_byte m r b) = m"
    by (rule bit_word_eqI) (use m in \<open>auto simp: bit_drop_bit_eq bits\<close>)
  show "drop_bit 3 (modrm_byte m r b) AND 7 = r AND 7"
    by (rule bit_word_eqI) (auto simp: bit_drop_bit_eq bits and_seven bit_take_bit_iff)
  show "modrm_byte m r b AND 7 = b AND 7"
    by (rule bit_word_eqI) (auto simp: bits and_seven bit_take_bit_iff)
qed

lemma register_split:
  assumes "reg_num r < 16"
  shows "rex_reg (cg_is_r8_or_above r) (x64_reg r AND 7) = reg_num r"
  using assms by (cases r) (simp_all add: rex_reg_def cg_is_r8_or_above_def x64_reg_def word_le_nat_alt)

lemma rex_fields:
  "split_rex (rex_byte True r False b # bs) = (rex_byte True r False b, bs)"
  "bit (rex_byte True r False b) 3" "bit (rex_byte True r False b) 2 = r" "bit (rex_byte True r False b) 0 = b"
  by (cases r; cases b; simp add: split_rex_def rex_byte_def)+

text \<open>The registers a call names are general ones, and PUSH and POP have one below R8.\<close>

primrec plain_registers :: "x64_call \<Rightarrow> bool" where
  "plain_registers (OMovRR d s) \<longleftrightarrow> reg_num d < 16 \<and> reg_num s < 16"
| "plain_registers (OTestRR d s) \<longleftrightarrow> reg_num d < 16 \<and> reg_num s < 16"
| "plain_registers (OXchgRR d s) \<longleftrightarrow> reg_num d < 16 \<and> reg_num s < 16"
| "plain_registers (OAddRR d s) \<longleftrightarrow> reg_num d < 16 \<and> reg_num s < 16"
| "plain_registers (OSubRR d s) \<longleftrightarrow> reg_num d < 16 \<and> reg_num s < 16"
| "plain_registers (OAndRR d s) \<longleftrightarrow> reg_num d < 16 \<and> reg_num s < 16"
| "plain_registers (OOrRR d s) \<longleftrightarrow> reg_num d < 16 \<and> reg_num s < 16"
| "plain_registers (OXorRR d s) \<longleftrightarrow> reg_num d < 16 \<and> reg_num s < 16"
| "plain_registers (OCmpRR d s) \<longleftrightarrow> reg_num d < 16 \<and> reg_num s < 16"
| "plain_registers (OMovRI d v) \<longleftrightarrow> reg_num d < 16"
| "plain_registers (OAddRI d v) \<longleftrightarrow> reg_num d < 16"
| "plain_registers (OSubRI d v) \<longleftrightarrow> reg_num d < 16"
| "plain_registers (OPush r) \<longleftrightarrow> reg_num r < 8"
| "plain_registers (OPop r) \<longleftrightarrow> reg_num r < 8"
| "plain_registers ORet \<longleftrightarrow> True"
| "plain_registers ONop \<longleftrightarrow> True"
| "plain_registers (OJmp t c) \<longleftrightarrow> True"
| "plain_registers (OCall t c) \<longleftrightarrow> True"

lemma decode_rr:
  assumes "reg_num d < 16" "reg_num s < 16" "op \<in> rr_opcodes"
  shows "x64_decode (rr_bytes op d s @ bs) = Some (XRR op (reg_num d) (reg_num s), bs)"
proof -
  have "(3 :: u8) < 4" by simp
  note f = modrm_fields [OF this]
  show ?thesis
    using assms
    by (simp add: x64_decode_def rr_bytes_def rex_fields Let_def f register_split)
qed

lemma decode_ri:
  assumes "reg_num d < 16"
  shows "x64_decode (ri_bytes 0 d v @ bs) = Some (XAddRI (reg_num d) v, bs)"
    "x64_decode (ri_bytes 5 d v @ bs) = Some (XSubRI (reg_num d) v, bs)"
proof -
  have "(3 :: u8) < 4" by simp
  note f = modrm_fields [OF this]
  show "x64_decode (ri_bytes 0 d v @ bs) = Some (XAddRI (reg_num d) v, bs)"
    "x64_decode (ri_bytes 5 d v @ bs) = Some (XSubRI (reg_num d) v, bs)"
    using assms
    by (simp_all add: x64_decode_def ri_bytes_def rex_fields Let_def f register_split rr_opcodes_def le_word_le_bytes)
qed

lemma low_three: "x AND 7 \<in> {0, 1, 2, 3, 4, 5, 6, 7 :: u8}"
proof -
  have "x AND 7 = x mod 8" by (simp add: and_seven take_bit_eq_mod)
  then have k: "unat (x AND 7) < 8" by (simp add: unat_mod_distrib)
  have "x AND 7 = of_nat (unat (x AND 7))" by simp
  moreover have "unat (x AND 7) \<in> {0, 1, 2, 3, 4, 5, 6, 7}" using k by auto
  ultimately show ?thesis by (elim insertE emptyE) (simp_all del: of_nat_unat)
qed

lemma low_opcode:
  assumes "k \<in> {0xB8, 0x50, 0x58}"
  shows "(k OR (x AND 7)) AND 0xF8 = (k :: u8)" "(k OR (x AND 7)) AND 7 = x AND 7"
    "k OR (x AND 7) \<notin> rr_opcodes" "(k OR (x AND 7)) AND 0xF0 \<noteq> 0x40" "k OR (x AND 7) \<noteq> 0x81"
proof -
  have "(k OR z) AND 0xF8 = k \<and> (k OR z) AND 7 = z \<and> k OR z \<notin> rr_opcodes \<and>
      (k OR z) AND 0xF0 \<noteq> 0x40 \<and> k OR z \<noteq> 0x81" if "z \<in> {0, 1, 2, 3, 4, 5, 6, 7}" for z
    using assms that by (elim insertE emptyE) (simp_all add: rr_opcodes_def)
  with low_three [of x] show "(k OR (x AND 7)) AND 0xF8 = (k :: u8)" "(k OR (x AND 7)) AND 7 = x AND 7"
    "k OR (x AND 7) \<notin> rr_opcodes" "(k OR (x AND 7)) AND 0xF0 \<noteq> 0x40" "k OR (x AND 7) \<noteq> 0x81"
    by blast+
qed

lemma low_register:
  assumes "reg_num r < 8"
  shows "x64_reg r AND 7 = reg_num r" "\<not> cg_is_r8_or_above r"
  using assms by (cases r; simp add: x64_reg_def cg_is_r8_or_above_def word_le_nat_alt)+

lemma decode_call:
  assumes "plain_registers c"
  shows "x64_decode (call_bytes c @ bs) = Some (call_meaning c, bs)"
proof (cases c)
  case (OMovRI d v)
  then show ?thesis
    using assms low_opcode [of "0xB8"]
    by (simp add: x64_decode_def rex_fields Let_def register_split le_word_le_bytes)
next
  case (OPush r)
  with assms have r: "reg_num r < 8" by simp
  show ?thesis
    unfolding OPush using low_opcode [of "0x50" "x64_reg r"]
    by (simp add: x64_decode_def split_rex_def Let_def rex_reg_def low_register [OF r])
next
  case (OPop r)
  with assms have r: "reg_num r < 8" by simp
  show ?thesis
    unfolding OPop using low_opcode [of "0x58" "x64_reg r"]
    by (simp add: x64_decode_def split_rex_def Let_def rex_reg_def low_register [OF r])
qed (use assms in \<open>simp_all add: decode_rr decode_ri rr_opcodes_def x64_decode_def [of "_ # _"] split_rex_def
    le_word_le_bytes\<close>)

lemma emits_program: "emits (fold emit_call cs) (concat (map call_bytes cs))"
proof (induction cs)
  case Nil
  then show ?case using emits_id by (simp add: id_def)
next
  case (Cons c cs)
  from emits_comp [OF emits_call [of c] this] show ?case by (simp add: comp_def)
qed

lemma decode_program:
  "\<forall>c\<in>set cs. plain_registers c \<Longrightarrow>
     x64_decode_all (length cs) (concat (map call_bytes cs) @ bs) = map call_meaning cs"
  by (induction cs) (simp_all add: decode_call)

section \<open>Properties\<close>

text \<open>C21: What is emitted is what was asked for: a sequence of calls of the emitter on general
  registers (PUSH and POP: below R8) leaves in a fresh buffer, when it fits, the code of
  exactly these instructions: read as x86-64, byte for byte, it is the documented instruction
  of each call with the same registers and immediates, in the same order.\<close>

theorem codegen_roundtrip:
  assumes "\<forall>c\<in>set cs. plain_registers c"
    and "length (concat (map call_bytes cs)) \<le> MAX_CODE_SIZE"
  shows "x64_decode_all (length cs) (cb_code (fold emit_call cs code_buffer_new)) = map call_meaning cs"
proof -
  have "cb_wf code_buffer_new" "cb_code code_buffer_new = []"
    by (simp_all add: code_buffer_new_def cb_wf_def cb_code_def)
  then have "cb_code (fold emit_call cs code_buffer_new) = concat (map call_bytes cs)"
    using emits_program [of cs] assms(2) by (simp add: emits_def)
  then show ?thesis using decode_program [OF assms(1), of "[]"] by simp
qed

theorem codegen_roundtrip_witness:
  "x64_decode_all 3 (cb_code (fold emit_call [OMovRI R9 5, OAddRR R9 RCX, ORet] code_buffer_new)) =
     [XMovRI 9 5, XRR 0x03 9 1, XRet]"
  using codegen_roundtrip [of "[OMovRI R9 5, OAddRR R9 RCX, ORet]"]
  by (simp add: rr_bytes_def MAX_CODE_SIZE_def numeral_3_eq_3)

text \<open>PUSH and POP lose the upper registers: the prefix that would name them is never emitted, since
  the number it is decided on is below 8 for every register; R8 to R15 are encoded as RAX to
  RDI.\<close>

theorem push_upper_register:
  assumes "8 \<le> reg_num r" "reg_num r < 16"
  shows "x64_decode (call_bytes (OPush r) @ bs) = Some (XPush (reg_num r - 8), bs)"
    and "x64_decode (call_bytes (OPop r) @ bs) = Some (XPop (reg_num r - 8), bs)"
proof -
  have r: "x64_reg r AND 7 = reg_num r - 8"
    using assms by (cases r) (simp_all add: x64_reg_def word_le_nat_alt)
  show "x64_decode (call_bytes (OPush r) @ bs) = Some (XPush (reg_num r - 8), bs)"
    "x64_decode (call_bytes (OPop r) @ bs) = Some (XPop (reg_num r - 8), bs)"
    using low_opcode [of "0x50" "x64_reg r"] low_opcode [of "0x58" "x64_reg r"]
    by (simp_all add: x64_decode_def split_rex_def Let_def rex_reg_def r)
qed

text \<open>A relative jump or call, whose displacement lies at \<open>current\<close>, reaches its target exactly when
  the distance from the end of the instruction fits 32 signed bits; the emitter does not check
  it and cuts the distance.\<close>

theorem rel32_reaches:
  "current + 4 + scast (rel32 target current) = target \<longleftrightarrow>
     - (2 ^ 31) \<le> sint (target - (current + 4)) \<and> sint (target - (current + 4)) < 2 ^ 31"
proof -
  define d where "d = target - (current + 4)"
  have "sint (scast (ucast d :: u32) :: u64) = signed_take_bit 31 (sint d)"
    by (rule bit_eqI) (auto simp: bit_sint_iff bit_signed_iff bit_ucast_iff bit_signed_take_bit_iff min_def not_le)
  then have "scast (ucast d :: u32) = d \<longleftrightarrow> signed_take_bit 31 (sint d) = sint d"
    by (metis signed_word_eqI)
  moreover have "current + 4 + scast (rel32 target current) = target \<longleftrightarrow> scast (ucast d :: u32) = d"
    by (auto simp: rel32_def d_def algebra_simps)
  ultimately show ?thesis by (simp add: signed_take_bit_int_eq_self_iff d_def)
qed

end
