(* ===== verification/Sim8088.thy ===== *)
theory Sim8088
  imports Prelude
begin

text \<open>
  The 8088 simulator, \<open>dbt/x8088.rs\<close> and \<open>dbt/bin/sim8088.rs\<close>: processor, 1 MB memory, the shim
  for software interrupts, the decoder, one step, and the simulation loop with the program of
  the \<open>bench\<close> command. The characters the shim prints are a field; progress and trace lines,
  times and the command line are not modelled. A step that never returns is \<open>None\<close>.
\<close>

section \<open>State\<close>

datatype inst_category =
    CatAlu | CatMov | CatJmp | CatJcc | CatCall | CatRet | CatPush | CatPop | CatString |
    CatSystem | CatOther

record inst_8088 =
  di_opcode :: u16
  di_length :: u8
  di_immediate :: u16
  di_immediate2 :: u16
  di_disp_size :: u8
  di_displacement :: u16
  di_is_far :: bool
  di_category :: inst_category
  di_mnemonic :: string

definition ip_after :: "inst_8088 \<Rightarrow> u16 \<Rightarrow> u16" where
  "ip_after i current_ip = current_ip + ucast (di_length i)"

definition branch_target :: "inst_8088 \<Rightarrow> u16 \<Rightarrow> u16" where
  "branch_target i current_ip = ip_after i current_ip + di_displacement i"

record cpu_8088 =
  c_ax :: u16
  c_bx :: u16
  c_cx :: u16
  c_dx :: u16
  c_si :: u16
  c_di :: u16
  c_sp :: u16
  c_bp :: u16
  c_cs :: u16
  c_ds :: u16
  c_es :: u16
  c_ss :: u16
  c_ip :: u16
  c_flags :: u16
  c_halted :: bool
  c_interrupts_enabled :: bool

definition cpu_new :: cpu_8088 where
  "cpu_new =
     \<lparr>c_ax = 0, c_bx = 0, c_cx = 0, c_dx = 0, c_si = 0, c_di = 0, c_sp = 0xFFFE, c_bp = 0,
      c_cs = 0xF000, c_ds = 0, c_es = 0, c_ss = 0, c_ip = 0xFFF0, c_flags = 0x0002,
      c_halted = False, c_interrupts_enabled = False\<rparr>"

definition linear :: "u16 \<Rightarrow> u16 \<Rightarrow> u32" where
  "linear seg off = push_bit 4 (ucast seg) + ucast off"

definition flag_cf :: "cpu_8088 \<Rightarrow> bool" where "flag_cf c \<longleftrightarrow> c_flags c AND 0x0001 \<noteq> 0"
definition flag_zf :: "cpu_8088 \<Rightarrow> bool" where "flag_zf c \<longleftrightarrow> c_flags c AND 0x0040 \<noteq> 0"
definition flag_sf :: "cpu_8088 \<Rightarrow> bool" where "flag_sf c \<longleftrightarrow> c_flags c AND 0x0080 \<noteq> 0"
definition of_flag :: "cpu_8088 \<Rightarrow> bool" where "of_flag c \<longleftrightarrow> c_flags c AND 0x0800 \<noteq> 0"
definition int_flag :: "cpu_8088 \<Rightarrow> bool" where "int_flag c \<longleftrightarrow> c_flags c AND 0x0200 \<noteq> 0"
definition flag_df :: "cpu_8088 \<Rightarrow> bool" where "flag_df c \<longleftrightarrow> c_flags c AND 0x0400 \<noteq> 0"

text \<open>Memory: a byte for each of the addresses below 0x100000, which accesses are reduced to.\<close>

type_synonym memory_8088 = "u32 \<Rightarrow> u8"

definition memory_new :: memory_8088 where "memory_new = (\<lambda>_. 0)"

definition read8 :: "memory_8088 \<Rightarrow> u32 \<Rightarrow> u8" where
  "read8 mem addr = mem (addr AND 0xFFFFF)"

definition write8 :: "u32 \<Rightarrow> u8 \<Rightarrow> memory_8088 \<Rightarrow> memory_8088" where
  "write8 addr v mem = mem(addr AND 0xFFFFF := v)"

definition read16 :: "memory_8088 \<Rightarrow> u32 \<Rightarrow> u16" where
  "read16 mem addr = ucast (read8 mem addr) OR push_bit 8 (ucast (read8 mem (addr + 1)))"

definition write16 :: "u32 \<Rightarrow> u16 \<Rightarrow> memory_8088 \<Rightarrow> memory_8088" where
  "write16 addr v mem = write8 (addr + 1) (ucast (drop_bit 8 v)) (write8 addr (ucast v) mem)"

definition load_at :: "u32 \<Rightarrow> u8 list \<Rightarrow> memory_8088 \<Rightarrow> memory_8088" where
  "load_at phys data mem =
     (let base = unat (phys AND 0xFFFFF); len = min (length data) (0x100000 - base)
      in (\<lambda>a. if base \<le> unat a \<and> unat a < base + len then data ! (unat a - base) else mem a))"

record x8088 =
  x_cpu :: cpu_8088
  x_mem :: memory_8088
  x_dos_break :: bool
  x_output :: "u8 list"
  x_trace :: bool
  x_cycles :: u64

definition x8088_new :: x8088 where
  "x8088_new =
     \<lparr>x_cpu = cpu_new, x_mem = memory_new, x_dos_break = False, x_output = [], x_trace = False,
      x_cycles = 0\<rparr>"

definition load_image :: "u8 list \<Rightarrow> u32 \<Rightarrow> x8088 \<Rightarrow> x8088" where
  "load_image data phys_base s = s\<lparr>x_mem := load_at phys_base data (x_mem s)\<rparr>"

definition set_entry :: "u16 \<Rightarrow> u16 \<Rightarrow> u16 \<Rightarrow> u16 \<Rightarrow> x8088 \<Rightarrow> x8088" where
  "set_entry cs ip ss sp s =
     s\<lparr>x_cpu := (x_cpu s)\<lparr>c_cs := cs, c_ip := ip, c_ss := ss, c_sp := sp\<rparr>\<rparr>"

section \<open>Software interrupts\<close>

text \<open>The characters from \<open>addr\<close> up to the first dollar sign.\<close>

partial_function (option) print_string :: "memory_8088 \<Rightarrow> u32 \<Rightarrow> u8 list \<Rightarrow> u8 list option" where
  "print_string mem addr out =
     (let c = read8 mem addr in
      if c = 0x24 then Some out else print_string mem (addr + 1) (out @ [c]))"

text \<open>The result says whether the interrupt was consumed.\<close>

definition handle_int :: "u8 \<Rightarrow> x8088 \<Rightarrow> (bool \<times> x8088) option" where
  "handle_int int_num s =
     (let cpu = x_cpu s in
      if int_num = 0x10 then Some (True, s)
      else if int_num = 0x16 then Some (True, s\<lparr>x_cpu := cpu\<lparr>c_ax := 0\<rparr>\<rparr>)
      else if int_num = 0x20 then Some (True, s\<lparr>x_dos_break := True\<rparr>)
      else if int_num = 0x21 then
        (let ah = ucast (drop_bit 8 (c_ax cpu)) :: u8 in
         if ah = 0x02 then Some (True, s\<lparr>x_output := x_output s @ [ucast (c_dx cpu AND 0xFF)]\<rparr>)
         else if ah = 0x09 then
           (case print_string (x_mem s) (linear (c_ds cpu) (c_dx cpu)) (x_output s) of
              None \<Rightarrow> None
            | Some out \<Rightarrow> Some (True, s\<lparr>x_output := out\<rparr>))
         else if ah = 0x4C then Some (True, s\<lparr>x_dos_break := True\<rparr>)
         else Some (True, s))
      else Some (False, s))"

section \<open>Decoder\<close>

definition decode_8088 :: "memory_8088 \<Rightarrow> u16 \<Rightarrow> u16 \<Rightarrow> inst_8088 option" where
  "decode_8088 mem cs ip =
     (let phys = push_bit 4 (ucast cs) + ucast ip :: u32; b0 = read8 mem phys;
          rel8 = scast (read8 mem (phys + 1)) :: u16; word = read16 mem (phys + 1);
          inst = (\<lambda>mnemonic category len imm disp_sz disp far.
            Some \<lparr>di_opcode = ucast b0, di_length = len, di_immediate = imm, di_immediate2 = 0,
                  di_disp_size = disp_sz, di_displacement = disp, di_is_far = far,
                  di_category = category, di_mnemonic = mnemonic\<rparr>) in
      if b0 = 0x90 then inst ''NOP'' CatOther 1 0 0 0 False
      else if b0 = 0xF4 then inst ''HLT'' CatSystem 1 0 0 0 False
      else if b0 = 0xFA then inst ''CLI'' CatSystem 1 0 0 0 False
      else if b0 = 0xFB then inst ''STI'' CatSystem 1 0 0 0 False
      else if 0x70 \<le> b0 \<and> b0 \<le> 0x7F then inst ''Jcc'' CatJcc 2 0 1 rel8 False
      else if b0 = 0xEB then inst ''JMP'' CatJmp 2 0 1 rel8 False
      else if b0 = 0xE9 then inst ''JMP'' CatJmp 3 0 2 word False
      else if b0 = 0xEA then inst ''JMP FAR'' CatJmp 5 word 2 0 True
      else if b0 = 0xE8 then inst ''CALL'' CatCall 3 0 2 word False
      else if b0 = 0xC3 then inst ''RET'' CatRet 1 0 0 0 False
      else if b0 = 0xC2 then inst ''RET'' CatRet 3 word 2 0 False
      else if b0 = 0xCD then inst ''INT'' CatSystem 2 (ucast (read8 mem (phys + 1))) 1 0 False
      else if 0x50 \<le> b0 \<and> b0 \<le> 0x5F then
        inst (if b0 < 0x58 then ''PUSH'' else ''POP'') (if b0 < 0x58 then CatPush else CatPop) 1 0 0 0 False
      else if 0xB0 \<le> b0 \<and> b0 \<le> 0xBF then
        (let wide = (b0 AND 0x08 \<noteq> 0);
             (imm, len) = (if wide then (word, 3) else (ucast (read8 mem (phys + 1)), 2))
         in inst ''MOV'' CatMov len imm (if wide then 2 else 1) 0 False)
      else inst ''???'' CatOther 1 0 0 0 False)"

section \<open>One step\<close>

definition read_gp16 :: "cpu_8088 \<Rightarrow> u8 \<Rightarrow> u16" where
  "read_gp16 c idx =
     (let r = idx AND 7 in
      if r = 0 then c_ax c else if r = 1 then c_cx c else if r = 2 then c_dx c
      else if r = 3 then c_bx c else if r = 4 then c_sp c else if r = 5 then c_bp c
      else if r = 6 then c_si c else c_di c)"

definition write_gp16 :: "u8 \<Rightarrow> u16 \<Rightarrow> cpu_8088 \<Rightarrow> cpu_8088" where
  "write_gp16 idx v c =
     (let r = idx AND 7 in
      if r = 0 then c\<lparr>c_ax := v\<rparr> else if r = 1 then c\<lparr>c_cx := v\<rparr> else if r = 2 then c\<lparr>c_dx := v\<rparr>
      else if r = 3 then c\<lparr>c_bx := v\<rparr> else if r = 4 then c\<lparr>c_sp := v\<rparr> else if r = 5 then c\<lparr>c_bp := v\<rparr>
      else if r = 6 then c\<lparr>c_si := v\<rparr> else c\<lparr>c_di := v\<rparr>)"

text \<open>A 16-bit push and pop on SS:SP; \<open>exec_8088\<close> is the dispatch, after IP and the cycle count have
  been advanced; \<open>ip\<close> is the address of the instruction.\<close>

definition push16 :: "u16 \<Rightarrow> x8088 \<Rightarrow> x8088" where
  "push16 v s =
     (let sp = c_sp (x_cpu s) - 2
      in s\<lparr>x_cpu := (x_cpu s)\<lparr>c_sp := sp\<rparr>, x_mem := write16 (linear (c_ss (x_cpu s)) sp) v (x_mem s)\<rparr>)"

definition top16 :: "x8088 \<Rightarrow> u16" where
  "top16 s = read16 (x_mem s) (linear (c_ss (x_cpu s)) (c_sp (x_cpu s)))"

definition on_cpu :: "(cpu_8088 \<Rightarrow> cpu_8088) \<Rightarrow> x8088 \<Rightarrow> x8088" where
  "on_cpu f s = s\<lparr>x_cpu := f (x_cpu s)\<rparr>"

definition exec_8088 :: "inst_8088 \<Rightarrow> u16 \<Rightarrow> x8088 \<Rightarrow> (bool \<times> x8088) option" where
  "exec_8088 i ip s =
     (let go = (\<lambda>s. Some (\<not> x_dos_break s, s)); op = ucast (di_opcode i) :: u8 in
      case di_category i of
        CatSystem \<Rightarrow>
          if op = 0xF4 then Some (False, on_cpu (\<lambda>c. c\<lparr>c_halted := True\<rparr>) s)
          else if op = 0xFA then go (on_cpu (\<lambda>c. c\<lparr>c_interrupts_enabled := False\<rparr>) s)
          else if op = 0xFB then go (on_cpu (\<lambda>c. c\<lparr>c_interrupts_enabled := True\<rparr>) s)
          else if op = 0xCD then
            (case handle_int (ucast (di_immediate i)) s of None \<Rightarrow> None | Some (_, s) \<Rightarrow> go s)
          else go s
      | CatJmp \<Rightarrow>
          if di_is_far i then go (on_cpu (\<lambda>c. c\<lparr>c_ip := di_immediate i, c_cs := di_immediate2 i\<rparr>) s)
          else go (on_cpu (\<lambda>c. c\<lparr>c_ip := branch_target i ip\<rparr>) s)
      | CatJcc \<Rightarrow> go (on_cpu (\<lambda>c. c\<lparr>c_ip := branch_target i ip\<rparr>) s)
      | CatCall \<Rightarrow>
          go (on_cpu (\<lambda>c. c\<lparr>c_ip := branch_target i ip\<rparr>) (push16 (ip + ucast (di_length i)) s))
      | CatRet \<Rightarrow>
          go (on_cpu (\<lambda>c. let c = c\<lparr>c_ip := top16 s, c_sp := c_sp c + 2\<rparr>
                in if di_immediate i > 0 then c\<lparr>c_sp := c_sp c + di_immediate i\<rparr> else c) s)
      | CatPush \<Rightarrow> go (push16 (read_gp16 (x_cpu s) (op AND 0x07)) s)
      | CatPop \<Rightarrow> go (on_cpu (\<lambda>c. write_gp16 (op AND 0x07) (top16 s) (c\<lparr>c_sp := c_sp c + 2\<rparr>)) s)
      | CatMov \<Rightarrow> go (on_cpu (write_gp16 (op AND 0x07) (di_immediate i)) s)
      | _ \<Rightarrow> go s)"

definition step_8088 :: "x8088 \<Rightarrow> (bool \<times> x8088) option" where
  "step_8088 s =
     (if c_halted (x_cpu s) then Some (False, s)
      else (let cs = c_cs (x_cpu s); ip = c_ip (x_cpu s) in
        case decode_8088 (x_mem s) cs ip of
          None \<Rightarrow> Some (False, s)
        | Some i \<Rightarrow>
            exec_8088 i ip
              (s\<lparr>x_cpu := (x_cpu s)\<lparr>c_ip := c_ip (x_cpu s) + ucast (di_length i)\<rparr>,
                 x_cycles := x_cycles s + ucast (di_length i) + 4\<rparr>)))"

section \<open>The simulation loop\<close>

datatype final_state = HltReached | DosExit | CycleLimit

text \<open>\<open>n\<close> is \<open>max_cycles - cycles\<close>, so the loop ends; the result has the number of steps.\<close>

primrec simulation_loop :: "nat \<Rightarrow> u64 \<Rightarrow> x8088 \<Rightarrow> (u64 \<times> x8088) option" where
  "simulation_loop 0 cycles s = Some (cycles, s)"
| "simulation_loop (Suc n) cycles s =
     (case step_8088 s of
        None \<Rightarrow> None
      | Some (running, s) \<Rightarrow>
          if \<not> running \<or> c_halted (x_cpu s) \<or> x_dos_break s then Some (cycles + 1, s)
          else simulation_loop n (cycles + 1) s)"

definition final_state :: "x8088 \<Rightarrow> final_state" where
  "final_state s =
     (if c_halted (x_cpu s) then HltReached else if x_dos_break s then DosExit else CycleLimit)"

definition run_simulation :: "u64 \<Rightarrow> bool \<Rightarrow> x8088 \<Rightarrow> (u64 \<times> x8088 \<times> final_state) option" where
  "run_simulation max_cycles trace s =
     (case simulation_loop (unat max_cycles) 0 (s\<lparr>x_trace := trace\<rparr>) of
        None \<Rightarrow> None
      | Some (cycles, s) \<Rightarrow> Some (cycles, s, final_state s))"

definition boot_disk :: "u8 list \<Rightarrow> x8088" where
  "boot_disk data = set_entry 0 0x7C00 0 0xFFFE (load_image data 0x7C00 x8088_new)"

definition bench_program :: "u8 list" where
  "bench_program = [0xB8, 0x01, 0x00, 0xBB, 0x10, 0x00, 0x01, 0xC0, 0x4B, 0x75, 0xFB, 0xF4]"

definition bench_start :: x8088 where
  "bench_start = set_entry 0 0x0100 0 0xFFFE (load_image bench_program 0x0100 x8088_new)"

section \<open>Memory\<close>

lemma next_address: "(a + 1) AND 0xFFFFF \<noteq> a AND (0xFFFFF :: u32)"
proof
  assume eq: "(a + 1) AND 0xFFFFF = a AND 0xFFFFF"
  have "bit ((a + 1) AND 0xFFFFF) 0 = bit (a AND 0xFFFFF) 0" unfolding eq ..
  then have "bit (a + 1) 0 = bit a 0" unfolding bit_and_iff by simp
  then show False by (simp add: bit_0)
qed

lemma read16_write16: "read16 (write16 a v mem) a = v"
proof -
  have "ucast (ucast v :: u8) OR push_bit 8 (ucast (ucast (drop_bit 8 v) :: u8)) = v"
    by (rule bit_word_eqI) (auto simp: bit_or_iff bit_unsigned_iff bit_push_bit_iff bit_drop_bit_eq)
  then show ?thesis
    using next_address [of a] by (simp add: read16_def write16_def read8_def write8_def)
qed

lemma top16_push16 [simp]: "top16 (push16 v s) = v"
  by (simp add: top16_def push16_def Let_def read16_write16)

section \<open>The bench program\<close>

definition bench_memory :: memory_8088 where
  "bench_memory = load_at 0x0100 bench_program memory_new"

definition bench_state :: "x8088 \<Rightarrow> bool" where
  "bench_state s \<longleftrightarrow> x_mem s = bench_memory \<and> c_cs (x_cpu s) = 0 \<and> \<not> c_halted (x_cpu s) \<and>
     \<not> x_dos_break s \<and> c_ip (x_cpu s) \<in> {0x106, 0x107, 0x108, 0x109} \<and>
     c_ax (x_cpu s) = 1 \<and> c_bx (x_cpu s) = 16"

lemma bench_bytes:
  "read8 bench_memory 0x100 = 0xB8" "read8 bench_memory 0x101 = 0x01" "read8 bench_memory 0x102 = 0x00"
  "read8 bench_memory 0x103 = 0xBB" "read8 bench_memory 0x104 = 0x10" "read8 bench_memory 0x105 = 0x00"
  "read8 bench_memory 0x106 = 0x01" "read8 bench_memory 0x107 = 0xC0" "read8 bench_memory 0x108 = 0x4B"
  "read8 bench_memory 0x109 = 0x75" "read8 bench_memory 0x10A = 0xFB"
  by (simp_all add: read8_def bench_memory_def load_at_def bench_program_def)

lemma bench_decode:
  "decode_8088 bench_memory 0 0x106 = Some \<lparr>di_opcode = 0x01, di_length = 1, di_immediate = 0, di_immediate2 = 0,
     di_disp_size = 0, di_displacement = 0, di_is_far = False, di_category = CatOther, di_mnemonic = ''???''\<rparr>"
  "decode_8088 bench_memory 0 0x107 = Some \<lparr>di_opcode = 0xC0, di_length = 1, di_immediate = 0, di_immediate2 = 0,
     di_disp_size = 0, di_displacement = 0, di_is_far = False, di_category = CatOther, di_mnemonic = ''???''\<rparr>"
  "decode_8088 bench_memory 0 0x108 = Some \<lparr>di_opcode = 0x4B, di_length = 1, di_immediate = 0, di_immediate2 = 0,
     di_disp_size = 0, di_displacement = 0, di_is_far = False, di_category = CatOther, di_mnemonic = ''???''\<rparr>"
  "decode_8088 bench_memory 0 0x109 = Some \<lparr>di_opcode = 0x75, di_length = 2, di_immediate = 0, di_immediate2 = 0,
     di_disp_size = 1, di_displacement = - 5, di_is_far = False, di_category = CatJcc, di_mnemonic = ''Jcc''\<rparr>"
  by (simp_all add: decode_8088_def Let_def bench_bytes word_le_nat_alt)

lemma bench_step:
  assumes "bench_state s"
  obtains s' where "step_8088 s = Some (True, s')" "bench_state s'"
  using assms
  by (auto simp: bench_state_def step_8088_def Let_def bench_decode exec_8088_def on_cpu_def ip_after_def
      branch_target_def)

lemma bench_run:
  "bench_state s \<Longrightarrow> \<exists>s'. simulation_loop n c s = Some (c + of_nat n, s') \<and> bench_state s'"
proof (induction n arbitrary: c s)
  case (Suc n)
  obtain s' where s': "step_8088 s = Some (True, s')" "bench_state s'" by (rule bench_step [OF Suc.prems])
  from Suc.IH [OF s'(2), of "c + 1"] s' show ?case by (auto simp: bench_state_def add.assoc)
qed simp

lemma bench_first_steps:
  assumes "x_mem s = bench_memory" "c_cs (x_cpu s) = 0" "\<not> c_halted (x_cpu s)" "\<not> x_dos_break s"
  shows "c_ip (x_cpu s) = 0x100 \<Longrightarrow> step_8088 s = Some (True, s\<lparr>x_cycles := x_cycles s + 3 + 4,
      x_cpu := (x_cpu s)\<lparr>c_ip := 0x103, c_ax := 1\<rparr>\<rparr>)"
    and "c_ip (x_cpu s) = 0x103 \<Longrightarrow> step_8088 s = Some (True, s\<lparr>x_cycles := x_cycles s + 3 + 4,
      x_cpu := (x_cpu s)\<lparr>c_ip := 0x106, c_bx := 16\<rparr>\<rparr>)"
  using assms
  by (auto simp: step_8088_def Let_def decode_8088_def bench_bytes read16_def word_le_nat_alt word_less_nat_alt
      exec_8088_def on_cpu_def write_gp16_def)

section \<open>Properties\<close>

text \<open>C39: The bench program never halts: however many steps the simulator is given, it stops at the
  limit. The decrement of the loop counter is not decoded, the conditional jump is always
  taken, and so after the first two steps AX and BX keep the values 1 and 16 for ever.\<close>

theorem bench_never_halts:
  "\<exists>s. run_simulation n trace bench_start = Some (n, s, CycleLimit) \<and>
     (2 \<le> n \<longrightarrow> c_ax (x_cpu s) = 1 \<and> c_bx (x_cpu s) = 16)"
proof -
  define s0 where "s0 = bench_start\<lparr>x_trace := trace\<rparr>"
  define s1 where "s1 = s0\<lparr>x_cycles := x_cycles s0 + 3 + 4, x_cpu := (x_cpu s0)\<lparr>c_ip := 0x103, c_ax := 1\<rparr>\<rparr>"
  define s2 where "s2 = s1\<lparr>x_cycles := x_cycles s1 + 3 + 4, x_cpu := (x_cpu s1)\<lparr>c_ip := 0x106, c_bx := 16\<rparr>\<rparr>"
  have start: "x_mem s0 = bench_memory" "c_cs (x_cpu s0) = 0" "\<not> c_halted (x_cpu s0)" "\<not> x_dos_break s0"
    "c_ip (x_cpu s0) = 0x100"
    by (simp_all add: s0_def bench_start_def set_entry_def load_image_def x8088_new_def cpu_new_def bench_memory_def)
  then have next': "x_mem s1 = bench_memory" "c_cs (x_cpu s1) = 0" "\<not> c_halted (x_cpu s1)" "\<not> x_dos_break s1"
    "c_ip (x_cpu s1) = 0x103" "c_ax (x_cpu s1) = 1"
    by (simp_all add: s1_def)
  then have inv: "bench_state s2" by (simp add: bench_state_def s2_def)
  have steps: "step_8088 s0 = Some (True, s1)" "step_8088 s1 = Some (True, s2)"
    using bench_first_steps(1) [of s0] bench_first_steps(2) [of s1] start next' by (simp_all add: s1_def s2_def)
  consider "unat n = 0" | "unat n = 1" | k where "unat n = Suc (Suc k)"
    by (metis One_nat_def not0_implies_Suc)
  then have "\<exists>s. simulation_loop (unat n) 0 s0 = Some (n, s) \<and> \<not> c_halted (x_cpu s) \<and> \<not> x_dos_break s \<and>
      (2 \<le> n \<longrightarrow> c_ax (x_cpu s) = 1 \<and> c_bx (x_cpu s) = 16)"
  proof cases
    case 1
    then have "n = 0" by (simp add: unat_eq_0)
    then show ?thesis using start by simp
  next
    case 2
    moreover have "of_nat (unat n) = n" by simp
    ultimately have "n = 1" by simp
    then show ?thesis using next' by (simp add: steps word_le_nat_alt)
  next
    case 3
    obtain s' where s': "simulation_loop k 2 s2 = Some (2 + of_nat k, s')" "bench_state s'"
      using bench_run [OF inv] by blast
    have "of_nat (Suc (Suc k)) = n" unfolding 3 [symmetric] by simp
    then have "2 + of_nat k = n" by (simp add: add.assoc)
    with s' next' inv show ?thesis by (simp add: 3 steps bench_state_def)
  qed
  then show ?thesis by (auto simp: run_simulation_def final_state_def s0_def)
qed

theorem bench_never_halts_witness:
  "\<exists>s. run_simulation 100000 False bench_start = Some (100000, s, CycleLimit) \<and> c_bx (x_cpu s) = 16"
  using bench_never_halts [of 100000 False] by auto

text \<open>C40: CALL and RET undo each other: a near CALL whose target holds a RET comes back, two steps
  later, to the instruction after the call, with every register but IP and all memory below
  the two stack bytes as before; wherever the stack lies, also when SP or the address wraps.\<close>

theorem call_returns:
  fixes s :: x8088
  defines "c \<equiv> x_cpu s"
  defines "here \<equiv> linear (c_cs c) (c_ip c)"
  defines "target \<equiv> c_ip c + 3 + read16 (x_mem s) (here + 1)"
    and "mem \<equiv> write16 (linear (c_ss c) (c_sp c - 2)) (c_ip c + 3) (x_mem s)"
  assumes "\<not> c_halted c" "\<not> x_dos_break s" "read8 (x_mem s) here = 0xE8"
    and "read8 mem (linear (c_cs c) target) = 0xC3"
  shows "\<exists>s1 s2. step_8088 s = Some (True, s1) \<and> step_8088 s1 = Some (True, s2) \<and>
    x_cpu s2 = c\<lparr>c_ip := c_ip c + 3\<rparr> \<and> x_mem s2 = mem \<and> \<not> x_dos_break s2"
proof -
  define s1 where "s1 = s\<lparr>x_cpu := c\<lparr>c_ip := target, c_sp := c_sp c - 2\<rparr>, x_mem := mem,
    x_cycles := x_cycles s + 3 + 4\<rparr>"
  have d: "decode_8088 (x_mem s) (c_cs c) (c_ip c) =
      Some \<lparr>di_opcode = 0xE8, di_length = 3, di_immediate = 0, di_immediate2 = 0, di_disp_size = 2,
        di_displacement = read16 (x_mem s) (here + 1), di_is_far = False, di_category = CatCall,
        di_mnemonic = ''CALL''\<rparr>"
    using assms(7) by (simp add: decode_8088_def Let_def here_def linear_def word_le_nat_alt)
  have one: "step_8088 s = Some (True, s1)"
    using assms(5,6) d
    by (simp add: step_8088_def Let_def exec_8088_def on_cpu_def push16_def ip_after_def
        branch_target_def s1_def target_def mem_def c_def)
  have d2: "decode_8088 mem (c_cs c) target =
      Some \<lparr>di_opcode = 0xC3, di_length = 1, di_immediate = 0, di_immediate2 = 0, di_disp_size = 0,
        di_displacement = 0, di_is_far = False, di_category = CatRet, di_mnemonic = ''RET''\<rparr>"
    using assms(8) by (simp add: decode_8088_def Let_def linear_def word_le_nat_alt)
  have fields: "x_cpu s1 = c\<lparr>c_ip := target, c_sp := c_sp c - 2\<rparr>" "x_mem s1 = mem" "\<not> x_dos_break s1"
    using assms(6) by (simp_all add: s1_def)
  have top: "read16 mem (linear (c_ss c) (c_sp c - 2)) = c_ip c + 3"
    by (simp add: mem_def read16_write16)
  have "step_8088 s1 = Some (True, s1\<lparr>x_cpu := c\<lparr>c_ip := c_ip c + 3\<rparr>, x_cycles := x_cycles s1 + 1 + 4\<rparr>)"
    using assms(5) fields
    by (simp add: step_8088_def Let_def d2 exec_8088_def on_cpu_def top16_def top)
  with one fields show ?thesis by (intro exI conjI) (assumption | simp)+
qed

definition call_state :: x8088 where
  "call_state = set_entry 0 0x100 0 0x80 (load_image [0xE8, 0, 0, 0xC3] 0x100 x8088_new)"

theorem call_returns_witness:
  "\<exists>s1 s2. step_8088 call_state = Some (True, s1) \<and> step_8088 s1 = Some (True, s2) \<and> c_ip (x_cpu s2) = 0x103 \<and>
     c_sp (x_cpu s2) = 0x80"
proof -
  let ?c = "x_cpu call_state"
  have c: "c_cs ?c = 0" "c_ip ?c = 0x100" "c_ss ?c = 0" "c_sp ?c = 0x80" "\<not> c_halted ?c" "\<not> x_dos_break call_state"
    by (simp_all add: call_state_def set_entry_def load_image_def x8088_new_def cpu_new_def)
  have m: "read8 (x_mem call_state) 0x100 = 0xE8" "read16 (x_mem call_state) 0x101 = 0"
    "read8 (write16 0x7E 0x103 (x_mem call_state)) 0x103 = 0xC3"
    by (simp_all add: call_state_def set_entry_def load_image_def load_at_def read8_def read16_def write16_def write8_def)
  show ?thesis
    using call_returns [of call_state] c m by (auto simp: linear_def)
qed

text \<open>The DOS service that prints a string returns exactly when some byte of the megabyte is a
  dollar sign; otherwise the simulator hangs in it, reading the memory round and round.\<close>

theorem print_string_returns:
  "(\<exists>out'. print_string mem addr out = Some out') \<longleftrightarrow> (\<exists>a. read8 mem a = 0x24)"
proof
  assume "\<exists>out'. print_string mem addr out = Some out'"
  then obtain out' where "print_string mem addr out = Some out'" by (rule exE)
  then show "\<exists>a. read8 mem a = 0x24"
    by (rule print_string.raw_induct [where P = "\<lambda>mem _ _ _. \<exists>a. read8 mem a = 0x24", rotated])
       (auto simp: Let_def split: if_splits)
next
  have far: "read8 mem (addr + of_nat n) = 0x24 \<Longrightarrow> \<exists>out'. print_string mem addr out = Some out'" for n addr out
  proof (induction n arbitrary: addr out)
    case 0
    then show ?case by (subst print_string.simps) simp
  next
    case (Suc n)
    then have "read8 mem (addr + 1 + of_nat n) = 0x24" by (simp add: add.assoc)
    from Suc.IH [OF this, of "out @ [read8 mem addr]"] show ?case
      by (subst print_string.simps) (simp add: Let_def)
  qed
  assume "\<exists>a. read8 mem a = 0x24"
  then obtain a where "read8 mem a = 0x24" by (rule exE)
  then show "\<exists>out'. print_string mem addr out = Some out'"
    using far [of addr "unat (a - addr)" out] by simp
qed

text \<open>A conditional jump is taken whatever the flags.\<close>

theorem jcc_always_taken:
  assumes "\<not> c_halted (x_cpu s)" "c = x_cpu s" "p = linear (c_cs c) (c_ip c)"
    and "0x70 \<le> read8 (x_mem s) p" "read8 (x_mem s) p \<le> 0x7F"
  shows "\<exists>s'. step_8088 s = Some (\<not> x_dos_break s, s') \<and>
    c_ip (x_cpu s') = c_ip c + 2 + scast (read8 (x_mem s) (p + 1))"
proof -
  have "read8 (x_mem s) p \<notin> {0x90, 0xF4, 0xFA, 0xFB}" using assms(5) by (auto simp: word_le_nat_alt)
  then show ?thesis
    using assms
    by (simp add: step_8088_def Let_def decode_8088_def linear_def exec_8088_def on_cpu_def branch_target_def
        ip_after_def)
qed

text \<open>A byte MOV writes the 16-bit register with the same number: \<open>MOV AH, 0x4C\<close> sets SP to 0x4C.\<close>

theorem mov_ah_sets_sp:
  assumes "\<not> c_halted (x_cpu s)" "c = x_cpu s" "p = linear (c_cs c) (c_ip c)" "read8 (x_mem s) p = 0xB4"
  shows "\<exists>s'. step_8088 s = Some (\<not> x_dos_break s, s') \<and>
    x_cpu s' = c\<lparr>c_ip := c_ip c + 2, c_sp := ucast (read8 (x_mem s) (p + 1))\<rparr>"
  using assms
  by (simp add: step_8088_def Let_def decode_8088_def linear_def word_le_nat_alt exec_8088_def on_cpu_def
      write_gp16_def)

end
