(* ===== verification/Spec2Isabelle.thy ===== *)
theory Spec2Isabelle
  imports RobDistributor RobV72 MsrShadow CpuidSpoof HypervisorBackend TraceCacheLock
    L0Cache TagePredictor MacroOpFusion BandwidthGovernor InterruptLatency
    LegacyBoot BiosRun TestGuest ExitStubs TestSuite AsmWrappers GuestViews RobStatistics
    DbtTranslator DbtCodegen Sim8088
begin

text \<open>
  A verification development of the Bemi BIOS firmware: the UEFI driver that starts a
  Ring -1 hypervisor, the hardware-compatibility layer that shadows processor state, the
  performance models, the legacy boot support, and the binary translator that stands beside
  them. The models are translated from the C and assembly files under \<open>bemibiospkg\<close>,
  \<open>hwcompat\<close>, \<open>hypervisor\<close>, \<open>legacy\<close>, \<open>performance\<close> and \<open>tests\<close>, and from the Rust files under \<open>dbt\<close>; a
  definition has the name of the source's function, and a structure's record has a short
  prefix on its fields.

  The parts and how they interact. The entry point of \<open>dxe/bemibioscore.c\<close> detects the topology
  (\<open>post/postroutines.c\<close>), reads the boot mode from a firmware variable, fills the CPUID
  table (\<open>cpuidspoof.c\<close>), builds the ACPI and SMBIOS tables, and in legacy mode starts the
  hypervisor (\<open>vmxcore.c\<close> or \<open>hypervisorbackend.c\<close> with \<open>svmcore.c\<close>), gives the trace cache
  (\<open>tracecache.c\<close>) a buffer that the SMM handler (\<open>smmhandler.c\<close>) is told to protect, starts
  the memory compressor and runs a test guest. The VM-exit handlers use the CPUID and MSR
  instructions and the APIC shadow. The other performance components keep their own statics
  and are called by no other file. The binary translator is a library of its own: it decodes
  a block of x86 code into micro-operations (\<open>translator.rs\<close>), simplifies the block
  (\<open>optimizer.rs\<close>) and interprets it (\<open>executor/mod.rs\<close>); an emitter of x86-64 code
  (\<open>codegen/mod.rs\<close>) and a simulator of the 8088 (\<open>x8088.rs\<close>, \<open>bin/sim8088.rs\<close>) are beside it.

  Conventions. A global or static of a file is a field of a state record that every operation
  takes and returns. Integers have their C width (\<open>u8\<close> to \<open>u64\<close> of \<open>Prelude\<close>) and wrap; an
  index is a \<open>nat\<close>. \<open>EFI_STATUS\<close> is the datatype \<open>efi_status\<close>, so that every early return is a
  branch. A null pointer is \<open>None\<close>, and so is a division by zero. Where a call
  may not come back the result type is \<open>outcome\<close>: \<open>Done\<close>, \<open>Corrupts\<close> (an access outside the
  memory meant for it) or \<open>Hangs\<close>; the trace cache, vCPU creation, the run loops and the boot
  have it. Debug output is left out. What is not under src/ is a parameter: instructions (CPUID,
  MSR, VMX, port and time-stamp reads), the firmware services, allocators, the spin lock
  routines, block devices, the layouts of the industry-standard headers, the arithmetic on
  doubles, the decoder crate of the translator and its memory closures; and so are functions
  that the code calls and no file defines (\<open>AsmMsb32\<close>, \<open>BemiVmLaunch\<close>, a \<open>BemiVmRead\<close> with one
  argument, \<open>VmxExitDispatch\<close>). What a theorem needs of a parameter it names as a hypothesis, its
  text says so, and its witness gives an instance.

  The theories.
    \<^item> \<open>Prelude\<close>: integer types, status codes, the round-robin scan, loops with an early exit, the
      loop on a w-bit counter (\<open>word_for\<close>, which is \<open>None\<close> when the bound is the largest word),
      first matches. \<open>ByteLayout\<close>: writes at an offset, little-endian fields, and the locale
      \<open>packed_codec\<close> of tables of fixed-width records. \<open>FirstMatch\<close>, \<open>RobRing\<close> and
      \<open>InterruptController\<close>: the interfaces of a first-match table, a ring that retires in
      order, and an interrupt controller, as locales with their clients' lemmas.
    \<^item> \<open>RobDistributor\<close>, \<open>RobV72\<close> (\<open>performance/rob/robdistributor.c\<close>): the seven banks and the
      compressed rings of the reorder buffer, both interpretations of \<open>RobRing\<close>. Invariants of
      any run, which prefix a retirement releases, when allocation stalls, the accounting of
      the counters, the refusal of a double retirement, the spill ring that is never drained.
      \<open>RobStatistics\<close>: the figures that are printed.
    \<^item> \<open>TraceCache\<close> (\<open>performance/tcache/tracecache.c\<close>): the heap of entries, chains and buckets, and
      every function without its lock calls; it refines a partial map, and pinned entries
      survive eviction. \<open>TraceCacheLock\<close>: the functions with \<open>gTraceLock\<close>, which nothing initialises.
      With the lock as it is, the first operation hangs; with an initialised lock no run
      hangs, and the number of insertions that fit the region is exact.
    \<^item> \<open>L0Cache\<close>, \<open>TagePredictor\<close>, \<open>MacroOpFusion\<close>, \<open>BandwidthGovernor\<close>, \<open>MemoryCompressor\<close>,
      \<open>InterruptLatency\<close> (the other files of \<open>performance\<close>): the caches as a view of bytes, what
      a predictor learns, the fusion buffer as a log, the governor as a level that is monotone in the load, the compressor's
      counters, the event table as a bag.
    \<^item> \<open>MsrShadow\<close>, \<open>CpuidSpoof\<close>, \<open>ApicShadow\<close>, \<open>SmmHandler\<close>, \<open>AcpiTables\<close>, \<open>SmbiosTables\<close> (the
      files of \<open>hwcompat\<close>): the shadow table refines a map and is transparent for the guest; the
      leaves that are forced and those that are passed through; the order in which interrupts
      are delivered, for each meaning of \<open>AsmMsb32\<close>, and the one an end-of-interrupt retires;
      latency statistics and what the range registers' values cover; the bytes of
      the ACPI table and the strings of the SMBIOS structures.
    \<^item> \<open>Hardware\<close>, \<open>GuestState\<close>, \<open>VmxCore\<close>, \<open>SvmCore\<close>, \<open>HypervisorBackend\<close> (the files of
      \<open>hypervisor\<close> and its header): the processor as a record of functions, the guest state, the
      exit handlers with every guard, vCPU creation, the run loops. On AMD the run loop never
      ends and its guest never starts (\<open>svm_reach\<close> is the step relation of its turns).
      The wrapper of VMWRITE (\<open>vmxasm.nasm\<close>), whose operands are exchanged, is in \<open>VmxCore\<close>, so that
      every write to the VMCS goes through it. \<open>ExitStubs\<close>: the assembly entry of a VM exit joined
      with the exit handler. \<open>AsmWrappers\<close>: the other wrappers of single instructions, and the proof
      that a VM exit saves no guest state. \<open>GuestViews\<close>: the tables of \<open>hwcompat\<close> compared with
      the answers the guest gets from the exit handlers.
    \<^item> \<open>LegacyBoot\<close> (the files of \<open>legacy\<close>): disk, memory map and keyboard interrupts, the boot
      sector scan with the pool blocks it allocates and frees.
    \<^item> \<open>PostRoutines\<close>, \<open>BiosCore\<close>, \<open>BiosRun\<close> (\<open>bemibiospkg\<close>): power-on detection, the entry point
      over the components' models, and the machine's life as a step relation of protocol calls
      and resets, with the invariant of its reachable states. \<open>TestGuest\<close>: the boot joined with
      the hypervisors, where legacy boot hangs on AMD and the test guest leaves a vCPU on freed
      pages on Intel.
    \<^item> \<open>TestSuite\<close> (\<open>tests/testsuite.c\<close>): the self tests and their runner's counters.
    \<^item> \<open>DbtIr\<close>, \<open>DbtExecutor\<close> (\<open>dbt/ir.rs\<close>, \<open>dbt/executor/mod.rs\<close>): micro-operations, blocks, and their
      interpreter: a comparison and a jump decide the x86 condition, and a block fails only at
      a division. \<open>DbtOptimizer\<close>: the optimised block does what the block does. \<open>DbtTranslator\<close>
      (\<open>decoder.rs\<close>, \<open>translator.rs\<close>): the layout of a translated block, and the instructions whose
      translation is wrong. \<open>DbtCodegen\<close>: what is emitted decodes to the instructions asked for;
      \<open>x64_decode\<close> reads the subset of the x86-64 encoding that is emitted.
    \<^item> \<open>Sim8088\<close>: the simulator's processor, its interrupt services and its run loop; the benchmark
      never halts, CALL and RET undo each other, when the string service returns.

  The property at the end of this theory joins the started hypervisor with runs of the trace
  cache and of system-management interrupts.

  Bounds and fuel. Table sizes are those of the macros. The C loops over a fixed range are folds
  or searches over that range; \<open>rr_scan\<close> takes the number of banks as fuel and
  \<open>rr_scan_None_iff\<close> shows that to be enough. Walks along a chain of the trace cache, its warming loop and the
  CPUID loops are \<open>partial_function\<close>s, and that they end (or exactly when they do not) is proved.
  Runs of operations are lists of any length, except where a 64-bit counter is read as a
  number: there the length is below \<open>2 ^ 64\<close>.

  What the models show to be wrong in the code is listed with the theorems that prove it in
  the manifest; the texts before those theorems say it too.

  Not modelled, and why: the layout of printed text (of a printing function the figures are
  modelled) and debug output;
  the constant hit rates and bonuses; the prototypes and stub macros of the headers; of the
  simulator its argument parser, clock, progress output and instruction listing; the
  deployment scripts and benchmarks in Python, which are other programs; the archived copies
  of the C files under \<open>docs\<close>, which are fragments and older versions of the files modelled
  here.
\<close>

section \<open>The started system\<close>

text \<open>C4: after a hypervisor start, the first trace-cache operation hangs, because it takes
  \<open>gTraceLock\<close>, which nothing has initialised. Were the lock initialised, no sequence of
  operations whose insertions fit the configured size would corrupt memory or hang, and at the
  end every entry the cache knows would still lie inside the range the SMM handler was told
  about, above the cache's header. No sequence of system-management interrupts divides by zero
  or changes that range.\<close>

theorem running_system_protected:
  assumes "BemiInitHypervisor env n s = Done (EFI_SUCCESS, s')"
    and "\<not> EFI_ERROR (fst (hv_Init (en_hv env) n (bs_Hypervisor s)))"
    and "sizeof_header + sizeof_buckets + sizeof_entry * length (filter is_insert ops)
      \<le> unat (en_PcdBemiTraceCacheSize env)"
    and "spin_lock_law lib"
  shows "(ops \<noteq> [] \<longrightarrow> tl_run lib ops (gTraceLock, bs_TraceCache s') = Hangs) \<and>
    (\<exists>tc smm. tl_run lib ops (sl_Released lib, bs_TraceCache s') = Done (sl_Released lib, Some tc) \<and>
      smi_run ts (bs_Smm s') = Some smm \<and>
      sm_TraceCacheBase smm = sm_TraceCacheBase (bs_Smm s') \<and>
      sm_TraceCacheSize smm = sm_TraceCacheSize (bs_Smm s') \<and>
      (\<forall>rip ctx a. tc_map tc (rip, ctx) = Some a \<longrightarrow>
         unat (sm_TraceCacheBase smm) + sizeof_header \<le> unat a \<and>
         unat a + sizeof_entry \<le> unat (sm_TraceCacheBase smm) + unat (sm_TraceCacheSize smm)))"
proof -
  note sz = sizeof_header_def sizeof_buckets_def sizeof_entry_def TRACE_CACHE_HASH_BUCKETS_def
  let ?sz = "unat (en_PcdBemiTraceCacheSize env)"
  obtain tc0 where tc0: "bs_TraceCache s' = Some tc0" "tc_ok 0 tc0"
    "unat (tc_BaseAddress tc0) = unat (sm_TraceCacheBase (bs_Smm s')) + 56"
    "unat (tc_BucketBase tc0) + 524288 = unat (sm_TraceCacheBase (bs_Smm s')) + ?sz"
    and smm0: "unat (sm_TraceCacheSize (bs_Smm s')) = ?sz" "sm_TscFrequency (bs_Smm s') = 2500000000"
    using hypervisor_start_state [OF assms(1,2)] by auto
  obtain smm where smm: "smi_run ts (bs_Smm s') = Some smm" using smi_run_stats [OF smm0(2)] by blast
  have "\<not> unat (tc_BucketBase tc0) < unat (tc_BaseAddress tc0) + 64 * (0 + length (filter is_insert ops))"
    using tc0(3,4) assms(3) by (simp add: sz)
  then obtain tc where tc: "tc_run ops (Some tc0) = Done (Some tc)"
    using run_from [OF tc0(2), of ops] by blast
  then have tl: "tl_run lib ops (sl_Released lib, bs_TraceCache s') = Done (sl_Released lib, Some tc)"
    by (simp add: released_run [OF assms(4)] tc0(1))
  have "tc_ready (bs_TraceCache s')" using tc0(2) by (simp add: tc0(1) tc_ready_def tc_ok_def)
  then have "ops \<noteq> [] \<longrightarrow> tl_run lib ops (gTraceLock, bs_TraceCache s') = Hangs"
    using static_lock_run [OF assms(4)] by blast
  moreover obtain k where k: "tc_ok k tc" "tc_BaseAddress tc = tc_BaseAddress tc0" "tc_BucketBase tc = tc_BucketBase tc0"
    using run_region [OF tc0(2) tc] by blast
  have "unat (sm_TraceCacheBase smm) + sizeof_header \<le> unat a \<and>
      unat a + sizeof_entry \<le> unat (sm_TraceCacheBase smm) + unat (sm_TraceCacheSize smm)"
    if "tc_map tc (rip, ctx) = Some a" for rip ctx a
    using entry_inside [OF k(1) that] smi_run_region [OF smm] tc0(3,4) smm0(1) by (simp add: k sz)
  ultimately show ?thesis using tl smm smi_run_region [OF smm] by blast
qed

theorem running_system_protected_witness:
  "\<exists>s' tc smm. BemiInitHypervisor sample_env 4 (sample_state None) = Done (EFI_SUCCESS, s') \<and>
     tl_run sample_spin_lock [TcInsert 0x1000 7, TcPin 0x1000 7] (1, bs_TraceCache s') = Done (1, Some tc) \<and>
     tl_run sample_spin_lock [TcInsert 0x1000 7, TcPin 0x1000 7] (gTraceLock, bs_TraceCache s') = Hangs \<and>
     smi_run [(0, 5000)] (bs_Smm s') = Some smm"
proof -
  obtain s' where b: "BemiInitHypervisor sample_env 4 (sample_state None) = Done (EFI_SUCCESS, s')"
    and e: "\<not> EFI_ERROR (fst (hv_Init (en_hv sample_env) 4 (bs_Hypervisor (sample_state None))))"
    using sample_starts by blast
  have "sizeof_header + sizeof_buckets + sizeof_entry * length (filter is_insert [TcInsert 0x1000 7, TcPin 0x1000 7])
      \<le> unat (en_PcdBemiTraceCacheSize sample_env)"
    by (simp add: sizeof_header_def sizeof_buckets_def sizeof_entry_def TRACE_CACHE_HASH_BUCKETS_def sample_pool)
  from running_system_protected [OF b e this sample_spin_lock(1), of "[(0, 5000)]"] b
  show ?thesis unfolding sample_spin_lock(2) by blast
qed

end
